(* ===== verification/Prelude.thy ===== *)
theory Prelude
  imports Main "HOL-Library.AList"
begin

text \<open>
  What every other theory of the development shares: the exceptions the services throw,
  effectful calls over an external world (database, chain node, clock), the JavaScript
  \<open>Map\<close> as an insertion-ordered association list, and the collections of simplification
  rules the component proofs draw on.
\<close>

named_theorems io_simps \<open>unfolding effectful calls step by step\<close>
named_theorems jsmap_simps \<open>lookups in a JavaScript Map after its operations\<close>

section \<open>Exceptions\<close>

text \<open>
  The values the code throws. The first five are NestJS \<open>HttpException\<close> classes and carry
  their message; then the TypeORM errors the database filter tells apart (an entity that is
  not found; a failed query with the PostgreSQL code, the message and the constraint; any
  other TypeORM error), any other \<open>Error\<close> with its name and message, and a thrown value that
  is no \<open>Error\<close>.
\<close>

datatype exn =
    Bad_Request string
  | Unauthorized string
  | Forbidden string
  | Not_Found string
  | Conflict string
  | Entity_Not_Found string
  | Query_Failed "string option" string "string option"
  | Typeorm_Error string
  | Js_Error string string
  | Js_Value string

text \<open>\<open>error instanceof Error ? error.message : String(error)\<close>.\<close>

fun exn_message :: "exn \<Rightarrow> string" where
  "exn_message (Bad_Request m) = m"
| "exn_message (Unauthorized m) = m"
| "exn_message (Forbidden m) = m"
| "exn_message (Not_Found m) = m"
| "exn_message (Conflict m) = m"
| "exn_message (Entity_Not_Found m) = m"
| "exn_message (Query_Failed c m k) = m"
| "exn_message (Typeorm_Error m) = m"
| "exn_message (Js_Error n m) = m"
| "exn_message (Js_Value v) = v"

section \<open>Effectful calls\<close>

text \<open>
  An asynchronous call reads and changes a world \<open>'w\<close> and ends with a value or with an
  exception; effects made before an exception stay, as they do in the program.
\<close>

type_synonym ('w, 'a) io = "'w \<Rightarrow> (exn + 'a) \<times> 'w"

definition io_return :: "'a \<Rightarrow> ('w, 'a) io" where
  "io_return x w = (Inr x, w)"

definition io_throw :: "exn \<Rightarrow> ('w, 'a) io" where
  "io_throw e w = (Inl e, w)"

definition io_bind :: "('w, 'a) io \<Rightarrow> ('a \<Rightarrow> ('w, 'b) io) \<Rightarrow> ('w, 'b) io" where
  "io_bind m k w = (case m w of (Inl e, w') \<Rightarrow> (Inl e, w') | (Inr x, w') \<Rightarrow> k x w')"

text \<open>\<open>try { m } catch (e) { h(e) }\<close>.\<close>

definition io_catch :: "('w, 'a) io \<Rightarrow> (exn \<Rightarrow> ('w, 'a) io) \<Rightarrow> ('w, 'a) io" where
  "io_catch m h w = (case m w of (Inl e, w') \<Rightarrow> h e w' | (Inr x, w') \<Rightarrow> (Inr x, w'))"

lemma io_return_apply [io_simps, simp]: "io_return x w = (Inr x, w)"
  by (simp add: io_return_def)

lemma io_throw_apply [io_simps, simp]: "io_throw e w = (Inl e, w)"
  by (simp add: io_throw_def)

lemma io_bind_Inr [io_simps]: "m w = (Inr x, w') \<Longrightarrow> io_bind m k w = k x w'"
  by (simp add: io_bind_def)

lemma io_bind_Inl [io_simps]: "m w = (Inl e, w') \<Longrightarrow> io_bind m k w = (Inl e, w')"
  by (simp add: io_bind_def)

lemma io_bind_eq_Inr_iff:
  "io_bind m k w = (Inr y, w'') \<longleftrightarrow> (\<exists>x w'. m w = (Inr x, w') \<and> k x w' = (Inr y, w''))"
  by (auto simp: io_bind_def split: prod.splits sum.splits)

lemma io_bind_InrE:
  assumes "io_bind m k w = (Inr y, w'')"
  obtains x w' where "m w = (Inr x, w')" and "k x w' = (Inr y, w'')"
  using assms by (auto simp: io_bind_eq_Inr_iff)

lemma io_bind_assoc: "io_bind (io_bind m k) h = io_bind m (\<lambda>x. io_bind (k x) h)"
  by (rule ext) (auto simp: io_bind_def split: prod.splits sum.splits)

lemma io_catch_never_throws:
  assumes "\<And>e v. \<exists>x v'. h e v = (Inr x, v')"
  shows "\<exists>x w'. io_catch m h w = (Inr x, w')"
  using assms by (auto simp: io_catch_def split: prod.splits sum.splits)

section \<open>JavaScript maps\<close>

text \<open>
  A \<open>Map\<close> keeps its keys in the order of their first insertion: \<open>set\<close> on a present key
  replaces its value in place, and on a new key appends. Deleting the entries a loop visits
  leaves the others in order.
\<close>

type_synonym ('k, 'v) jsmap = "('k \<times> 'v) list"

abbreviation jsmap_set :: "'k \<Rightarrow> 'v \<Rightarrow> ('k, 'v) jsmap \<Rightarrow> ('k, 'v) jsmap" where
  "jsmap_set \<equiv> AList.update"

abbreviation jsmap_get :: "('k, 'v) jsmap \<Rightarrow> 'k \<Rightarrow> 'v option" where
  "jsmap_get \<equiv> map_of"

definition jsmap_has :: "('k, 'v) jsmap \<Rightarrow> 'k \<Rightarrow> bool" where
  "jsmap_has m k \<longleftrightarrow> map_of m k \<noteq> None"

definition jsmap_wf :: "('k, 'v) jsmap \<Rightarrow> bool" where
  "jsmap_wf m \<longleftrightarrow> distinct (map fst m)"

definition jsmap_filter :: "('k \<Rightarrow> 'v \<Rightarrow> bool) \<Rightarrow> ('k, 'v) jsmap \<Rightarrow> ('k, 'v) jsmap" where
  "jsmap_filter P m = filter (\<lambda>(k, v). P k v) m"

lemma jsmap_wf_Nil [simp]: "jsmap_wf []"
  by (simp add: jsmap_wf_def)

lemma jsmap_wf_set [intro, simp]: "jsmap_wf m \<Longrightarrow> jsmap_wf (jsmap_set k v m)"
  by (simp add: jsmap_wf_def distinct_update)

lemma jsmap_wf_filter [intro, simp]: "jsmap_wf m \<Longrightarrow> jsmap_wf (jsmap_filter P m)"
  unfolding jsmap_wf_def jsmap_filter_def
  by (induction m) (auto simp: image_iff)

lemma jsmap_get_set [jsmap_simps]:
  "jsmap_get (jsmap_set k v m) k' = (if k' = k then Some v else jsmap_get m k')"
  by (simp add: update_conv')

lemma jsmap_get_filter [jsmap_simps]:
  "jsmap_wf m \<Longrightarrow> jsmap_get (jsmap_filter P m) k =
     (case jsmap_get m k of None \<Rightarrow> None | Some v \<Rightarrow> if P k v then Some v else None)"
  unfolding jsmap_wf_def jsmap_filter_def
  by (induction m) (auto split: option.splits simp: map_of_eq_None_iff image_iff)

lemma jsmap_has_set [jsmap_simps]:
  "jsmap_has (jsmap_set k v m) k' \<longleftrightarrow> k' = k \<or> jsmap_has m k'"
  by (simp add: jsmap_has_def jsmap_get_set)

lemma jsmap_has_filter [jsmap_simps]:
  "jsmap_wf m \<Longrightarrow> jsmap_has (jsmap_filter P m) k \<longleftrightarrow> (\<exists>v. jsmap_get m k = Some v \<and> P k v)"
  by (auto simp: jsmap_has_def jsmap_get_filter split: option.splits)

lemma keys_conv_map_of: "fst ` set m = {k. map_of m k \<noteq> None}"
  by (auto simp: map_of_eq_None_iff)

lemma fst_comp_snd_map [simp]: "fst \<circ> (\<lambda>p. (fst p, f (snd p))) = fst"
  by auto

lemma map_of_snd_map [jsmap_simps]:
  "map_of (map (\<lambda>p. (fst p, f (snd p))) m) k = map_option f (map_of m k)"
  by (induction m) auto

lemma jsmap_set_same [simp]: "jsmap_set k v (jsmap_set k v m) = jsmap_set k v m"
  by (induction m) auto

lemma jsmap_keys_set:
  "map fst (jsmap_set k v m) = (if k \<in> set (map fst m) then map fst m else map fst m @ [k])"
  by (induction m) auto

section \<open>Lists\<close>

lemma mem_neq: "x \<in> A \<Longrightarrow> y \<notin> A \<Longrightarrow> x \<noteq> y"
  by blast

lemma split_prefix_Cons:
  "(\<exists>s t. c # cs = s @ t \<and> list_all P s \<and> Q t) \<longleftrightarrow>
     Q (c # cs) \<or> (P c \<and> (\<exists>s t. cs = s @ t \<and> list_all P s \<and> Q t))"
proof
  assume "\<exists>s t. c # cs = s @ t \<and> list_all P s \<and> Q t"
  then obtain s t where st: "c # cs = s @ t" "list_all P s" "Q t" by blast
  then show "Q (c # cs) \<or> (P c \<and> (\<exists>s t. cs = s @ t \<and> list_all P s \<and> Q t))"
    by (cases s) auto
next
  assume "Q (c # cs) \<or> (P c \<and> (\<exists>s t. cs = s @ t \<and> list_all P s \<and> Q t))"
  then show "\<exists>s t. c # cs = s @ t \<and> list_all P s \<and> Q t"
  proof
    assume "Q (c # cs)"
    then show ?thesis by (intro exI [of _ "[]"] exI [of _ "c # cs"]) simp
  next
    assume "P c \<and> (\<exists>s t. cs = s @ t \<and> list_all P s \<and> Q t)"
    then obtain s t where "P c" "cs = s @ t" "list_all P s" "Q t" by blast
    then show ?thesis by (intro exI [of _ "c # s"] exI [of _ t]) simp
  qed
qed

end
