(* ===== verification/Js_String.thy ===== *)
theory Js_String
  imports Prelude "HOL-Library.Char_ord" "HOL-Library.List_Lexorder"
begin

text \<open>
  The JavaScript string operations the program uses. A string is a list of UTF-16 code units;
  the model's strings are lists of \<open>char\<close>, that is, of the code units up to 255, so a
  string's length, its order and its regular expressions read the same units as the program
  does. Code units from 256 on are outside the model.
\<close>

section \<open>Characters\<close>

definition char_in :: "char \<Rightarrow> char \<Rightarrow> char \<Rightarrow> bool" where
  "char_in lo hi c \<longleftrightarrow> of_char lo \<le> (of_char c :: nat) \<and> of_char c \<le> (of_char hi :: nat)"

definition is_digit :: "char \<Rightarrow> bool" where
  "is_digit c \<longleftrightarrow> char_in CHR ''0'' CHR ''9'' c"

definition is_lower :: "char \<Rightarrow> bool" where
  "is_lower c \<longleftrightarrow> char_in CHR ''a'' CHR ''z'' c"

definition is_upper :: "char \<Rightarrow> bool" where
  "is_upper c \<longleftrightarrow> char_in CHR ''A'' CHR ''Z'' c"

definition is_hex :: "char \<Rightarrow> bool" where
  "is_hex c \<longleftrightarrow> is_digit c \<or> char_in CHR ''a'' CHR ''f'' c \<or> char_in CHR ''A'' CHR ''F'' c"

text \<open>The class \<open>\w\<close> of a regular expression.\<close>

definition is_word :: "char \<Rightarrow> bool" where
  "is_word c \<longleftrightarrow> is_digit c \<or> is_lower c \<or> is_upper c \<or> c = CHR ''_''"

text \<open>White space (the class \<open>\s\<close>, and what \<open>trim\<close> removes) up to U+00FF.\<close>

definition is_space :: "char \<Rightarrow> bool" where
  "is_space c \<longleftrightarrow> char_in CHR 0x09 CHR 0x0D c \<or> c = CHR '' '' \<or> c = CHR 0xA0"

text \<open>The line terminators, which \<open>.\<close> does not match.\<close>

definition is_line_end :: "char \<Rightarrow> bool" where
  "is_line_end c \<longleftrightarrow> c = CHR 0x0A \<or> c = CHR 0x0D"

text \<open>Lower case of the letters up to U+00FF; the multiplication sign U+00D7 has none.\<close>

definition char_lower :: "char \<Rightarrow> char" where
  "char_lower c =
     (if is_upper c \<or> (char_in CHR 0xC0 CHR 0xDE c \<and> c \<noteq> CHR 0xD7)
      then char_of (of_char c + (32::nat)) else c)"

definition js_lower :: "string \<Rightarrow> string" where
  "js_lower s = map char_lower s"

lemma of_char_char_lower:
  "of_char (char_lower c) =
     (if is_upper c \<or> (char_in CHR 0xC0 CHR 0xDE c \<and> c \<noteq> CHR 0xD7) then of_char c + 32
      else (of_char c :: nat))"
  by (auto simp: char_lower_def is_upper_def char_in_def)

lemma char_lower_not_upper: "\<not> is_upper (char_lower c)"
  by (auto simp: is_upper_def char_in_def of_char_char_lower)

lemma char_lower_idem [simp]: "char_lower (char_lower c) = char_lower c"
proof (cases "is_upper c \<or> (char_in CHR 0xC0 CHR 0xDE c \<and> c \<noteq> CHR 0xD7)")
  case True
  then have "\<not> is_upper (char_lower c)" and "\<not> char_in CHR 0xC0 CHR 0xDE (char_lower c)"
    by (auto simp: is_upper_def char_in_def of_char_char_lower)
  then show ?thesis by (simp add: char_lower_def [of "char_lower c"])
next
  case False
  then have "char_lower c = c" unfolding char_lower_def by (simp only: if_False)
  then show ?thesis by simp
qed

lemma char_lower_id: "of_char c < (65::nat) \<or> is_lower c \<Longrightarrow> char_lower c = c"
  by (auto simp: char_lower_def is_upper_def is_lower_def char_in_def)

lemma is_hex_char_lower: "is_hex c \<Longrightarrow> is_hex (char_lower c)"
  by (auto simp: is_hex_def is_digit_def char_in_def of_char_char_lower is_upper_def)

lemma js_lower_append [simp]: "js_lower (s @ t) = js_lower s @ js_lower t"
  by (simp add: js_lower_def)

lemma js_lower_idem [simp]: "js_lower (js_lower s) = js_lower s"
  by (simp add: js_lower_def)

lemma js_lower_no_upper: "\<not> list_ex is_upper (js_lower s)"
  by (auto simp: js_lower_def list_ex_iff char_lower_not_upper)

section \<open>Trimming, splitting, searching\<close>

definition js_trim_left :: "string \<Rightarrow> string" where
  "js_trim_left s = dropWhile is_space s"

definition js_trim :: "string \<Rightarrow> string" where
  "js_trim s = rev (dropWhile is_space (rev (js_trim_left s)))"

text \<open>\<open>s.split(c)\<close> for a one-character separator: never an empty list.\<close>

fun js_split :: "char \<Rightarrow> string \<Rightarrow> string list" where
  "js_split c [] = [[]]"
| "js_split c (x # xs) =
     (if x = c then [] # js_split c xs
      else (case js_split c xs of [] \<Rightarrow> [[x]] | p # ps \<Rightarrow> (x # p) # ps))"

text \<open>\<open>parts.join(sep)\<close>.\<close>

fun js_join :: "string \<Rightarrow> string list \<Rightarrow> string" where
  "js_join sep [] = []"
| "js_join sep [x] = x"
| "js_join sep (x # y # ys) = x @ sep @ js_join sep (y # ys)"

text \<open>\<open>s.indexOf(c)\<close> for a one-character needle, \<open>None\<close> for \<open>-1\<close>.\<close>

fun js_index_of :: "char \<Rightarrow> string \<Rightarrow> nat option" where
  "js_index_of c [] = None"
| "js_index_of c (x # xs) = (if x = c then Some 0 else map_option Suc (js_index_of c xs))"

section \<open>Numbers as text\<close>

definition digit_val :: "char \<Rightarrow> nat" where
  "digit_val c = of_char c - of_char CHR ''0''"

definition digits_val :: "string \<Rightarrow> nat" where
  "digits_val ds = foldl (\<lambda>n d. 10 * n + digit_val d) 0 ds"

text \<open>
  \<open>Number.parseInt(s, 10)\<close>: leading white space, a sign, then the longest run of digits;
  \<open>None\<close> is \<open>NaN\<close>. Exact on integers a double represents exactly.
\<close>

definition js_parse_int :: "string \<Rightarrow> int option" where
  "js_parse_int s =
     (let t = js_trim_left s;
          (neg, u) = (case t of
                        [] \<Rightarrow> (False, [])
                      | c # cs \<Rightarrow> if c = CHR ''-'' then (True, cs)
                                  else if c = CHR ''+'' then (False, cs) else (False, c # cs));
          ds = takeWhile is_digit u
      in if ds = [] then None
         else Some (if neg then - int (digits_val ds) else int (digits_val ds)))"

fun nat_str :: "nat \<Rightarrow> string" where
  "nat_str n = (if n < 10 then [char_of (n + 48)] else nat_str (n div 10) @ [char_of (n mod 10 + 48)])"

declare nat_str.simps [simp del]

definition int_str :: "int \<Rightarrow> string" where
  "int_str i = (if i < 0 then CHR ''-'' # nat_str (nat (- i)) else nat_str (nat i))"

lemma digits_val_snoc: "digits_val (ds @ [d]) = 10 * digits_val ds + digit_val d"
  by (simp add: digits_val_def)

lemma nat_str_digits: "nat_str n \<noteq> [] \<and> list_all is_digit (nat_str n)"
proof (induction n rule: nat_str.induct)
  case (1 n)
  show ?case
  proof (cases "n < 10")
    case True
    then show ?thesis by (subst (1 2) nat_str.simps) (simp add: is_digit_def char_in_def)
  next
    case False
    have "is_digit (char_of (n mod 10 + 48))"
      by (simp add: is_digit_def char_in_def less_Suc_eq_le [symmetric])
    then show ?thesis using 1 False by (subst (1 2) nat_str.simps) simp
  qed
qed

lemma digits_val_nat_str [simp]: "digits_val (nat_str n) = n"
proof (induction n rule: nat_str.induct)
  case (1 n)
  show ?case
  proof (cases "n < 10")
    case True
    then show ?thesis by (subst nat_str.simps) (simp add: digits_val_def digit_val_def)
  next
    case False
    then show ?thesis using 1
      by (subst nat_str.simps) (simp add: digits_val_snoc digit_val_def)
  qed
qed

lemma is_digit_not: "is_digit c \<Longrightarrow> c \<noteq> CHR ''-'' \<and> c \<noteq> CHR ''+'' \<and> \<not> is_space c \<and> c \<noteq> CHR ''.''"
  by (auto simp: is_digit_def is_space_def char_in_def)

text \<open>Reading back the text of a natural number.\<close>

lemma js_parse_int_nat_str [simp]: "js_parse_int (nat_str n) = Some (int n)"
proof -
  obtain d ds where ds: "nat_str n = d # ds" and dig: "is_digit d" "list_all is_digit ds"
    using nat_str_digits [of n] by (cases "nat_str n") auto
  have "takeWhile is_digit (d # ds) = d # ds"
    using dig by (simp add: takeWhile_eq_all_conv list_all_iff)
  moreover have "js_trim_left (d # ds) = d # ds"
    using is_digit_not [OF dig(1)] by (simp add: js_trim_left_def)
  moreover have "digits_val (d # ds) = n" by (simp flip: ds)
  ultimately show ?thesis
    using is_digit_not [OF dig(1)] by (simp add: js_parse_int_def ds)
qed

section \<open>Splitting and joining\<close>

lemma js_split_not_Nil [simp]: "js_split c s \<noteq> []"
  by (induction s) (auto split: list.split)

lemma js_split_no_sep: "c \<notin> set s \<Longrightarrow> js_split c s = [s]"
  by (induction s) auto

lemma js_split_append: "c \<notin> set s \<Longrightarrow> js_split c (s @ c # t) = s # js_split c t"
  by (induction s) auto

lemma js_split_join:
  "ps \<noteq> [] \<Longrightarrow> list_all (\<lambda>p. c \<notin> set p) ps \<Longrightarrow> js_split c (js_join [c] ps) = ps"
  by (induction "[c]" ps rule: js_join.induct) (auto simp: js_split_no_sep js_split_append)

lemma js_split_parts: "list_all (\<lambda>p. c \<notin> set p) (js_split c s)"
  by (induction s) (auto split: list.split)

lemma js_join_split: "js_join [c] (js_split c s) = s"
proof (induction s)
  case (Cons x s)
  then show ?case by (cases "js_split c s"; cases "tl (js_split c s)") auto
qed simp

lemma js_index_of_append: "c \<notin> set s \<Longrightarrow> js_index_of c (s @ c # t) = Some (length s)"
  by (induction s) auto

lemma js_trim_id: "s \<noteq> [] \<Longrightarrow> \<not> is_space (hd s) \<Longrightarrow> \<not> is_space (last s) \<Longrightarrow> js_trim s = s"
proof -
  assume "s \<noteq> []" "\<not> is_space (hd s)" "\<not> is_space (last s)"
  then have "js_trim_left s = s" by (cases s) (simp_all add: js_trim_left_def)
  moreover have "dropWhile is_space (rev s) = rev s"
    using \<open>s \<noteq> []\<close> \<open>\<not> is_space (last s)\<close> by (cases s rule: rev_cases) auto
  ultimately show ?thesis by (simp add: js_trim_def)
qed

section \<open>Bytes\<close>

text \<open>\<open>Buffer.from(s, 'hex')\<close>: pairs of hexadecimal digits, up to the first that is none.\<close>

definition hex_val :: "char \<Rightarrow> nat" where
  "hex_val c =
     (if is_digit c then of_char c - 48
      else if char_in CHR ''a'' CHR ''f'' c then of_char c - 87
      else of_char c - 55)"

fun hex_bytes :: "string \<Rightarrow> nat list" where
  "hex_bytes (a # b # s) = (if is_hex a \<and> is_hex b then (16 * hex_val a + hex_val b) # hex_bytes s else [])"
| "hex_bytes _ = []"

definition is_lower_hex :: "char \<Rightarrow> bool" where
  "is_lower_hex c \<longleftrightarrow> is_digit c \<or> char_in CHR ''a'' CHR ''f'' c"

lemma of_char_eq_nat: "(of_char c :: nat) = of_char d \<longleftrightarrow> c = d"
  by (metis char_of_char)

lemma hex_val_inj: "is_lower_hex c \<Longrightarrow> is_lower_hex d \<Longrightarrow> hex_val c = hex_val d \<longleftrightarrow> c = d"
proof
  assume "is_lower_hex c" "is_lower_hex d" "hex_val c = hex_val d"
  then have "(of_char c :: nat) = of_char d"
    by (auto simp: is_lower_hex_def is_digit_def char_in_def hex_val_def simp del: of_char_eq_iff split: if_splits)
  then show "c = d" by (simp only: of_char_eq_nat)
qed simp

lemma hex_val_less: "is_hex c \<Longrightarrow> hex_val c < 16"
  by (auto simp: is_hex_def is_digit_def char_in_def hex_val_def)

lemma is_lower_hex_is_hex: "is_lower_hex c \<Longrightarrow> is_hex c"
  by (auto simp: is_lower_hex_def is_hex_def)

lemma hexadecimal_pair: "b < 16 \<Longrightarrow> d < 16 \<Longrightarrow> 16 * a + b = 16 * c + d \<longleftrightarrow> a = c \<and> b = (d::nat)"
proof
  assume "b < 16" "d < 16" and eq: "16 * a + b = 16 * c + d"
  then have "a = (16 * a + b) div 16" and "c = (16 * c + d) div 16" by simp_all
  then have "a = c" using eq by metis
  with eq show "a = c \<and> b = d" by simp
qed simp

lemma hex_bytes_inj:
  "list_all is_lower_hex s \<Longrightarrow> list_all is_lower_hex t \<Longrightarrow> length s = length t \<Longrightarrow> even (length s) \<Longrightarrow>
     hex_bytes s = hex_bytes t \<longleftrightarrow> s = t"
proof (induction s arbitrary: t rule: hex_bytes.induct)
  case (1 a b s)
  then obtain c d u where t: "t = c # d # u" by (cases t; cases "tl t") auto
  have hex: "is_lower_hex a" "is_lower_hex b" "is_lower_hex c" "is_lower_hex d"
    using "1.prems" t by auto
  then have less: "hex_val b < 16" "hex_val d < 16" by (auto intro: hex_val_less is_lower_hex_is_hex)
  have pair: "16 * hex_val a + hex_val b = 16 * hex_val c + hex_val d \<longleftrightarrow> a = c \<and> b = d"
    by (simp only: hexadecimal_pair [OF less] hex_val_inj [OF hex(1,3)] hex_val_inj [OF hex(2,4)])
  have "hex_bytes s = hex_bytes u \<longleftrightarrow> s = u"
    using "1.prems" t by (intro "1.IH") (auto simp: hex is_lower_hex_is_hex)
  with pair show ?case by (simp add: t hex is_lower_hex_is_hex)
qed (simp_all, metis One_nat_def odd_one)

text \<open>\<open>Buffer.from(s)\<close>: UTF-8 of code units up to 255.\<close>

definition utf8_char :: "char \<Rightarrow> nat list" where
  "utf8_char c = (let n = of_char c in if n < 128 then [n] else [192 + n div 64, 128 + n mod 64])"

definition utf8_bytes :: "string \<Rightarrow> nat list" where
  "utf8_bytes s = concat (map utf8_char s)"

lemma utf8_char_prefix: "utf8_char c @ u = utf8_char d @ v \<Longrightarrow> c = d \<and> u = v"
proof -
  assume eq: "utf8_char c @ u = utf8_char d @ v"
  have "(of_char c :: nat) = of_char d \<and> u = v"
  proof (cases "(of_char c :: nat) < 128"; cases "(of_char d :: nat) < 128")
    assume "\<not> (of_char c :: nat) < 128" "\<not> (of_char d :: nat) < 128"
    with eq have "(of_char c :: nat) div 64 = of_char d div 64" "(of_char c :: nat) mod 64 = of_char d mod 64" "u = v"
      by (auto simp: utf8_char_def Let_def)
    then show ?thesis by (metis (no_types) div_mult_mod_eq)
  qed (use eq in \<open>auto simp: utf8_char_def Let_def\<close>)
  then show ?thesis by (simp only: of_char_eq_nat)
qed

lemma utf8_bytes_inj: "utf8_bytes s = utf8_bytes t \<longleftrightarrow> s = t"
proof
  show "utf8_bytes s = utf8_bytes t \<Longrightarrow> s = t"
  proof (induction s arbitrary: t)
    case Nil
    then show ?case by (cases t) (auto simp: utf8_bytes_def utf8_char_def Let_def split: if_splits)
  next
    case (Cons c s)
    then obtain d u where t: "t = d # u"
      by (cases t) (auto simp: utf8_bytes_def utf8_char_def Let_def split: if_splits)
    with Cons.prems have "utf8_char c @ utf8_bytes s = utf8_char d @ utf8_bytes u"
      by (simp add: utf8_bytes_def)
    with Cons.IH t show ?case by (auto dest: utf8_char_prefix)
  qed
qed simp

end
