(* ===== verification/Api_Keys.thy ===== *)
theory Api_Keys
  imports Js_String
begin

text \<open>
  Static API keys of service callers (\<open>src/src/common/auth/api-key.service.ts\<close>): the table of
  key digests read from the configuration, and the verification of a presented key. The digest
  (SHA-256 in hexadecimal) is a parameter. The properties show that a well-formed configuration
  is read back entry by entry and that verification finds exactly the configured keys.
\<close>

type_synonym key_table = "(string, string) jsmap"

text \<open>One comma-separated pair: \<open>None\<close> for what the loop skips.\<close>

definition api_key_entry :: "string \<Rightarrow> (string \<times> string) option" where
  "api_key_entry pair =
     (let trimmed = js_trim pair
      in if trimmed = [] then None
         else (case js_index_of CHR '':'' trimmed of
                 None \<Rightarrow> None
               | Some separator \<Rightarrow>
                   if separator = 0 \<or> separator = length trimmed - 1 then None
                   else Some (take separator trimmed, drop (Suc separator) trimmed)))"

definition load_api_keys :: "(string \<Rightarrow> string) \<Rightarrow> string \<Rightarrow> key_table" where
  "load_api_keys digest raw =
     foldl (\<lambda>keys pair. case api_key_entry pair of
                          None \<Rightarrow> keys
                        | Some (label, secret) \<Rightarrow> jsmap_set (digest secret) label keys)
       [] (js_split CHR '','' raw)"

definition api_keys_enabled :: "key_table \<Rightarrow> bool" where
  "api_keys_enabled keys \<longleftrightarrow> length keys > 0"

text \<open>The loop of \<open>verify\<close>: equal length and equal bytes.\<close>

fun find_api_key :: "nat list \<Rightarrow> key_table \<Rightarrow> string option" where
  "find_api_key candidate [] = None"
| "find_api_key candidate ((d, label) # keys) =
     (let known = hex_bytes d
      in if length known = length candidate \<and> known = candidate then Some label
         else find_api_key candidate keys)"

definition verify_api_key :: "(string \<Rightarrow> string) \<Rightarrow> key_table \<Rightarrow> string option \<Rightarrow> string option" where
  "verify_api_key digest keys presented =
     (case presented of
        None \<Rightarrow> None
      | Some p \<Rightarrow> if p = [] \<or> length keys = 0 then None
                  else find_api_key (hex_bytes (digest p)) keys)"

text \<open>What the model relies on of the digest: 64 lower-case hexadecimal digits.\<close>

definition digest_hex :: "(string \<Rightarrow> string) \<Rightarrow> bool" where
  "digest_hex digest \<longleftrightarrow> (\<forall>s. length (digest s) = 64 \<and> list_all is_lower_hex (digest s))"

text \<open>The entries of a configuration, in order.\<close>

definition api_key_entries :: "string \<Rightarrow> (string \<times> string) list" where
  "api_key_entries raw = List.map_filter api_key_entry (js_split CHR '','' raw)"

section \<open>The table\<close>

lemma load_api_keys_entries:
  "load_api_keys digest raw = foldl (\<lambda>keys e. jsmap_set (digest (snd e)) (fst e) keys) [] (api_key_entries raw)"
proof -
  have "foldl (\<lambda>keys pair. case api_key_entry pair of None \<Rightarrow> keys
           | Some (label, secret) \<Rightarrow> jsmap_set (digest secret) label keys) ks ps =
        foldl (\<lambda>keys e. jsmap_set (digest (snd e)) (fst e) keys) ks (List.map_filter api_key_entry ps)" for ks ps
    by (induction ps arbitrary: ks) (auto simp: List.map_filter_simps split: option.split prod.split)
  then show ?thesis by (simp add: load_api_keys_def api_key_entries_def)
qed

lemma foldl_keys_get:
  "jsmap_get (foldl (\<lambda>keys e. jsmap_set (f (snd e)) (fst e) keys) ks es) d =
     (case map_of (rev (map (\<lambda>e. (f (snd e), fst e)) es)) d of Some l \<Rightarrow> Some l | None \<Rightarrow> jsmap_get ks d)"
  by (induction es arbitrary: ks) (auto simp: jsmap_get_set map_add_def split: option.split)

lemma foldl_keys_subset:
  "set (map fst (foldl (\<lambda>keys e. jsmap_set (f (snd e)) (fst e) keys) ks es)) \<subseteq>
     set (map fst ks) \<union> f ` set (map snd es)"
proof (induction es arbitrary: ks)
  case (Cons e es)
  show ?case using Cons.IH [of "jsmap_set (f (snd e)) (fst e) ks"]
    by (auto simp: dom_update)
qed simp

lemma find_api_key_map_of:
  assumes "\<forall>k \<in> set (map fst keys). length k = 64 \<and> list_all is_lower_hex k"
    and "length d = 64" "list_all is_lower_hex d"
  shows "find_api_key (hex_bytes d) keys = jsmap_get keys d"
  using assms(1)
proof (induction keys)
  case (Cons k keys)
  have "hex_bytes (fst k) = hex_bytes d \<longleftrightarrow> fst k = d"
    using Cons.prems assms(2,3) by (intro hex_bytes_inj) auto
  with Cons show ?case by (cases k) auto
qed simp

lemma map_of_collision_free:
  assumes "\<forall>e \<in> set es. f (snd e) = f p \<longrightarrow> snd e = p"
  shows "map_of (map (\<lambda>e. (f (snd e), fst e)) es) (f p) = map_of (map (\<lambda>e. (snd e, fst e)) es) p"
  using assms by (induction es) auto

section \<open>Properties\<close>

text \<open>
  C14: A presented key is accepted exactly when it is configured, and it then identifies the
  caller by the label of the last entry that configures it; a missing or empty header never
  identifies anyone. Assumed are hexadecimal digests of the fixed width and no collision between
  the presented key and a configured one.
\<close>

theorem verify_api_key_exact:
  assumes "digest_hex digest"
    and "\<forall>e \<in> set (api_key_entries raw). digest (snd e) = digest p \<longrightarrow> snd e = p"
    and "p \<noteq> []"
  shows "verify_api_key digest (load_api_keys digest raw) (Some p) =
     map_of (rev (map (\<lambda>e. (snd e, fst e)) (api_key_entries raw))) p"
proof -
  let ?keys = "load_api_keys digest raw"
  let ?es = "api_key_entries raw"
  have get: "jsmap_get ?keys (digest p) = map_of (rev (map (\<lambda>e. (snd e, fst e)) ?es)) p"
    using map_of_collision_free [of "rev ?es" digest p] assms(2)
    by (simp add: load_api_keys_entries foldl_keys_get rev_map split: option.split)
  have "set (map fst ?keys) \<subseteq> digest ` set (map snd ?es)"
    unfolding load_api_keys_entries using foldl_keys_subset [of digest "[]" ?es] by simp
  then have "\<forall>k \<in> set (map fst ?keys). length k = 64 \<and> list_all is_lower_hex k"
    using assms(1) by (auto simp: digest_hex_def)
  then have "find_api_key (hex_bytes (digest p)) ?keys = jsmap_get ?keys (digest p)"
    using assms(1) by (intro find_api_key_map_of) (auto simp: digest_hex_def)
  with get assms(3) show ?thesis
    by (auto simp: verify_api_key_def)
qed

definition demo_digest :: "string \<Rightarrow> string" where
  "demo_digest s = (if s = ''k1'' then replicate 64 CHR ''a'' else replicate 64 CHR ''0'')"

theorem verify_api_key_exact_witness:
  "verify_api_key demo_digest (load_api_keys demo_digest ''rail:k1, bad, verifier:k2'') (Some ''k1'') = Some ''rail'' \<and>
   verify_api_key demo_digest (load_api_keys demo_digest ''rail:k1'') (Some ''other'') = None"
proof -
  have hex: "digest_hex demo_digest"
    by (auto simp: digest_hex_def demo_digest_def list_all_iff is_lower_hex_def is_digit_def char_in_def)
  have es: "api_key_entries ''rail:k1, bad, verifier:k2'' = [(''rail'', ''k1''), (''verifier'', ''k2'')]"
    and es1: "api_key_entries ''rail:k1'' = [(''rail'', ''k1'')]"
    by code_simp+
  have "demo_digest ''k1'' \<noteq> demo_digest ''k2''" "demo_digest ''k1'' \<noteq> demo_digest ''other''" by code_simp+
  then show ?thesis
    using verify_api_key_exact [OF hex, of "''rail:k1, bad, verifier:k2''" "''k1''"]
      verify_api_key_exact [OF hex, of "''rail:k1''" "''other''"]
    by (auto simp: es es1)
qed

text \<open>
  The configuration is read as it was written. Entries \<open>label:key\<close> with a label without
  colon, neither part empty or with a comma, and no white space at the outer ends are read back
  in order, every one of them; the key may contain colons.
\<close>

theorem api_key_entries_roundtrip:
  assumes "es \<noteq> []"
    and "\<forall>(l, k) \<in> set es. l \<noteq> [] \<and> k \<noteq> [] \<and> CHR '':'' \<notin> set l \<and> CHR '','' \<notin> set l \<and> CHR '','' \<notin> set k \<and>
      \<not> is_space (hd l) \<and> \<not> is_space (last k)"
  shows "api_key_entries (js_join '','' (map (\<lambda>(l, k). l @ '':'' @ k) es)) = es"
proof -
  let ?text = "\<lambda>(l, k). l @ '':'' @ k"
  have "list_all (\<lambda>p. CHR '','' \<notin> set p) (map ?text es)"
    using assms(2) by (auto simp: list_all_iff)
  then have split: "js_split CHR '','' (js_join '','' (map ?text es)) = map ?text es"
    using assms(1) by (intro js_split_join) auto
  have entry: "api_key_entry (l @ CHR '':'' # k) = Some (l, k)" if "(l, k) \<in> set es" for l k
  proof -
    have lk: "l \<noteq> []" "k \<noteq> []" "CHR '':'' \<notin> set l" "\<not> is_space (hd l)" "\<not> is_space (last k)"
      using assms(2) that by auto
    then have "js_trim (l @ CHR '':'' # k) = l @ CHR '':'' # k"
      by (intro js_trim_id) (auto simp: last_append)
    moreover have "js_index_of CHR '':'' (l @ CHR '':'' # k) = Some (length l)"
      using lk(3) by (rule js_index_of_append)
    ultimately show ?thesis using lk by (simp add: api_key_entry_def)
  qed
  have "List.map_filter api_key_entry (map ?text xs) = xs" if "set xs \<subseteq> set es" for xs
    using that by (induction xs) (auto simp: List.map_filter_simps entry)
  from this [of es] show ?thesis unfolding api_key_entries_def split by simp
qed

theorem api_key_entries_roundtrip_witness:
  "api_key_entries ''rail:a:b,verifier:c'' = [(''rail'', ''a:b''), (''verifier'', ''c'')]"
proof -
  have "api_key_entries (js_join '','' (map (\<lambda>(l, k). l @ '':'' @ k) [(''rail'', ''a:b''), (''verifier'', ''c'')])) =
      [(''rail'', ''a:b''), (''verifier'', ''c'')]"
    by (rule api_key_entries_roundtrip) (auto simp: is_space_def char_in_def)
  then show ?thesis by simp
qed

end
