(* ===== verification/Expiring_Store.thy ===== *)
theory Expiring_Store
  imports Js_String
begin

text \<open>
  The contract the nonce store and the refresh-token revocation list share: a map from keys to
  values that expire, from which every operation first evicts what has expired. The clients'
  facts are proved once here; both components interpret the locale on their own operations.
\<close>

locale expiring_store =
  fixes evict :: "int \<Rightarrow> 'm \<Rightarrow> 'm"
    and lookup :: "'m \<Rightarrow> 'k \<Rightarrow> 'v option"
    and add :: "'k \<Rightarrow> 'v \<Rightarrow> 'm \<Rightarrow> 'm"
    and alive :: "int \<Rightarrow> 'v \<Rightarrow> bool"
    and inv :: "'m \<Rightarrow> bool"
  assumes inv_evict: "inv m \<Longrightarrow> inv (evict now m)"
    and inv_add: "inv m \<Longrightarrow> inv (add k v m)"
    and lookup_evict: "inv m \<Longrightarrow> lookup (evict now m) k =
        (case lookup m k of None \<Rightarrow> None | Some v \<Rightarrow> if alive now v then Some v else None)"
    and lookup_add: "inv m \<Longrightarrow> lookup (add k v m) k' = (if k' = k then Some v else lookup m k')"
    and alive_earlier: "alive now v \<Longrightarrow> earlier \<le> now \<Longrightarrow> alive earlier v"
begin

text \<open>What happens to a store up to the instant \<open>T\<close> while nobody adds the key \<open>k\<close>.\<close>

inductive evolves :: "'k \<Rightarrow> int \<Rightarrow> 'm \<Rightarrow> 'm \<Rightarrow> bool" for k T where
  stays: "evolves k T m m"
| evicts: "evolves k T m m' \<Longrightarrow> now \<le> T \<Longrightarrow> evolves k T m (evict now m')"
| adds: "evolves k T m m' \<Longrightarrow> k' \<noteq> k \<Longrightarrow> evolves k T m (add k' v m')"

lemma evolves_inv: "evolves k T m m' \<Longrightarrow> inv m \<Longrightarrow> inv m'"
  by (induction rule: evolves.induct) (auto intro: inv_evict inv_add)

lemma evolves_keeps:
  "evolves k T m m' \<Longrightarrow> inv m \<Longrightarrow> lookup m k = Some v \<Longrightarrow> alive T v \<Longrightarrow> lookup m' k = Some v"
proof (induction rule: evolves.induct)
  case (evicts m m' now)
  then show ?case using alive_earlier by (simp add: lookup_evict evolves_inv)
qed (auto simp: lookup_add evolves_inv)

lemma evolves_absent:
  "evolves k T m m' \<Longrightarrow> inv m \<Longrightarrow> lookup m k = None \<Longrightarrow> lookup m' k = None"
  by (induction rule: evolves.induct) (auto simp: lookup_evict lookup_add evolves_inv)

lemma evolves_trans: "evolves k T m' m'' \<Longrightarrow> evolves k T m m' \<Longrightarrow> evolves k T m m''"
  by (induction rule: evolves.induct) (auto intro: evolves.intros)

lemma evolves_later: "evolves k T m m' \<Longrightarrow> T \<le> T' \<Longrightarrow> evolves k T' m m'"
  by (induction rule: evolves.induct) (auto intro: evolves.intros)

lemma expired_is_gone: "inv m \<Longrightarrow> lookup m k = Some v \<Longrightarrow> \<not> alive now v \<Longrightarrow> lookup (evict now m) k = None"
  by (simp add: lookup_evict)

lemma evicted_alive: "inv m \<Longrightarrow> lookup (evict now m) k = Some v \<Longrightarrow> alive now v \<and> lookup m k = Some v"
  by (auto simp: lookup_evict split: option.splits if_splits)

text \<open>The test every client makes: is the key present once the expired entries are gone?\<close>

lemma present_iff: "inv m \<Longrightarrow> lookup (evict now m) k \<noteq> None \<longleftrightarrow> (\<exists>v. lookup m k = Some v \<and> alive now v)"
  by (auto simp: lookup_evict split: option.splits)

lemma evict_twice: "inv m \<Longrightarrow> now \<le> later \<Longrightarrow> lookup (evict later (evict now m)) k = lookup (evict later m) k"
  using alive_earlier by (auto simp: lookup_evict inv_evict split: option.splits)

end

end
