(* ===== verification/Js_Regex.thy ===== *)
theory Js_Regex
  imports Js_String
begin

text \<open>
  Regular expressions as the program uses them: the language of an expression
  (\<open>rx_in\<close>, an inductive predicate), the test of an anchored expression
  (\<open>rx_match\<close>, by derivatives), the search of an unanchored one and the global replacement.
  The first group of lemmas shows that the executable functions decide the language; the
  second, collected in \<open>rx_simps\<close>, computes the languages of the shapes that occur.
\<close>

named_theorems rx_simps \<open>languages of the expressions the program uses\<close>

section \<open>Expressions and their language\<close>

datatype rx =
    RNone
  | REps
  | RSet "char \<Rightarrow> bool"
  | RSeq rx rx
  | RAlt rx rx
  | RStar rx

inductive rx_in :: "rx \<Rightarrow> string \<Rightarrow> bool" where
  eps: "rx_in REps []"
| chr: "P c \<Longrightarrow> rx_in (RSet P) [c]"
| seq: "rx_in r s \<Longrightarrow> rx_in q t \<Longrightarrow> rx_in (RSeq r q) (s @ t)"
| altL: "rx_in r s \<Longrightarrow> rx_in (RAlt r q) s"
| altR: "rx_in q s \<Longrightarrow> rx_in (RAlt r q) s"
| star_nil: "rx_in (RStar r) []"
| star_app: "rx_in r s \<Longrightarrow> rx_in (RStar r) t \<Longrightarrow> rx_in (RStar r) (s @ t)"

inductive_simps rx_in_simps [rx_simps]:
  "rx_in RNone s"
  "rx_in REps s"
  "rx_in (RSet P) s"
  "rx_in (RSeq r q) s"
  "rx_in (RAlt r q) s"

inductive_cases rx_in_starE: "rx_in (RStar r) s"

definition RChr :: "char \<Rightarrow> rx" where
  "RChr c = RSet ((=) c)"

text \<open>The dot: any character but a line terminator.\<close>

definition RDot :: rx where
  "RDot = RSet (\<lambda>c. \<not> is_line_end c)"

definition RAny :: rx where
  "RAny = RSet (\<lambda>_. True)"

fun RLit :: "string \<Rightarrow> rx" where
  "RLit [] = REps"
| "RLit (c # cs) = RSeq (RChr c) (RLit cs)"

text \<open>A literal in a case-insensitive expression.\<close>

fun RLit_ci :: "string \<Rightarrow> rx" where
  "RLit_ci [] = REps"
| "RLit_ci (c # cs) = RSeq (RSet (\<lambda>d. char_lower d = char_lower c)) (RLit_ci cs)"

definition RPlus :: "rx \<Rightarrow> rx" where
  "RPlus r = RSeq r (RStar r)"

definition ROpt :: "rx \<Rightarrow> rx" where
  "ROpt r = RAlt r REps"

fun RRep :: "nat \<Rightarrow> rx \<Rightarrow> rx" where
  "RRep 0 r = REps"
| "RRep (Suc n) r = RSeq r (RRep n r)"

section \<open>The executable matcher\<close>

fun nullable :: "rx \<Rightarrow> bool" where
  "nullable RNone = False"
| "nullable REps = True"
| "nullable (RSet P) = False"
| "nullable (RSeq r q) = (nullable r \<and> nullable q)"
| "nullable (RAlt r q) = (nullable r \<or> nullable q)"
| "nullable (RStar r) = True"

text \<open>Constructors that drop what cannot match, so that derivatives stay small.\<close>

fun mk_seq :: "rx \<Rightarrow> rx \<Rightarrow> rx" where
  "mk_seq RNone q = RNone"
| "mk_seq REps q = q"
| "mk_seq r q = RSeq r q"

fun mk_alt :: "rx \<Rightarrow> rx \<Rightarrow> rx" where
  "mk_alt RNone q = q"
| "mk_alt r RNone = r"
| "mk_alt r q = RAlt r q"

fun deriv :: "char \<Rightarrow> rx \<Rightarrow> rx" where
  "deriv c RNone = RNone"
| "deriv c REps = RNone"
| "deriv c (RSet P) = (if P c then REps else RNone)"
| "deriv c (RSeq r q) =
     (if nullable r then mk_alt (mk_seq (deriv c r) q) (deriv c q) else mk_seq (deriv c r) q)"
| "deriv c (RAlt r q) = mk_alt (deriv c r) (deriv c q)"
| "deriv c (RStar r) = mk_seq (deriv c r) (RStar r)"

fun rx_match :: "rx \<Rightarrow> string \<Rightarrow> bool" where
  "rx_match r [] = nullable r"
| "rx_match r (c # cs) = rx_match (deriv c r) cs"

text \<open>The longest match at the start of a string (greedy quantifiers), as its length.\<close>

fun rx_longest :: "rx \<Rightarrow> string \<Rightarrow> nat option" where
  "rx_longest r [] = (if nullable r then Some 0 else None)"
| "rx_longest r (c # cs) =
     (case rx_longest (deriv c r) cs of
        Some n \<Rightarrow> Some (Suc n)
      | None \<Rightarrow> if nullable r then Some 0 else None)"

text \<open>\<open>/r/.test(s)\<close> without anchors.\<close>

fun rx_search :: "rx \<Rightarrow> string \<Rightarrow> bool" where
  "rx_search r [] = nullable r"
| "rx_search r (c # cs) = (rx_longest r (c # cs) \<noteq> None \<or> rx_search r cs)"

text \<open>\<open>s.replace(/r/g, rep)\<close> for expressions that do not match the empty string.\<close>

function rx_replace :: "rx \<Rightarrow> string \<Rightarrow> string \<Rightarrow> string" where
  "rx_replace r rep [] = []"
| "rx_replace r rep (c # cs) =
     (case rx_longest r (c # cs) of
        Some (Suc n) \<Rightarrow> rep @ rx_replace r rep (drop n cs)
      | _ \<Rightarrow> c # rx_replace r rep cs)"
  by pat_completeness auto
termination
  by (relation "measure (\<lambda>(r, rep, s). length s)") auto

section \<open>The matcher decides the language\<close>

lemma nullable_iff: "nullable r \<longleftrightarrow> rx_in r []"
proof (induction r)
  case (RStar r)
  then show ?case by (auto intro: rx_in.star_nil)
qed (auto simp: rx_in_simps)

lemma mk_seq_in: "rx_in (mk_seq r q) s \<longleftrightarrow> rx_in (RSeq r q) s"
  by (cases r) (auto simp: rx_in_simps)

lemma mk_alt_in: "rx_in (mk_alt r q) s \<longleftrightarrow> rx_in (RAlt r q) s"
  by (cases r; cases q) (auto simp: rx_in_simps)

lemma rx_star_Cons_split:
  assumes "rx_in (RStar r) (c # s)"
  shows "\<exists>u v. s = u @ v \<and> rx_in r (c # u) \<and> rx_in (RStar r) v"
  using assms
proof (induction "RStar r" "c # s" rule: rx_in.induct)
  case (star_app u v)
  then show ?case by (cases u) auto
qed

lemma deriv_iff: "rx_in (deriv c r) s \<longleftrightarrow> rx_in r (c # s)"
proof (induction r arbitrary: s)
  case (RSeq r q)
  have "rx_in (RSeq r q) (c # s) \<longleftrightarrow>
      (\<exists>u v. s = u @ v \<and> rx_in r (c # u) \<and> rx_in q v) \<or> (rx_in r [] \<and> rx_in q (c # s))"
    by (auto simp: rx_in_simps Cons_eq_append_conv)
  with RSeq show ?case
    by (auto simp: mk_seq_in mk_alt_in rx_in_simps nullable_iff)
next
  case (RStar r)
  have "rx_in (RStar r) (c # s) \<longleftrightarrow> (\<exists>u v. s = u @ v \<and> rx_in r (c # u) \<and> rx_in (RStar r) v)"
    using rx_star_Cons_split rx_in.star_app by fastforce
  with RStar show ?case by (auto simp: mk_seq_in rx_in_simps)
qed (auto simp: mk_alt_in rx_in_simps)

lemma rx_match_iff: "rx_match r s \<longleftrightarrow> rx_in r s"
  by (induction s arbitrary: r) (auto simp: nullable_iff deriv_iff)

lemma all_nat_split: "(\<forall>n::nat. P n) \<longleftrightarrow> P 0 \<and> (\<forall>n. P (Suc n))"
  by (metis not0_implies_Suc)

lemma rx_longest_None: "rx_longest r s = None \<longleftrightarrow> (\<forall>n. \<not> rx_in r (take n s))"
proof (induction s arbitrary: r)
  case Nil
  then show ?case by (auto simp: nullable_iff)
next
  case (Cons c s)
  have "(\<forall>n. \<not> rx_in r (take n (c # s))) \<longleftrightarrow>
      \<not> rx_in r [] \<and> (\<forall>n. \<not> rx_in (deriv c r) (take n s))"
    by (subst all_nat_split) (simp add: deriv_iff)
  moreover have "rx_longest r (c # s) = None \<longleftrightarrow> rx_longest (deriv c r) s = None \<and> \<not> nullable r"
    by (simp split: option.split)
  ultimately show ?case by (auto simp: Cons nullable_iff simp del: rx_longest.simps)
qed

lemma rx_longest_Some:
  "rx_longest r s = Some n \<Longrightarrow>
     n \<le> length s \<and> rx_in r (take n s) \<and> (\<forall>m > n. m \<le> length s \<longrightarrow> \<not> rx_in r (take m s))"
proof (induction s arbitrary: r n)
  case Nil
  then show ?case by (auto simp: nullable_iff split: if_splits)
next
  case (Cons c s)
  show ?case
  proof (cases "rx_longest (deriv c r) s")
    case None
    with Cons.prems have "n = 0" and "rx_in r []" by (auto simp: nullable_iff split: if_splits)
    moreover from None have "\<not> rx_in r (take (Suc m) (c # s))" for m
      by (simp add: rx_longest_None deriv_iff)
    then have "\<not> rx_in r (take m (c # s))" if "0 < m" for m
      using that by (cases m) auto
    ultimately show ?thesis by simp
  next
    case (Some k)
    with Cons.prems have n: "n = Suc k" by simp
    from Cons.IH [OF Some] have "k \<le> length s" and "rx_in r (c # take k s)"
      and max: "\<And>m. k < m \<Longrightarrow> m \<le> length s \<Longrightarrow> \<not> rx_in r (c # take m s)"
      by (auto simp: deriv_iff)
    moreover have "\<not> rx_in r (take m (c # s))" if "n < m" "m \<le> length (c # s)" for m
      using max [of "m - 1"] that by (cases m) (auto simp: n)
    ultimately show ?thesis by (auto simp: n)
  qed
qed

lemma rx_search_iff: "rx_search r s \<longleftrightarrow> (\<exists>u v w. s = u @ v @ w \<and> rx_in r v)"
proof (induction s)
  case Nil
  then show ?case by (auto simp: nullable_iff)
next
  case (Cons c s)
  have here: "rx_longest r (c # s) \<noteq> None \<longleftrightarrow> (\<exists>v w. c # s = v @ w \<and> rx_in r v)"
    by (metis append_take_drop_id append_eq_conv_conj rx_longest_None)
  have "(\<exists>u v w. c # s = u @ v @ w \<and> rx_in r v) \<longleftrightarrow>
      (\<exists>v w. c # s = v @ w \<and> rx_in r v) \<or> (\<exists>u v w. s = u @ v @ w \<and> rx_in r v)"
    by (metis append_Cons append_Nil Cons_eq_append_conv)
  with Cons here show ?case by simp
qed

section \<open>Languages of the shapes that occur\<close>

lemma rx_in_RChr [rx_simps]: "rx_in (RChr c) s \<longleftrightarrow> s = [c]"
  by (auto simp: RChr_def rx_in_simps)

lemma rx_in_RLit [rx_simps]: "rx_in (RLit l) s \<longleftrightarrow> s = l"
  by (induction l arbitrary: s) (auto simp: rx_simps)

lemma rx_in_RStar_RSet [rx_simps]: "rx_in (RStar (RSet P)) s \<longleftrightarrow> list_all P s"
proof
  show "rx_in (RStar (RSet P)) s \<Longrightarrow> list_all P s"
    by (induction "RStar (RSet P)" s rule: rx_in.induct) (auto simp: rx_in_simps)
  show "list_all P s \<Longrightarrow> rx_in (RStar (RSet P)) s"
  proof (induction s)
    case Nil
    show ?case by (rule rx_in.star_nil)
  next
    case (Cons c s)
    then have "rx_in (RStar (RSet P)) ([c] @ s)"
      by (intro rx_in.star_app) (auto simp: rx_in_simps)
    then show ?case by simp
  qed
qed

lemma rx_in_RSeq_RSet:
  "rx_in (RSeq (RSet P) q) s \<longleftrightarrow> (\<exists>c t. s = c # t \<and> P c \<and> rx_in q t)"
  by (subst rx_in_simps(4)) (auto simp: rx_in_simps(3), metis append_Cons append_Nil)

lemma rx_in_RPlus_RSet [rx_simps]: "rx_in (RPlus (RSet P)) s \<longleftrightarrow> s \<noteq> [] \<and> list_all P s"
  by (cases s) (auto simp: RPlus_def rx_in_RSeq_RSet rx_in_RStar_RSet)

lemma rx_in_ROpt [rx_simps]: "rx_in (ROpt r) s \<longleftrightarrow> s = [] \<or> rx_in r s"
  by (auto simp: ROpt_def rx_in_simps)

lemma rx_in_RSeq_RLit: "rx_in (RSeq (RLit l) q) s \<longleftrightarrow> (\<exists>t. s = l @ t \<and> rx_in q t)"
  by (subst rx_in_simps(4)) (auto simp: rx_in_RLit)

lemma rx_in_RSeq_ROpt:
  "rx_in (RSeq (ROpt r) q) s \<longleftrightarrow> rx_in q s \<or> (\<exists>u v. s = u @ v \<and> rx_in r u \<and> rx_in q v)"
  by (subst rx_in_simps(4)) (auto simp: rx_in_ROpt)

lemma rx_in_RLit_ci [rx_simps]: "rx_in (RLit_ci l) s \<longleftrightarrow> js_lower s = js_lower l"
  by (induction l arbitrary: s) (auto simp: rx_in_simps(2) rx_in_RSeq_RSet js_lower_def)

lemma rx_in_RRep_RSet [rx_simps]: "rx_in (RRep n (RSet P)) s \<longleftrightarrow> length s = n \<and> list_all P s"
proof (induction n arbitrary: s)
  case 0
  show ?case by (auto simp: rx_in_simps)
next
  case (Suc n)
  then show ?case by (cases s) (auto simp: rx_in_RSeq_RSet)
qed

lemma rx_replace_no_match:
  assumes "\<And>u v w. s = u @ v @ w \<Longrightarrow> v \<noteq> [] \<Longrightarrow> \<not> rx_in r v"
  shows "rx_replace r rep s = s"
  using assms
proof (induction r rep s rule: rx_replace.induct)
  case (2 r rep c cs)
  have "\<not> rx_in r (take (Suc n) (c # cs))" for n
    using "2.prems" [of "[]" "take (Suc n) (c # cs)" "drop (Suc n) (c # cs)"] by simp
  then have long: "rx_longest r (c # cs) = None \<or> rx_longest r (c # cs) = Some 0"
    by (metis rx_longest_Some not0_implies_Suc option.exhaust)
  have "\<not> rx_in r v" if "cs = u @ v @ w" "v \<noteq> []" for u v w
    using "2.prems" [of "c # u" v w] that by simp
  then have "rx_longest r (c # cs) = None \<Longrightarrow> rx_replace r rep cs = cs"
    and "rx_longest r (c # cs) = Some 0 \<Longrightarrow> rx_replace r rep cs = cs"
    using "2.IH" by blast+
  with long show ?case by (auto simp del: rx_longest.simps)
qed simp

text \<open>A greedy run of one class, matched or replaced globally.\<close>

lemma rx_longest_RNone [simp]: "rx_longest RNone s = None"
  by (induction s) auto

lemma rx_longest_RStar_RSet: "rx_longest (RStar (RSet P)) s = Some (length (takeWhile P s))"
  by (induction s) auto

lemma rx_longest_RPlus_RSet:
  "rx_longest (RPlus (RSet P)) s =
     (case s of [] \<Rightarrow> None
      | c # cs \<Rightarrow> if P c then Some (Suc (length (takeWhile P cs))) else None)"
  by (cases s) (auto simp: RPlus_def rx_longest_RStar_RSet)

lemma rx_replace_RPlus_RSet:
  "rx_replace (RPlus (RSet P)) rep (c # cs) =
     (if P c then rep @ rx_replace (RPlus (RSet P)) rep (dropWhile P cs)
      else c # rx_replace (RPlus (RSet P)) rep cs)"
  by (simp add: rx_longest_RPlus_RSet dropWhile_eq_drop del: rx_longest.simps)

lemma rx_replace_RPlus_RSet_chars:
  "set (rx_replace (RPlus (RSet P)) rep s) \<subseteq> {c \<in> set s. \<not> P c} \<union> set rep"
proof (induction s rule: length_induct)
  case (1 s)
  show ?case
  proof (cases s)
    case (Cons c cs)
    have "length (dropWhile P cs) < length s" and "length cs < length s"
      using length_dropWhile_le [of P cs] by (auto simp: Cons)
    with 1 have "set (rx_replace (RPlus (RSet P)) rep (dropWhile P cs)) \<subseteq> {c \<in> set (dropWhile P cs). \<not> P c} \<union> set rep"
      and "set (rx_replace (RPlus (RSet P)) rep cs) \<subseteq> {c \<in> set cs. \<not> P c} \<union> set rep"
      by blast+
    then show ?thesis
      by (auto simp: Cons rx_replace_RPlus_RSet dest: set_dropWhileD simp del: rx_replace.simps)
  qed simp
qed

end
