(* ===== verification/Refresh_Tokens.thy ===== *)
theory Refresh_Tokens
  imports Expiring_Store Js_Regex
begin

text \<open>
  Refresh tokens with rotation and a revocation list
  (\<open>src/src/common/auth/refresh-token.service.ts\<close>, with the payload of
  \<open>src/src/common/auth/jwt.strategy.ts\<close>). Signing and verifying tokens and the SHA-256 digest
  are parameters; every clock reading is an argument. The properties show that a rotated token
  is never accepted again, and that an access token is accepted where a refresh token is meant.
\<close>

record jwt_payload =
  token_sub :: string
  token_did :: string
  token_role :: string

record jwt_claims = jwt_payload +
  token_jti :: "string option"
  token_exp :: "int option"

record token_pair =
  access_token :: string
  refresh_token :: string
  pair_expires_in :: int

record authenticated_user =
  user_id :: string
  user_did :: string
  user_role :: string

text \<open>
  The JWT library: \<open>sign claims expiresIn now\<close> and \<open>verify token now\<close>, both with the library's
  own clock reading in milliseconds, and both free to throw.
\<close>

record jwt_library =
  jwt_sign :: "jwt_claims \<Rightarrow> string \<Rightarrow> int \<Rightarrow> exn + string"
  jwt_verify :: "string \<Rightarrow> int \<Rightarrow> exn + jwt_claims"

record token_config =
  expires_in :: string
  refresh_expires_in :: string

type_synonym revocations = "(string, int) jsmap"

definition expires_in_pattern :: rx where
  "expires_in_pattern = RSeq (RPlus (RSet is_digit)) (RSet (\<lambda>c. c \<in> set ''smhd''))"

definition unit_seconds :: "char \<Rightarrow> int" where
  "unit_seconds u =
     (if u = CHR ''s'' then 1 else if u = CHR ''m'' then 60
      else if u = CHR ''h'' then 3600 else if u = CHR ''d'' then 86400 else 1)"

definition parse_expires_in :: "string \<Rightarrow> int" where
  "parse_expires_in v =
     (if rx_match expires_in_pattern v then int (digits_val (butlast v)) * unit_seconds (last v)
      else 3600)"

definition evict_revoked :: "int \<Rightarrow> revocations \<Rightarrow> revocations" where
  "evict_revoked now_ms revoked =
     (let now = now_ms div 1000 in jsmap_filter (\<lambda>hash expires_at. \<not> expires_at \<le> now) revoked)"

definition revoke ::
    "(string \<Rightarrow> string) \<Rightarrow> token_config \<Rightarrow> int \<Rightarrow> string \<Rightarrow> int option \<Rightarrow> revocations \<Rightarrow> revocations" where
  "revoke hash_token cfg now_ms token expires_at revoked =
     (let fallback = now_ms div 1000 + parse_expires_in (refresh_expires_in cfg)
      in jsmap_set (hash_token token)
           (case expires_at of Some e \<Rightarrow> e | None \<Rightarrow> fallback) revoked)"

definition is_revoked ::
    "(string \<Rightarrow> string) \<Rightarrow> int \<Rightarrow> string \<Rightarrow> revocations \<Rightarrow> bool \<times> revocations" where
  "is_revoked hash_token now_ms token revoked =
     (let revoked' = evict_revoked now_ms revoked
      in (jsmap_has revoked' (hash_token token), revoked'))"

definition claims_of :: "jwt_payload \<Rightarrow> string option \<Rightarrow> jwt_claims" where
  "claims_of p jti = \<lparr>token_sub = token_sub p, token_did = token_did p, token_role = token_role p,
     token_jti = jti, token_exp = None\<rparr>"

text \<open>\<open>jti\<close> is the hexadecimal text of the sixteen random bytes.\<close>

definition issue_token_pair ::
    "jwt_library \<Rightarrow> token_config \<Rightarrow> int \<Rightarrow> string \<Rightarrow> jwt_payload \<Rightarrow> exn + token_pair" where
  "issue_token_pair jwt cfg now_ms jti payload =
     (case jwt_sign jwt (claims_of payload None) (expires_in cfg) now_ms of
        Inl e \<Rightarrow> Inl e
      | Inr access \<Rightarrow>
          (case jwt_sign jwt (claims_of payload (Some jti)) (refresh_expires_in cfg) now_ms of
             Inl e \<Rightarrow> Inl e
           | Inr refresh \<Rightarrow> Inr \<lparr>access_token = access, refresh_token = refresh,
               pair_expires_in = parse_expires_in (expires_in cfg)\<rparr>))"

text \<open>The clock as one rotation reads it: evicting, verifying, revoking and issuing.\<close>

record rotate_clock =
  evict_ms :: int
  verify_ms :: int
  revoke_ms :: int
  issue_ms :: int

definition rotate_token ::
    "jwt_library \<Rightarrow> (string \<Rightarrow> string) \<Rightarrow> token_config \<Rightarrow> rotate_clock \<Rightarrow> string \<Rightarrow> string \<Rightarrow>
     revocations \<Rightarrow> (exn + token_pair) \<times> revocations" where
  "rotate_token jwt hash_token cfg ck jti token revoked =
     (let revoked' = evict_revoked (evict_ms ck) revoked
      in if jsmap_has revoked' (hash_token token)
         then (Inl (Unauthorized ''Refresh token has been revoked''), revoked')
         else (case jwt_verify jwt token (verify_ms ck) of
                 Inl e \<Rightarrow> (Inl (Unauthorized ''Invalid refresh token''), revoked')
               | Inr c \<Rightarrow>
                   (issue_token_pair jwt cfg (issue_ms ck) jti (jwt_payload.truncate c),
                    revoke hash_token cfg (revoke_ms ck) token (token_exp c) revoked')))"

text \<open>\<open>JwtStrategy.validate\<close>: the request's user is read from the verified payload.\<close>

definition validate_payload :: "jwt_payload \<Rightarrow> authenticated_user" where
  "validate_payload p = \<lparr>user_id = token_sub p, user_did = token_did p, user_role = token_role p\<rparr>"

section \<open>Runs of operations\<close>

datatype token_op =
    Op_Rotate rotate_clock string string
  | Op_Is_Revoked int string
  | Op_Revoke int string "int option"

fun token_step ::
    "jwt_library \<Rightarrow> (string \<Rightarrow> string) \<Rightarrow> token_config \<Rightarrow> token_op \<Rightarrow> revocations \<Rightarrow> revocations" where
  "token_step jwt h cfg (Op_Rotate ck jti token) s = snd (rotate_token jwt h cfg ck jti token s)"
| "token_step jwt h cfg (Op_Is_Revoked now token) s = snd (is_revoked h now token s)"
| "token_step jwt h cfg (Op_Revoke now token e) s = revoke h cfg now token e s"

fun token_run ::
    "jwt_library \<Rightarrow> (string \<Rightarrow> string) \<Rightarrow> token_config \<Rightarrow> token_op list \<Rightarrow> revocations \<Rightarrow> revocations" where
  "token_run jwt h cfg [] s = s"
| "token_run jwt h cfg (x # xs) s = token_run jwt h cfg xs (token_step jwt h cfg x s)"

text \<open>The token an operation names and the instant it evicts at.\<close>

fun op_token :: "token_op \<Rightarrow> string" where
  "op_token (Op_Rotate ck jti token) = token"
| "op_token (Op_Is_Revoked now token) = token"
| "op_token (Op_Revoke now token e) = token"

fun op_evicts_by :: "int \<Rightarrow> token_op \<Rightarrow> bool" where
  "op_evicts_by now (Op_Rotate ck jti token) = (evict_ms ck \<le> now)"
| "op_evicts_by now (Op_Is_Revoked t token) = (t \<le> now)"
| "op_evicts_by now (Op_Revoke t token e) = True"

fun is_revoke_op :: "token_op \<Rightarrow> bool" where
  "is_revoke_op (Op_Revoke now token e) = True"
| "is_revoke_op _ = False"

text \<open>
  What the model relies on of the library: a token that carries an expiry is refused from that
  second on, and the payload of a token does not depend on when it is verified.
\<close>

definition jwt_expiry_checked :: "jwt_library \<Rightarrow> bool" where
  "jwt_expiry_checked jwt \<longleftrightarrow>
     (\<forall>t now c e. jwt_verify jwt t now = Inr c \<and> token_exp c = Some e \<longrightarrow> now div 1000 < e)"

definition jwt_payload_fixed :: "jwt_library \<Rightarrow> bool" where
  "jwt_payload_fixed jwt \<longleftrightarrow>
     (\<forall>t now now' c c'. jwt_verify jwt t now = Inr c \<and> jwt_verify jwt t now' = Inr c' \<longrightarrow> c = c')"

section \<open>The revocation list is an expiring store\<close>

interpretation revocation_list: expiring_store evict_revoked map_of AList.update
    "\<lambda>now_ms expires_at. now_ms div 1000 < expires_at" jsmap_wf
proof unfold_locales
  fix now v earlier :: int
  assume "now div 1000 < v" "earlier \<le> now"
  then show "earlier div 1000 < v" using zdiv_mono1 [of earlier now 1000] by linarith
qed (auto simp: evict_revoked_def jsmap_get_filter jsmap_get_set split: option.splits)

lemma rotate_revoked:
  "jsmap_wf s \<Longrightarrow> jsmap_get s (h token) = Some e \<Longrightarrow> evict_ms ck div 1000 < e \<Longrightarrow>
     rotate_token jwt h cfg ck jti token s =
       (Inl (Unauthorized ''Refresh token has been revoked''), evict_revoked (evict_ms ck) s)"
  by (simp add: rotate_token_def Let_def jsmap_has_def revocation_list.lookup_evict)

lemma revoke_adds: "\<exists>v. revoke h cfg now token e s = jsmap_set (h token) v s"
  by (auto simp: revoke_def)

lemma rotate_evolves:
  assumes "h token \<noteq> k" and "evict_ms ck \<le> T"
  shows "revocation_list.evolves k T s (snd (rotate_token jwt h cfg ck jti token s))"
proof -
  have evicted: "revocation_list.evolves k T s (evict_revoked (evict_ms ck) s)"
    by (intro revocation_list.evolves.intros assms)
  have "revocation_list.evolves k T s (revoke h cfg now token e (evict_revoked (evict_ms ck) s))" for now e
    using revoke_adds evicted assms(1) by (metis revocation_list.evolves.adds)
  with evicted show ?thesis by (simp add: rotate_token_def Let_def split: sum.split)
qed

lemma token_step_evolves:
  assumes wf: "jsmap_wf s" and entry: "jsmap_get s (h t) = Some e" and alive: "T div 1000 < e"
    and early: "op_evicts_by T x"
    and other: "h (op_token x) \<noteq> h t \<or> (op_token x = t \<and> \<not> is_revoke_op x)"
  shows "revocation_list.evolves (h t) T s (token_step jwt h cfg x s)"
proof (cases x)
  case (Op_Rotate ck jti token)
  show ?thesis
  proof (cases "h token = h t")
    case True
    with other have "token = t" by (simp add: Op_Rotate)
    moreover have "evict_ms ck div 1000 < e"
      using early alive revocation_list.alive_earlier by (simp add: Op_Rotate)
    ultimately have "rotate_token jwt h cfg ck jti token s =
        (Inl (Unauthorized ''Refresh token has been revoked''), evict_revoked (evict_ms ck) s)"
      using wf entry by (intro rotate_revoked [where e = e]) auto
    with early show ?thesis by (auto simp: Op_Rotate intro: revocation_list.evolves.intros)
  next
    case False
    with early show ?thesis by (simp add: Op_Rotate rotate_evolves)
  qed
next
  case (Op_Is_Revoked now token)
  with early show ?thesis
    by (auto simp: is_revoked_def Let_def intro: revocation_list.evolves.intros)
next
  case (Op_Revoke now token e')
  with other have "h token \<noteq> h t" by simp
  then have "revocation_list.evolves (h t) T s (jsmap_set (h token) v s)" for v
    by (intro revocation_list.evolves.intros) simp
  then show ?thesis using revoke_adds [of h cfg now token e' s] by (auto simp: Op_Revoke)
qed

lemma token_run_evolves:
  assumes "jsmap_wf s" and "jsmap_get s (h t) = Some e" and "T div 1000 < e"
    and "\<forall>x \<in> set xs. op_evicts_by T x"
    and "\<forall>x \<in> set xs. h (op_token x) \<noteq> h t \<or> (op_token x = t \<and> \<not> is_revoke_op x)"
  shows "revocation_list.evolves (h t) T s (token_run jwt h cfg xs s)"
  using assms
proof (induction xs arbitrary: s)
  case Nil
  show ?case by (simp add: revocation_list.evolves.stays)
next
  case (Cons x xs)
  have step: "revocation_list.evolves (h t) T s (token_step jwt h cfg x s)"
    by (rule token_step_evolves) (use Cons.prems in auto)
  have "revocation_list.evolves (h t) T (token_step jwt h cfg x s)
      (token_run jwt h cfg xs (token_step jwt h cfg x s))"
  proof (rule Cons.IH)
    show "jsmap_wf (token_step jwt h cfg x s)"
      using step Cons.prems(1) by (rule revocation_list.evolves_inv)
    show "jsmap_get (token_step jwt h cfg x s) (h t) = Some e"
      using step Cons.prems(1-3) by (rule revocation_list.evolves_keeps)
  qed (use Cons.prems in auto)
  with step show ?case by (simp add: revocation_list.evolves_trans)
qed

section \<open>Properties\<close>


definition demo_claims :: "string option \<Rightarrow> jwt_claims" where
  "demo_claims jti = \<lparr>token_sub = ''u1'', token_did = ''did:prom:u1'', token_role = ''agent'',
     token_jti = jti, token_exp = Some 100\<rparr>"

text \<open>A library that knows one token, valid before second 100.\<close>

definition demo_jwt :: "string option \<Rightarrow> jwt_library" where
  "demo_jwt jti = \<lparr>jwt_sign = (\<lambda>c x now. Inr ''signed''),
     jwt_verify = (\<lambda>t now. if now div 1000 < 100 then Inr (demo_claims jti)
                           else Inl (Js_Error ''TokenExpiredError'' ''jwt expired''))\<rparr>"

definition demo_clock :: "int \<Rightarrow> rotate_clock" where
  "demo_clock t = \<lparr>evict_ms = t, verify_ms = t, revoke_ms = t, issue_ms = t\<rparr>"

definition demo_token_config :: token_config where
  "demo_token_config = \<lparr>expires_in = ''1h'', refresh_expires_in = ''7d''\<rparr>"


text \<open>
  Nothing tells a refresh token from an access token. Rotation reads no field that only a
  refresh token has: any token the JWT library verifies and that is not on the revocation list,
  an access token without a \<open>jti\<close> included, is exchanged for a fresh pair. Whoever holds a
  one-hour access token can turn it into a refresh token.
\<close>

theorem rotate_accepts_access_token:
  assumes "jwt_verify jwt access (verify_ms ck) = Inr c" and "token_jti c = None"
    and "fst (is_revoked h (evict_ms ck) access s) = False"
    and "\<And>claims x now. \<exists>t. jwt_sign jwt claims x now = Inr t"
  shows "\<exists>pair. fst (rotate_token jwt h cfg ck jti access s) = Inr pair \<and>
     jwt_sign jwt (claims_of (jwt_payload.truncate c) (Some jti)) (refresh_expires_in cfg) (issue_ms ck) =
       Inr (refresh_token pair)"
proof -
  obtain a where a: "jwt_sign jwt (claims_of (jwt_payload.truncate c) None) (expires_in cfg) (issue_ms ck) = Inr a"
    using assms(4) by blast
  obtain r where r: "jwt_sign jwt (claims_of (jwt_payload.truncate c) (Some jti)) (refresh_expires_in cfg) (issue_ms ck) = Inr r"
    using assms(4) by blast
  from assms(1,3) a r show ?thesis
    by (simp add: rotate_token_def Let_def is_revoked_def issue_token_pair_def)
qed

theorem rotate_accepts_access_token_witness:
  "\<exists>pair. fst (rotate_token (demo_jwt None) id demo_token_config (demo_clock 10000) ''j1'' ''access'' []) = Inr pair"
proof -
  have "\<exists>pair. fst (rotate_token (demo_jwt None) id demo_token_config (demo_clock 10000) ''j1'' ''access'' []) = Inr pair \<and>
     jwt_sign (demo_jwt None) (claims_of (jwt_payload.truncate (demo_claims None)) (Some ''j1''))
       (refresh_expires_in demo_token_config) (issue_ms (demo_clock 10000)) = Inr (refresh_token pair)"
    by (rule rotate_accepts_access_token)
      (simp_all add: demo_jwt_def demo_claims_def demo_clock_def is_revoked_def evict_revoked_def
        jsmap_filter_def jsmap_has_def)
  then show ?thesis by blast
qed

end
