(* ===== verification/Http.thy ===== *)
theory Http
  imports Js_String
begin

text \<open>
  Request headers as Node presents them: a header that occurs once is a string, one that may
  repeat an array of strings. Header names are in lower case.
\<close>

datatype header_value = One string | Many "string list"

type_synonym headers = "(string \<times> header_value) list"

text \<open>\<open>Array.isArray(h) ? h[0] : h\<close>, used wherever a single value is wanted.\<close>

definition first_header :: "headers \<Rightarrow> string \<Rightarrow> string option" where
  "first_header hs name =
     (case map_of hs name of
        None \<Rightarrow> None
      | Some (One v) \<Rightarrow> Some v
      | Some (Many vs) \<Rightarrow> (case vs of [] \<Rightarrow> None | v # _ \<Rightarrow> Some v))"

text \<open>The header as a condition: absent and empty are false, every array is true.\<close>

definition header_truthy :: "headers \<Rightarrow> string \<Rightarrow> bool" where
  "header_truthy hs name =
     (case map_of hs name of None \<Rightarrow> False | Some (One v) \<Rightarrow> v \<noteq> [] | Some (Many vs) \<Rightarrow> True)"

end
