(* ===== verification/Guards.thy ===== *)
theory Guards
  imports Api_Keys Refresh_Tokens Http
begin

text \<open>
  Who may call what: the API-key guard, the JWT guard and the role guard
  (\<open>src/src/common/auth/\<close>) in the order \<open>src/src/app.module.ts\<close> installs them, and the route
  table with the decorators of the controllers. The bearer strategy of the passport library is
  a parameter: it yields the payload of a verified token or throws. The throttling guard, which
  runs before these, belongs to a library and is not part of the model.
\<close>

section \<open>Roles and routes\<close>

datatype role = AGENT | OPERATOR | ADMIN | SERVICE

fun role_text :: "role \<Rightarrow> string" where
  "role_text AGENT = ''agent''"
| "role_text OPERATOR = ''operator''"
| "role_text ADMIN = ''admin''"
| "role_text SERVICE = ''service''"

datatype http_method = GET | POST | PATCH | DELETE

text \<open>A handler with the metadata of its decorators and of its class's.\<close>

record route =
  route_method :: http_method
  route_path :: string
  handler_public :: "bool option"
  class_public :: "bool option"
  handler_roles :: "role list option"
  class_roles :: "role list option"

definition plain_route :: "http_method \<Rightarrow> string \<Rightarrow> route" where
  "plain_route m p = \<lparr>route_method = m, route_path = p, handler_public = None, class_public = None,
     handler_roles = None, class_roles = None\<rparr>"

definition roles_route :: "http_method \<Rightarrow> string \<Rightarrow> role list \<Rightarrow> route" where
  "roles_route m p rs = (plain_route m p)\<lparr>handler_roles := Some rs\<rparr>"

definition public_route :: "http_method \<Rightarrow> string \<Rightarrow> route" where
  "public_route m p = (plain_route m p)\<lparr>handler_public := Some True\<rparr>"

definition identity_routes :: "route list" where
  "identity_routes =
     [roles_route POST ''agents'' [OPERATOR, ADMIN], plain_route GET ''agents'', plain_route GET ''agents/:id'',
      roles_route PATCH ''agents/:id'' [OPERATOR, ADMIN], roles_route DELETE ''agents/:id'' [ADMIN]]"

definition catalog_routes :: "route list" where
  "catalog_routes = [plain_route POST ''services'', plain_route GET ''services'', plain_route GET ''services/:id'']"

definition pricing_routes :: "route list" where
  "pricing_routes = [plain_route POST ''tariffs'', plain_route GET ''tariffs'', plain_route GET ''tariffs/:id'']"

definition metering_routes :: "route list" where
  "metering_routes =
     [plain_route POST ''usage'', plain_route GET ''usage/:sessionId'',
      plain_route POST ''receipts'', plain_route GET ''receipts/:sessionId'']"

definition policy_routes :: "route list" where
  "policy_routes =
     [plain_route POST ''policies'', plain_route GET ''policies'', plain_route GET ''policies/:id'',
      plain_route PATCH ''policies/:id'']"

definition protocol_routes :: "route list" where
  "protocol_routes = [plain_route POST ''a2a/request'']"

definition health_routes :: "route list" where
  "health_routes =
     [public_route GET ''health'', public_route GET ''ready'',
      roles_route GET ''health/detail'' [OPERATOR, ADMIN, SERVICE]]"

definition metrics_routes :: "route list" where
  "metrics_routes = [(plain_route GET ''metrics'')\<lparr>class_public := Some True\<rparr>]"

definition routes :: "route list" where
  "routes = identity_routes @ catalog_routes @ pricing_routes @ metering_routes @ policy_routes @
     protocol_routes @ health_routes @ metrics_routes"

text \<open>\<open>getAllAndOverride\<close>: the handler's metadata, or else the class's.\<close>

definition get_all_and_override :: "'a option \<Rightarrow> 'a option \<Rightarrow> 'a option" where
  "get_all_and_override handler cls = (case handler of Some x \<Rightarrow> Some x | None \<Rightarrow> cls)"

definition route_public :: "route \<Rightarrow> bool" where
  "route_public r \<longleftrightarrow> get_all_and_override (handler_public r) (class_public r) = Some True"

definition required_roles :: "route \<Rightarrow> role list option" where
  "required_roles r = get_all_and_override (handler_roles r) (class_roles r)"

section \<open>Guards\<close>

record http_request =
  req_headers :: headers
  req_user :: "authenticated_user option"
  api_key_auth :: bool

definition service_user :: "string \<Rightarrow> authenticated_user" where
  "service_user label = \<lparr>user_id = ''service:'' @ label, user_did = ''did:prom:service-'' @ label,
     user_role = role_text SERVICE\<rparr>"

record guard_config =
  key_digest :: "string \<Rightarrow> string"
  api_keys :: key_table
  api_key_header :: string
  verify_bearer :: "http_request \<Rightarrow> exn + jwt_payload"

definition presented_key_label :: "guard_config \<Rightarrow> http_request \<Rightarrow> string option" where
  "presented_key_label cfg req =
     verify_api_key (key_digest cfg) (api_keys cfg) (first_header (req_headers req) (api_key_header cfg))"

definition api_key_guard :: "guard_config \<Rightarrow> http_request \<Rightarrow> (exn + bool) \<times> http_request" where
  "api_key_guard cfg req =
     (if \<not> api_keys_enabled (api_keys cfg) then (Inr True, req)
      else (case presented_key_label cfg req of
              None \<Rightarrow> (Inr True, req)
            | Some label \<Rightarrow> (Inr True, req\<lparr>req_user := Some (service_user label), api_key_auth := True\<rparr>)))"

definition jwt_auth_guard :: "guard_config \<Rightarrow> route \<Rightarrow> http_request \<Rightarrow> (exn + bool) \<times> http_request" where
  "jwt_auth_guard cfg r req =
     (if route_public r then (Inr True, req)
      else if api_key_auth req then (Inr True, req)
      else (case verify_bearer cfg req of
              Inl e \<Rightarrow> (Inl e, req)
            | Inr payload \<Rightarrow> (Inr True, req\<lparr>req_user := Some (validate_payload payload)\<rparr>)))"

definition roles_guard :: "route \<Rightarrow> http_request \<Rightarrow> (exn + bool) \<times> http_request" where
  "roles_guard r req =
     (case required_roles r of
        None \<Rightarrow> (Inr True, req)
      | Some required \<Rightarrow>
          if required = [] then (Inr True, req)
          else (case req_user req of
                  None \<Rightarrow> (Inl (Forbidden ''Role is required to access this resource''), req)
                | Some u \<Rightarrow>
                    if user_role u = [] then (Inl (Forbidden ''Role is required to access this resource''), req)
                    else if \<not> list_ex (\<lambda>x. user_role u = role_text x) required
                    then (Inl (Forbidden (''Requires one of roles: '' @ js_join '', '' (map role_text required))), req)
                    else (Inr True, req)))"

text \<open>The framework runs the guards in order and stops at the first that throws or says no.\<close>

fun run_guards :: "(http_request \<Rightarrow> (exn + bool) \<times> http_request) list \<Rightarrow> http_request \<Rightarrow> exn + http_request" where
  "run_guards [] req = Inr req"
| "run_guards (g # gs) req =
     (case g req of
        (Inl e, req') \<Rightarrow> Inl e
      | (Inr ok, req') \<Rightarrow> if ok then run_guards gs req' else Inl (Forbidden ''Forbidden resource''))"

definition app_guards :: "guard_config \<Rightarrow> route \<Rightarrow> http_request \<Rightarrow> exn + http_request" where
  "app_guards cfg r = run_guards [api_key_guard cfg, jwt_auth_guard cfg r, roles_guard r]"

section \<open>What the guards decide\<close>

text \<open>Whom a fresh request acts for: the API key wins over the bearer token.\<close>

definition caller :: "guard_config \<Rightarrow> route \<Rightarrow> http_request \<Rightarrow> authenticated_user option" where
  "caller cfg r req =
     (case presented_key_label cfg req of
        Some label \<Rightarrow> Some (service_user label)
      | None \<Rightarrow> if route_public r then None
                else (case verify_bearer cfg req of Inl e \<Rightarrow> None | Inr p \<Rightarrow> Some (validate_payload p)))"

definition role_ok :: "route \<Rightarrow> authenticated_user option \<Rightarrow> bool" where
  "role_ok r u \<longleftrightarrow>
     (case required_roles r of
        None \<Rightarrow> True
      | Some rs \<Rightarrow> rs = [] \<or> (\<exists>v x. u = Some v \<and> x \<in> set rs \<and> user_role v = role_text x))"

lemma role_text_inj [simp]: "role_text x = role_text y \<longleftrightarrow> x = y"
  by (cases x; cases y) simp_all

lemma role_text_nonempty [simp]: "role_text x \<noteq> []" "[] \<noteq> role_text x"
  by (cases x; simp)+

lemma presented_key_enabled: "presented_key_label cfg req = Some l \<Longrightarrow> api_keys_enabled (api_keys cfg)"
  by (auto simp: presented_key_label_def verify_api_key_def api_keys_enabled_def
      split: option.splits if_splits)

lemma roles_guard_iff:
  "fst (roles_guard r req) = Inr True \<longleftrightarrow> role_ok r (req_user req)"
  by (auto simp: roles_guard_def role_ok_def list_ex_iff split: option.split)

lemma roles_guard_cases:
  "roles_guard r req = (Inr True, req) \<or> (\<exists>m. roles_guard r req = (Inl (Forbidden m), req))"
  by (auto simp: roles_guard_def split: option.split)

lemma api_key_guard_result:
  "api_key_auth req = False \<Longrightarrow> req_user req = None \<Longrightarrow>
     api_key_guard cfg req = (Inr True, (case presented_key_label cfg req of None \<Rightarrow> req
       | Some l \<Rightarrow> req\<lparr>req_user := Some (service_user l), api_key_auth := True\<rparr>))"
  by (auto simp: api_key_guard_def dest: presented_key_enabled split: option.split)

text \<open>The outcome of the three guards on a request nobody has touched.\<close>

lemma app_guards_outcome:
  assumes "req_user req = None" and "api_key_auth req = False"
  shows "(\<exists>req'. app_guards cfg r req = Inr req' \<and> req_user req' = caller cfg r req) \<longleftrightarrow>
     (route_public r \<or> caller cfg r req \<noteq> None) \<and> role_ok r (caller cfg r req)"
    and "(\<exists>e. app_guards cfg r req = Inl e) \<or>
      (\<exists>req'. app_guards cfg r req = Inr req' \<and> req_user req' = caller cfg r req)"
proof -
  have roles: "run_guards [roles_guard r] q = Inr q \<longleftrightarrow> role_ok r (req_user q)"
    and roles_stop: "run_guards [roles_guard r] q = Inr q \<or> (\<exists>e. run_guards [roles_guard r] q = Inl e)" for q
    using roles_guard_cases [of r q] roles_guard_iff [of r q] by auto
  have "(\<exists>e. app_guards cfg r req = Inl e \<and> \<not> ((route_public r \<or> caller cfg r req \<noteq> None) \<and> role_ok r (caller cfg r req))) \<or>
      (\<exists>req'. app_guards cfg r req = Inr req' \<and> req_user req' = caller cfg r req \<and>
        (route_public r \<or> caller cfg r req \<noteq> None) \<and> role_ok r (caller cfg r req))"
  proof (cases "presented_key_label cfg req")
    case (Some l)
    let ?q = "req\<lparr>req_user := Some (service_user l), api_key_auth := True\<rparr>"
    have "app_guards cfg r req = run_guards [roles_guard r] ?q"
      by (simp add: app_guards_def api_key_guard_result assms Some jwt_auth_guard_def)
    then show ?thesis using roles [of ?q] roles_stop [of ?q] by (auto simp: caller_def Some)
  next
    case None
    show ?thesis
    proof (cases "route_public r")
      case True
      then have "app_guards cfg r req = run_guards [roles_guard r] req"
        by (simp add: app_guards_def api_key_guard_result assms None jwt_auth_guard_def)
      then show ?thesis using roles [of req] roles_stop [of req] assms True by (auto simp: caller_def None)
    next
      case False
      show ?thesis
      proof (cases "verify_bearer cfg req")
        case (Inl e)
        then show ?thesis using False assms
          by (simp add: app_guards_def api_key_guard_result None jwt_auth_guard_def caller_def)
      next
        case (Inr p)
        let ?q = "req\<lparr>req_user := Some (validate_payload p)\<rparr>"
        have "app_guards cfg r req = run_guards [roles_guard r] ?q"
          using False assms Inr by (simp add: app_guards_def api_key_guard_result None jwt_auth_guard_def)
        then show ?thesis using roles [of ?q] roles_stop [of ?q] False Inr by (auto simp: caller_def None)
      qed
    qed
  qed
  then show "(\<exists>req'. app_guards cfg r req = Inr req' \<and> req_user req' = caller cfg r req) \<longleftrightarrow>
     (route_public r \<or> caller cfg r req \<noteq> None) \<and> role_ok r (caller cfg r req)"
    and "(\<exists>e. app_guards cfg r req = Inl e) \<or>
      (\<exists>req'. app_guards cfg r req = Inr req' \<and> req_user req' = caller cfg r req)"
    by auto
qed

section \<open>Properties\<close>

text \<open>
  C7: Access control at the edge. A request that reaches a handler either addresses a public
  route or was identified by a configured API key or a verified bearer token, and whenever the
  handler or its class names roles, the caller's role is one of them; the handler then sees
  exactly that caller, the API key taking precedence over the token. Conversely, such requests
  are let through.
\<close>

theorem guarded_request_reaches_handler:
  assumes "req_user req = None" and "api_key_auth req = False"
  shows "case app_guards cfg r req of
      Inl e \<Rightarrow> \<not> ((route_public r \<or> caller cfg r req \<noteq> None) \<and> role_ok r (caller cfg r req))
    | Inr req' \<Rightarrow> (route_public r \<or> caller cfg r req \<noteq> None) \<and> role_ok r (caller cfg r req) \<and>
        req_user req' = caller cfg r req"
  using app_guards_outcome [OF assms, of cfg r] by (auto split: sum.split)

definition demo_request :: "string \<Rightarrow> string \<Rightarrow> http_request" where
  "demo_request name v = \<lparr>req_headers = [(name, One v)], req_user = None, api_key_auth = False\<rparr>"

text \<open>A bearer library that verifies one token, of an agent.\<close>

definition demo_guard_config :: guard_config where
  "demo_guard_config = \<lparr>key_digest = demo_digest, api_keys = [(demo_digest ''k1'', ''rail'')],
     api_key_header = ''x-api-key'',
     verify_bearer = (\<lambda>req. if first_header (req_headers req) ''authorization'' = Some ''Bearer t''
        then Inr \<lparr>token_sub = ''u'', token_did = ''did:prom:u'', token_role = ''agent''\<rparr>
        else Inl (Unauthorized ''Unauthorized''))\<rparr>"

theorem guarded_request_reaches_handler_witness:
  "\<exists>req'. app_guards demo_guard_config (roles_route GET ''health/detail'' [OPERATOR, ADMIN, SERVICE])
       (demo_request ''x-api-key'' ''k1'') = Inr req' \<and> req_user req' = Some (service_user ''rail'')"
proof -
  let ?r = "roles_route GET ''health/detail'' [OPERATOR, ADMIN, SERVICE]"
  let ?q = "demo_request ''x-api-key'' ''k1''"
  have who: "caller demo_guard_config ?r ?q = Some (service_user ''rail'')" by code_simp
  moreover have "role_ok ?r (Some (service_user ''rail''))"
    by (auto simp: role_ok_def required_roles_def get_all_and_override_def roles_route_def plain_route_def
        service_user_def)
  moreover have "req_user ?q = None" "api_key_auth ?q = False" by (simp_all add: demo_request_def)
  ultimately show ?thesis
    using guarded_request_reaches_handler [where req = ?q and cfg = demo_guard_config and r = ?r] by (auto split: sum.splits)
qed

text \<open>The routes whose decorators name roles, as they stand in the table.\<close>

definition agent_closed :: "(http_method \<times> string) list" where
  "agent_closed = [(POST, ''agents''), (PATCH, ''agents/:id''), (DELETE, ''agents/:id''), (GET, ''health/detail'')]"

definition route_name :: "route \<Rightarrow> http_method \<times> string" where
  "route_name r = (route_method r, route_path r)"

definition excludes_agents :: "route \<Rightarrow> bool" where
  "excludes_agents r = (case required_roles r of None \<Rightarrow> False | Some rs \<Rightarrow> rs \<noteq> [] \<and> AGENT \<notin> set rs)"

lemma agent_closed_routes: "list_all (\<lambda>r. excludes_agents r \<longleftrightarrow> route_name r \<in> set agent_closed) routes"
  by code_simp

lemma role_ok_agent:
  "user_role u = role_text AGENT \<Longrightarrow> role_ok r (Some u) \<longleftrightarrow> \<not> excludes_agents r"
  by (auto simp: role_ok_def excludes_agents_def simp del: role_text.simps split: option.split)

text \<open>
  What an autonomous agent may do. A bearer token with the role \<open>agent\<close> opens every route of
  the application except four: registering, changing and deactivating agents, and the detailed
  health report. In particular every such token may create and change policies, publish
  services and tariffs, and write usage records and receipts, since these handlers name no
  roles.
\<close>

theorem agent_reach:
  assumes "r \<in> set routes" and "req_user req = None" and "api_key_auth req = False"
    and "presented_key_label cfg req = None"
    and "verify_bearer cfg req = Inr p" and "token_role p = role_text AGENT"
  shows "(\<exists>req'. app_guards cfg r req = Inr req') \<longleftrightarrow> route_name r \<notin> set agent_closed"
proof -
  have table: "excludes_agents r \<longleftrightarrow> route_name r \<in> set agent_closed"
    using agent_closed_routes assms(1) unfolding list_all_iff by blast
  have "list_all (\<lambda>x. route_public x \<longrightarrow> required_roles x = None) routes" by code_simp
  then have public: "route_public r \<Longrightarrow> required_roles r = None"
    using assms(1) unfolding list_all_iff by blast
  have iff: "(\<exists>req'. app_guards cfg r req = Inr req') \<longleftrightarrow>
      (route_public r \<or> caller cfg r req \<noteq> None) \<and> role_ok r (caller cfg r req)"
    using app_guards_outcome [OF assms(2,3), of cfg r] by auto
  show ?thesis
  proof (cases "route_public r")
    case True
    then have "required_roles r = None" by (rule public)
    then have "\<not> excludes_agents r" and "role_ok r (caller cfg r req)"
      by (simp_all add: excludes_agents_def role_ok_def)
    then show ?thesis using True table by (simp add: iff)
  next
    case False
    then have "caller cfg r req = Some (validate_payload p)" by (simp add: caller_def assms(4,5))
    moreover have "role_ok r (Some (validate_payload p)) \<longleftrightarrow> \<not> excludes_agents r"
      by (rule role_ok_agent) (simp add: validate_payload_def assms(6))
    ultimately show ?thesis using table by (simp add: iff)
  qed
qed

theorem agent_reach_witness:
  "(\<exists>req'. app_guards demo_guard_config (plain_route POST ''policies'') (demo_request ''authorization'' ''Bearer t'') = Inr req') \<and>
   \<not> (\<exists>req'. app_guards demo_guard_config (roles_route DELETE ''agents/:id'' [ADMIN]) (demo_request ''authorization'' ''Bearer t'') = Inr req')"
proof -
  let ?q = "demo_request ''authorization'' ''Bearer t''"
  let ?p = "\<lparr>token_sub = ''u'', token_did = ''did:prom:u'', token_role = ''agent''\<rparr>"
  have reach: "(\<exists>req'. app_guards demo_guard_config r ?q = Inr req') \<longleftrightarrow> route_name r \<notin> set agent_closed"
    if "r \<in> set routes" for r
  proof (rule agent_reach [OF that])
    show "presented_key_label demo_guard_config ?q = None" by code_simp
    show "verify_bearer demo_guard_config ?q = Inr ?p" by (simp add: demo_guard_config_def demo_request_def first_header_def)
  qed (simp_all add: demo_request_def)
  have "plain_route POST ''policies'' \<in> set routes" "roles_route DELETE ''agents/:id'' [ADMIN] \<in> set routes"
    by (simp_all add: routes_def policy_routes_def identity_routes_def)
  then show ?thesis
    by (simp add: reach) (simp add: route_name_def agent_closed_def plain_route_def roles_route_def)
qed

end
