(* ===== verification/Csrf.thy ===== *)
theory Csrf
  imports Http
begin

text \<open>
  Signed double-submit CSRF protection (\<open>src/src/common/middleware/csrf.middleware.ts\<close>). The
  keyed hash and the percent decoding of cookie values are parameters, the clock readings and
  the random nonce arguments. The properties characterise which requests pass and show that
  the token a client is given lets its next request through.
\<close>

record csrf_config =
  csrf_cookie_name :: string
  csrf_header_name :: string
  csrf_api_key_header :: string
  csrf_secret :: string
  csrf_ttl_ms :: int

record csrf_request =
  csrf_method :: string
  csrf_headers :: headers
  parsed_cookies :: "(string \<times> string) list option"

text \<open>The functions of the runtime the middleware calls.\<close>

record csrf_runtime =
  hmac_sha256 :: "string \<Rightarrow> string \<Rightarrow> string"
  decode_uri_component :: "string \<Rightarrow> exn + string"

definition safe_methods :: "string set" where
  "safe_methods = {''GET'', ''HEAD'', ''OPTIONS''}"

text \<open>\<open>equal\<close>: the bytes of both texts, compared in constant time once the lengths agree.\<close>

definition csrf_equal :: "string \<Rightarrow> string \<Rightarrow> bool" where
  "csrf_equal a b =
     (let left = utf8_bytes a; right = utf8_bytes b in length left = length right \<and> left = right)"

definition csrf_sign :: "csrf_runtime \<Rightarrow> csrf_config \<Rightarrow> string \<Rightarrow> string \<Rightarrow> string" where
  "csrf_sign rt cfg nonce issued_at = hmac_sha256 rt (csrf_secret cfg) (nonce @ ''.'' @ issued_at)"

definition csrf_mint :: "csrf_runtime \<Rightarrow> csrf_config \<Rightarrow> string \<Rightarrow> int \<Rightarrow> string" where
  "csrf_mint rt cfg nonce now =
     (let issued_at = int_str now
      in nonce @ ''.'' @ issued_at @ ''.'' @ csrf_sign rt cfg nonce issued_at)"

definition csrf_is_valid :: "csrf_runtime \<Rightarrow> csrf_config \<Rightarrow> int \<Rightarrow> string \<Rightarrow> bool" where
  "csrf_is_valid rt cfg now token =
     (case js_split CHR ''.'' token of
        nonce # issued_at # mac # _ \<Rightarrow>
          if nonce = [] \<or> issued_at = [] \<or> mac = [] then False
          else (case js_parse_int issued_at of
                  None \<Rightarrow> False
                | Some i \<Rightarrow>
                    let age = now - i
                    in if age < 0 \<or> age > csrf_ttl_ms cfg then False
                       else csrf_equal mac (csrf_sign rt cfg nonce issued_at))
      | _ \<Rightarrow> False)"

fun find_cookie :: "csrf_runtime \<Rightarrow> string \<Rightarrow> string list \<Rightarrow> exn + string option" where
  "find_cookie rt name [] = Inr None"
| "find_cookie rt name (part # parts) =
     (case js_split CHR ''='' (js_trim part) of
        [] \<Rightarrow> find_cookie rt name parts
      | key # rest \<Rightarrow>
          if key = name
          then (case decode_uri_component rt (js_join ''='' rest) of Inl e \<Rightarrow> Inl e | Inr v \<Rightarrow> Inr (Some v))
          else find_cookie rt name parts)"

definition read_cookie :: "csrf_runtime \<Rightarrow> csrf_request \<Rightarrow> string \<Rightarrow> exn + string option" where
  "read_cookie rt req name =
     (let parsed = (case parsed_cookies req of None \<Rightarrow> None | Some m \<Rightarrow> map_of m name)
      in if parsed \<noteq> None \<and> parsed \<noteq> Some [] then Inr parsed
         else (case map_of (csrf_headers req) ''cookie'' of
                 None \<Rightarrow> Inr None
               | Some (Many vs) \<Rightarrow> Inl (Js_Error ''TypeError'' ''header.split is not a function'')
               | Some (One header) \<Rightarrow>
                   if header = [] then Inr None else find_cookie rt name (js_split CHR '';'' header)))"

text \<open>The three clock readings of one request.\<close>

record csrf_clock =
  existing_ms :: int
  mint_ms :: int
  presented_ms :: int

text \<open>
  The middleware: what the next handler is called with or what is thrown, and the token set as
  cookie and response header, if any.
\<close>

definition csrf_use ::
    "csrf_runtime \<Rightarrow> csrf_config \<Rightarrow> csrf_clock \<Rightarrow> string \<Rightarrow> csrf_request \<Rightarrow> (exn + unit) \<times> string option" where
  "csrf_use rt cfg ck random req =
     (case read_cookie rt req (csrf_cookie_name cfg) of
        Inl e \<Rightarrow> (Inl e, None)
      | Inr existing \<Rightarrow>
          (let minted = (case existing of
                           None \<Rightarrow> Some (csrf_mint rt cfg random (mint_ms ck))
                         | Some t \<Rightarrow>
                             if t = [] \<or> \<not> csrf_is_valid rt cfg (existing_ms ck) t
                             then Some (csrf_mint rt cfg random (mint_ms ck)) else None)
           in if csrf_method req \<in> safe_methods then (Inr (), minted)
              else if header_truthy (csrf_headers req) ''authorization'' \<or>
                      header_truthy (csrf_headers req) (csrf_api_key_header cfg) then (Inr (), minted)
              else (case (existing, first_header (csrf_headers req) (csrf_header_name cfg)) of
                      (Some cookie_token, Some presented) \<Rightarrow>
                        if cookie_token = [] \<or> presented = [] then (Inl (Forbidden ''CSRF token missing''), minted)
                        else if \<not> csrf_is_valid rt cfg (presented_ms ck) presented \<or>
                                \<not> csrf_equal cookie_token presented
                        then (Inl (Forbidden ''CSRF token invalid''), minted)
                        else (Inr (), minted)
                    | _ \<Rightarrow> (Inl (Forbidden ''CSRF token missing''), minted))))"

text \<open>
  What the model relies on of the runtime: a keyed hash is printed in lower-case hexadecimal,
  and text without a percent sign decodes to itself.
\<close>

definition hmac_hex :: "csrf_runtime \<Rightarrow> bool" where
  "hmac_hex rt \<longleftrightarrow> (\<forall>k m. hmac_sha256 rt k m \<noteq> [] \<and> list_all is_lower_hex (hmac_sha256 rt k m))"

definition decodes_plain :: "csrf_runtime \<Rightarrow> bool" where
  "decodes_plain rt \<longleftrightarrow> (\<forall>s. CHR ''%'' \<notin> set s \<longrightarrow> decode_uri_component rt s = Inr s)"

section \<open>Tokens\<close>

lemma csrf_equal_iff [simp]: "csrf_equal a b \<longleftrightarrow> a = b"
  by (auto simp: csrf_equal_def utf8_bytes_inj)

lemma is_lower_hex_not: "is_lower_hex c \<Longrightarrow> c \<noteq> CHR ''.'' \<and> c \<noteq> CHR '';'' \<and> c \<noteq> CHR ''='' \<and> c \<noteq> CHR ''%'' \<and> \<not> is_space c"
  by (auto simp: is_lower_hex_def is_digit_def is_space_def char_in_def)

lemma is_digit_lower_hex: "is_digit c \<Longrightarrow> is_lower_hex c"
  by (simp add: is_lower_hex_def)

lemma valid_token_nonempty: "csrf_is_valid rt cfg now t \<Longrightarrow> t \<noteq> []"
  by (auto simp: csrf_is_valid_def)

lemma minted_parts:
  assumes "hmac_hex rt" and "nonce \<noteq> []" and "list_all is_lower_hex nonce" and "0 \<le> now"
  shows "js_split CHR ''.'' (csrf_mint rt cfg nonce now) =
    [nonce, nat_str (nat now), csrf_sign rt cfg nonce (nat_str (nat now))]"
proof -
  have "CHR ''.'' \<notin> set nonce" "CHR ''.'' \<notin> set (nat_str (nat now))"
    "CHR ''.'' \<notin> set (csrf_sign rt cfg nonce (nat_str (nat now)))"
    using assms nat_str_digits [of "nat now"] is_lower_hex_not is_digit_not
    unfolding hmac_hex_def csrf_sign_def list_all_iff by metis+
  then show ?thesis using assms(4)
    by (simp add: csrf_mint_def int_str_def Let_def js_split_append js_split_no_sep)
qed

lemma minted_valid_iff:
  assumes "hmac_hex rt" and "nonce \<noteq> []" and "list_all is_lower_hex nonce" and "0 \<le> issued"
  shows "csrf_is_valid rt cfg now (csrf_mint rt cfg nonce issued) \<longleftrightarrow>
    issued \<le> now \<and> now \<le> issued + csrf_ttl_ms cfg"
proof -
  have "csrf_sign rt cfg nonce (nat_str (nat issued)) \<noteq> []"
    using assms(1) by (simp add: csrf_sign_def hmac_hex_def)
  then show ?thesis
    using assms nat_str_digits [of "nat issued"]
    by (auto simp: csrf_is_valid_def minted_parts Let_def)
qed

text \<open>A cookie header with the token alone is read back.\<close>

lemma token_cookie_read:
  assumes "decodes_plain rt" and "name \<noteq> []" and "CHR '';'' \<notin> set name" and "CHR ''='' \<notin> set name"
    and "\<not> is_space (hd name)" and "t \<noteq> []" and "\<not> is_space (last t)"
    and "CHR '';'' \<notin> set t" and "CHR ''='' \<notin> set t" and "CHR ''%'' \<notin> set t"
    and "parsed_cookies req = None"
    and "map_of (csrf_headers req) ''cookie'' = Some (One (name @ ''='' @ t))"
  shows "read_cookie rt req name = Inr (Some t)"
proof -
  have "js_split CHR '';'' (name @ ''='' @ t) = [name @ ''='' @ t]"
    using assms by (intro js_split_no_sep) auto
  moreover have "js_trim (name @ ''='' @ t) = name @ ''='' @ t"
    using assms by (intro js_trim_id) auto
  moreover have "js_split CHR ''='' (name @ ''='' @ t) = [name, t]"
    using assms by (simp add: js_split_append js_split_no_sep)
  moreover have "decode_uri_component rt t = Inr t"
    using assms by (simp add: decodes_plain_def)
  ultimately show ?thesis
    using assms by (simp add: read_cookie_def)
qed

lemma minted_chars:
  assumes "hmac_hex rt" and "list_all is_lower_hex nonce" and "0 \<le> now"
  shows "\<forall>c \<in> set (csrf_mint rt cfg nonce now). is_lower_hex c \<or> c = CHR ''.''"
  using assms nat_str_digits [of "nat now"] is_digit_lower_hex
  unfolding csrf_mint_def int_str_def csrf_sign_def hmac_hex_def list_all_iff Let_def by auto

section \<open>Properties\<close>

text \<open>
  The exact test of a token. A token is valid when it has three non-empty parts separated
  by dots, of which the third is the keyed hash of the first two and the second a time no later
  than now and no more than the time to live ago. What follows a fourth dot-separated part on
  is not looked at.
\<close>

theorem csrf_token_valid_iff:
  "csrf_is_valid rt cfg now token \<longleftrightarrow>
     (\<exists>nonce issued_at rest i. js_split CHR ''.'' token =
          nonce # issued_at # csrf_sign rt cfg nonce issued_at # rest \<and>
        nonce \<noteq> [] \<and> issued_at \<noteq> [] \<and> csrf_sign rt cfg nonce issued_at \<noteq> [] \<and>
        js_parse_int issued_at = Some i \<and> i \<le> now \<and> now \<le> i + csrf_ttl_ms cfg)"
  by (auto simp: csrf_is_valid_def Let_def split: list.splits if_splits option.splits)

text \<open>The double-submit decision.\<close>

lemma csrf_double_submit:
  assumes "csrf_method req \<notin> safe_methods"
    and "\<not> header_truthy (csrf_headers req) ''authorization''"
    and "\<not> header_truthy (csrf_headers req) (csrf_api_key_header cfg)"
  shows "fst (csrf_use rt cfg ck random req) = Inr () \<longleftrightarrow>
     (\<exists>t. read_cookie rt req (csrf_cookie_name cfg) = Inr (Some t) \<and>
        first_header (csrf_headers req) (csrf_header_name cfg) = Some t \<and>
        csrf_is_valid rt cfg (presented_ms ck) t)"
  using assms valid_token_nonempty
  by (auto simp: csrf_use_def Let_def split: sum.split option.split if_splits)

text \<open>
  C15: Double submit. An unsafe request without an authorization header and without an API key
  passes exactly when its cookie can be read and holds a token that the request repeats in the
  header and that is valid when it is checked.
\<close>

theorem csrf_unsafe_request_passes:
  assumes "csrf_method req \<notin> safe_methods"
    and "\<not> header_truthy (csrf_headers req) ''authorization''"
    and "\<not> header_truthy (csrf_headers req) (csrf_api_key_header cfg)"
  shows "fst (csrf_use rt cfg ck random req) = Inr () \<longleftrightarrow>
     (\<exists>t. read_cookie rt req (csrf_cookie_name cfg) = Inr (Some t) \<and>
        first_header (csrf_headers req) (csrf_header_name cfg) = Some t \<and>
        csrf_is_valid rt cfg (presented_ms ck) t)"
  using assms by (rule csrf_double_submit)

definition demo_runtime :: csrf_runtime where
  "demo_runtime = \<lparr>hmac_sha256 = (\<lambda>k m. ''ab12''), decode_uri_component = Inr\<rparr>"

definition demo_csrf :: csrf_config where
  "demo_csrf = \<lparr>csrf_cookie_name = ''a2a.csrf'', csrf_header_name = ''x-csrf-token'',
     csrf_api_key_header = ''x-api-key'', csrf_secret = ''s'', csrf_ttl_ms = 3600000\<rparr>"

definition demo_csrf_clock :: "int \<Rightarrow> csrf_clock" where
  "demo_csrf_clock t = \<lparr>existing_ms = t, mint_ms = t, presented_ms = t\<rparr>"

theorem csrf_unsafe_request_passes_witness:
  "fst (csrf_use demo_runtime demo_csrf (demo_csrf_clock 2000) ''r''
     \<lparr>csrf_method = ''POST'', csrf_headers = [(''x-csrf-token'', One ''0f.1000.ab12'')], parsed_cookies = None\<rparr>) \<noteq> Inr ()"
  using csrf_unsafe_request_passes [of "\<lparr>csrf_method = ''POST'',
      csrf_headers = [(''x-csrf-token'', One ''0f.1000.ab12'')], parsed_cookies = None\<rparr>"
      demo_csrf demo_runtime "demo_csrf_clock 2000" "''r''"]
  by (simp add: safe_methods_def header_truthy_def demo_csrf_def read_cookie_def)

text \<open>
  The token a browser is given works. If a request without cookie was answered with a token,
  then an unsafe request that sends the token back as the only cookie and in the header passes
  at every instant up to the time to live after the token was minted, and no new token is set.
\<close>

theorem csrf_minted_token_accepted:
  assumes "hmac_hex rt" and "decodes_plain rt"
    and minted: "csrf_use rt cfg ck random req = (r, Some t)"
    and fresh: "random \<noteq> []" "list_all is_lower_hex random" "0 \<le> mint_ms ck"
    and name: "csrf_cookie_name cfg \<noteq> []" "\<not> is_space (hd (csrf_cookie_name cfg))"
      "CHR '';'' \<notin> set (csrf_cookie_name cfg)" "CHR ''='' \<notin> set (csrf_cookie_name cfg)"
    and cookie: "parsed_cookies req' = None"
      "map_of (csrf_headers req') ''cookie'' = Some (One (csrf_cookie_name cfg @ ''='' @ t))"
    and echoed: "first_header (csrf_headers req') (csrf_header_name cfg) = Some t"
    and times: "mint_ms ck \<le> existing_ms ck'" "existing_ms ck' \<le> presented_ms ck'"
      "presented_ms ck' \<le> mint_ms ck + csrf_ttl_ms cfg"
  shows "csrf_use rt cfg ck' random' req' = (Inr (), None)"
proof -
  have t: "t = csrf_mint rt cfg random (mint_ms ck)"
    using minted by (auto simp: csrf_use_def Let_def split: sum.splits option.splits if_splits)
  have valid: "csrf_is_valid rt cfg now t" if "mint_ms ck \<le> now" "now \<le> presented_ms ck'" for now
    using that times assms(1) fresh by (simp add: t minted_valid_iff)
  have chars: "\<forall>c \<in> set t. is_lower_hex c \<or> c = CHR ''.''"
    using minted_chars assms(1) fresh by (simp add: t)
  have ne: "t \<noteq> []" using fresh by (simp add: t csrf_mint_def Let_def)
  have "read_cookie rt req' (csrf_cookie_name cfg) = Inr (Some t)"
  proof (rule token_cookie_read)
    have "last t \<in> set t" using ne by simp
    with chars have "is_lower_hex (last t) \<or> last t = CHR ''.''" by blast
    then show "\<not> is_space (last t)" using is_lower_hex_not by (auto simp: is_space_def char_in_def)
    show "CHR '';'' \<notin> set t" "CHR ''='' \<notin> set t" "CHR ''%'' \<notin> set t"
      using chars is_lower_hex_not by fastforce+
  qed (use assms ne in auto)
  then show ?thesis
    using ne valid [of "existing_ms ck'"] valid [of "presented_ms ck'"] times echoed
    by (simp add: csrf_use_def Let_def)
qed

theorem csrf_minted_token_accepted_witness:
  "csrf_use demo_runtime demo_csrf (demo_csrf_clock 2000) ''00''
     \<lparr>csrf_method = ''POST'', csrf_headers = [(''cookie'', One ''a2a.csrf=0f.1000.ab12''),
        (''x-csrf-token'', One ''0f.1000.ab12'')], parsed_cookies = None\<rparr> = (Inr (), None)"
proof (rule csrf_minted_token_accepted)
  show "csrf_use demo_runtime demo_csrf (demo_csrf_clock 1000) ''0f''
      \<lparr>csrf_method = ''GET'', csrf_headers = [], parsed_cookies = None\<rparr> = (Inr (), Some ''0f.1000.ab12'')"
    by code_simp
  show "hmac_hex demo_runtime"
    by (auto simp: hmac_hex_def demo_runtime_def is_lower_hex_def is_digit_def char_in_def)
  show "decodes_plain demo_runtime" by (simp add: decodes_plain_def demo_runtime_def)
qed (auto simp: demo_csrf_def demo_csrf_clock_def is_lower_hex_def is_digit_def is_space_def char_in_def first_header_def)

end
