(* ===== verification/Filters.thy ===== *)
theory Filters
  imports Http
begin

text \<open>
  What a client sees of a failure, and what the logs say of it: the two exception filters
  (\<open>src/src/common/filters/\<close>) as \<open>src/src/main.ts\<close> installs them, and the statuses the audit and
  logging interceptors and the controller metrics record for a failed handler. The HTTP
  exception classes belong to the framework; what their methods return is a parameter.
\<close>

section \<open>Exceptions as the framework presents them\<close>

datatype message = Text string | Texts "string list"

text \<open>The response of an \<open>HttpException\<close>: a text, or an object of which two members are read.\<close>

datatype http_response = Response_Text string | Response_Object "message option" "string option"

record http_exception =
  get_status :: nat
  get_response :: http_response
  http_name :: string
  http_message :: string

text \<open>
  \<open>http_view\<close> is \<open>Some\<close> for the instances of \<open>HttpException\<close>, and \<open>status_property\<close> the member
  \<open>status\<close> of a thrown value, if it has one.
\<close>

record nest =
  http_view :: "exn \<Rightarrow> http_exception option"
  status_property :: "exn \<Rightarrow> nat option"

text \<open>\<open>exception instanceof Error\<close>, and its name.\<close>

fun exn_name :: "exn \<Rightarrow> string option" where
  "exn_name (Bad_Request m) = Some ''BadRequestException''"
| "exn_name (Unauthorized m) = Some ''UnauthorizedException''"
| "exn_name (Forbidden m) = Some ''ForbiddenException''"
| "exn_name (Not_Found m) = Some ''NotFoundException''"
| "exn_name (Conflict m) = Some ''ConflictException''"
| "exn_name (Entity_Not_Found m) = Some ''EntityNotFoundError''"
| "exn_name (Query_Failed c m k) = Some ''QueryFailedError''"
| "exn_name (Typeorm_Error m) = Some ''TypeORMError''"
| "exn_name (Js_Error n m) = Some n"
| "exn_name (Js_Value v) = None"

section \<open>The database filter\<close>

definition pg_error_map :: "(string \<times> (nat \<times> string)) list" where
  "pg_error_map =
     [(''23505'', 409, ''Duplicate value violates unique constraint''),
      (''23503'', 400, ''Foreign key constraint violated''),
      (''23502'', 400, ''Required field is missing''),
      (''22P02'', 400, ''Invalid input syntax''),
      (''40001'', 409, ''Serialization failure, please retry''),
      (''40P01'', 409, ''Deadlock detected, please retry''),
      (''57014'', 408, ''Query cancelled due to timeout'')]"

record database_body =
  db_status :: nat
  db_message :: string
  db_code :: "string option"
  db_constraint :: "string option"

text \<open>
  The error classes of the \<open>@Catch\<close> decorator. The lookup is by own member: a code of the
  database has five characters, none of which spell a member every object inherits.
\<close>

fun caught_by_database_filter :: "exn \<Rightarrow> bool" where
  "caught_by_database_filter (Entity_Not_Found m) = True"
| "caught_by_database_filter (Query_Failed c m k) = True"
| "caught_by_database_filter (Typeorm_Error m) = True"
| "caught_by_database_filter e = False"

fun mapped_error :: "exn \<Rightarrow> (nat \<times> string) option" where
  "mapped_error (Query_Failed (Some c) m k) = (if c = [] then None else map_of pg_error_map c)"
| "mapped_error e = None"

definition plain_database_body :: "nat \<Rightarrow> string \<Rightarrow> database_body" where
  "plain_database_body st m = \<lparr>db_status = st, db_message = m, db_code = None, db_constraint = None\<rparr>"

fun database_error_catch :: "exn \<Rightarrow> database_body" where
  "database_error_catch (Entity_Not_Found m) = plain_database_body 404 ''Resource not found''"
| "database_error_catch (Query_Failed c m k) =
     (case mapped_error (Query_Failed c m k) of
        Some (st, text) \<Rightarrow> \<lparr>db_status = st, db_message = text, db_code = c, db_constraint = k\<rparr>
      | None \<Rightarrow> plain_database_body 500 ''Database error'')"
| "database_error_catch e = plain_database_body 500 ''Database error''"

text \<open>What the filter logs: a level and a line.\<close>

datatype log_level = Warn_Level | Error_Level

fun database_error_log :: "exn \<Rightarrow> (log_level \<times> string) option" where
  "database_error_log (Entity_Not_Found m) = None"
| "database_error_log (Query_Failed c m k) =
     (let code = (case c of None \<Rightarrow> ''undefined'' | Some x \<Rightarrow> x)
      in case mapped_error (Query_Failed c m k) of
           Some (st, text) \<Rightarrow> Some (Warn_Level, ''DB error '' @ code @ '': '' @ text)
         | None \<Rightarrow> Some (Error_Level, ''Unmapped DB error: '' @ code @ '' '' @ m))"
| "database_error_log e = Some (Error_Level, ''TypeORM error: '' @ exn_message e)"

section \<open>The filter for everything else\<close>

record failed_request =
  failed_method :: string
  failed_url :: string
  failed_headers :: headers
  failed_request_id :: "string option"

record error_body =
  body_status :: nat
  body_error :: string
  body_message :: message
  body_path :: string
  body_timestamp :: string
  body_request_id :: "header_value option"

definition message_or :: "message option \<Rightarrow> string \<Rightarrow> message" where
  "message_or m d = (case m of None \<Rightarrow> Text d | Some (Text t) \<Rightarrow> if t = [] then Text d else Text t | Some (Texts ts) \<Rightarrow> Texts ts)"

definition text_or :: "string option \<Rightarrow> string \<Rightarrow> string" where
  "text_or t d = (case t of None \<Rightarrow> d | Some x \<Rightarrow> if x = [] then d else x)"

text \<open>Status, error and message before the environment is looked at.\<close>

definition described :: "nest \<Rightarrow> exn \<Rightarrow> nat \<times> string \<times> message" where
  "described n e =
     (case http_view n e of
        Some h \<Rightarrow>
          (case get_response h of
             Response_Object m err \<Rightarrow> (get_status h, text_or err (http_name h), message_or m (http_message h))
           | Response_Text t \<Rightarrow> (get_status h, ''Internal Server Error'', Text t))
      | None \<Rightarrow>
          (case exn_name e of
             Some name \<Rightarrow> (500, name, Text (exn_message e))
           | None \<Rightarrow> (500, ''Internal Server Error'', Text ''Internal server error'')))"

definition failed_id :: "failed_request \<Rightarrow> header_value option" where
  "failed_id req =
     (case failed_request_id req of Some i \<Rightarrow> Some (One i) | None \<Rightarrow> map_of (failed_headers req) ''x-request-id'')"

definition id_given :: "header_value option \<Rightarrow> bool" where
  "id_given i \<longleftrightarrow> i \<noteq> None \<and> i \<noteq> Some (One [])"

text \<open>\<open>production\<close> is \<open>NODE_ENV\<close> compared with its value in production.\<close>

definition all_exceptions_catch ::
    "nest \<Rightarrow> bool \<Rightarrow> string \<Rightarrow> failed_request \<Rightarrow> exn \<Rightarrow> error_body" where
  "all_exceptions_catch n production timestamp req e =
     (case described n e of (st, err, m) \<Rightarrow>
        \<lparr>body_status = st, body_error = err,
         body_message = (if 500 \<le> st \<and> production then Text ''Internal server error'' else m),
         body_path = failed_url req, body_timestamp = timestamp,
         body_request_id = (if id_given (failed_id req) then failed_id req else None)\<rparr>)"

definition header_text :: "header_value \<Rightarrow> string" where
  "header_text h = (case h of One v \<Rightarrow> v | Many vs \<Rightarrow> js_join '','' vs)"

definition all_exceptions_log :: "nest \<Rightarrow> failed_request \<Rightarrow> exn \<Rightarrow> string option" where
  "all_exceptions_log n req e =
     (case described n e of (st, err, m) \<Rightarrow>
        if 500 \<le> st
        then Some (''['' @ (case failed_id req of None \<Rightarrow> ''-'' | Some i \<Rightarrow> header_text i) @ ''] '' @
               failed_method req @ '' '' @ failed_url req @ '' '' @ nat_str st)
        else None)"

section \<open>Both filters\<close>

datatype reply = Database_Reply database_body | General_Reply error_body

text \<open>
  The framework tries the installed filters from the last to the first and uses the first whose
  decorator names the error's class; one without classes catches everything.
\<close>

datatype exception_filter = All_Exceptions_Filter | Database_Error_Filter

definition global_filters :: "exception_filter list" where
  "global_filters = [All_Exceptions_Filter, Database_Error_Filter]"

fun filter_catches :: "exception_filter \<Rightarrow> exn \<Rightarrow> bool" where
  "filter_catches All_Exceptions_Filter e = True"
| "filter_catches Database_Error_Filter e = caught_by_database_filter e"

fun filter_reply ::
    "nest \<Rightarrow> bool \<Rightarrow> string \<Rightarrow> failed_request \<Rightarrow> exn \<Rightarrow> exception_filter \<Rightarrow> reply" where
  "filter_reply n p t req e All_Exceptions_Filter = General_Reply (all_exceptions_catch n p t req e)"
| "filter_reply n p t req e Database_Error_Filter = Database_Reply (database_error_catch e)"

definition reply_to :: "nest \<Rightarrow> bool \<Rightarrow> string \<Rightarrow> failed_request \<Rightarrow> exn \<Rightarrow> reply option" where
  "reply_to n p t req e =
     map_option (filter_reply n p t req e) (find (\<lambda>f. filter_catches f e) (rev global_filters))"

fun reply_status :: "reply \<Rightarrow> nat" where
  "reply_status (Database_Reply b) = db_status b"
| "reply_status (General_Reply b) = body_status b"

section \<open>Recorded statuses\<close>

text \<open>The audit interceptor's \<open>error?.status ?? 500\<close>.\<close>

definition audit_status :: "nest \<Rightarrow> exn \<Rightarrow> nat" where
  "audit_status n e = (case status_property n e of None \<Rightarrow> 500 | Some s \<Rightarrow> s)"

text \<open>The logging interceptor's \<open>err.status || 500\<close>.\<close>

definition logging_status :: "nest \<Rightarrow> exn \<Rightarrow> nat" where
  "logging_status n e = (case status_property n e of None \<Rightarrow> 500 | Some s \<Rightarrow> if s = 0 then 500 else s)"

text \<open>The controller metrics' \<open>statusOf\<close>; only HTTP exceptions have a method \<open>getStatus\<close>.\<close>

definition exception_status :: "nest \<Rightarrow> exn \<Rightarrow> nat" where
  "exception_status n e =
     (case http_view n e of
        Some h \<Rightarrow> get_status h
      | None \<Rightarrow> (case status_property n e of Some s \<Rightarrow> s | None \<Rightarrow> 500))"

section \<open>The framework's exception classes\<close>

definition http_class :: "nat \<Rightarrow> string \<Rightarrow> string \<Rightarrow> string \<Rightarrow> http_exception" where
  "http_class st reason name m =
     \<lparr>get_status = st, get_response = Response_Object (Some (Text m)) (Some reason), http_name = name, http_message = m\<rparr>"

text \<open>
  The documented behaviour of the framework's classes when constructed with a message: the
  status, a response object with the message and the reason phrase, and the member \<open>status\<close>.
  Database errors are no HTTP exceptions and have no such member.
\<close>

definition nest_classes :: "nest \<Rightarrow> bool" where
  "nest_classes n \<longleftrightarrow>
     (\<forall>m. http_view n (Bad_Request m) = Some (http_class 400 ''Bad Request'' ''BadRequestException'' m)) \<and>
     (\<forall>m. http_view n (Unauthorized m) = Some (http_class 401 ''Unauthorized'' ''UnauthorizedException'' m)) \<and>
     (\<forall>m. http_view n (Forbidden m) = Some (http_class 403 ''Forbidden'' ''ForbiddenException'' m)) \<and>
     (\<forall>m. http_view n (Not_Found m) = Some (http_class 404 ''Not Found'' ''NotFoundException'' m)) \<and>
     (\<forall>m. http_view n (Conflict m) = Some (http_class 409 ''Conflict'' ''ConflictException'' m)) \<and>
     (\<forall>m. http_view n (Entity_Not_Found m) = None) \<and>
     (\<forall>c m k. http_view n (Query_Failed c m k) = None) \<and>
     (\<forall>m. http_view n (Typeorm_Error m) = None) \<and>
     (\<forall>x m. http_view n (Js_Error x m) = None) \<and>
     (\<forall>v. http_view n (Js_Value v) = None) \<and>
     (\<forall>e. status_property n e = map_option get_status (http_view n e))"

definition demo_nest :: nest where
  "demo_nest =
     (let view = (\<lambda>e. case e of
          Bad_Request m \<Rightarrow> Some (http_class 400 ''Bad Request'' ''BadRequestException'' m)
        | Unauthorized m \<Rightarrow> Some (http_class 401 ''Unauthorized'' ''UnauthorizedException'' m)
        | Forbidden m \<Rightarrow> Some (http_class 403 ''Forbidden'' ''ForbiddenException'' m)
        | Not_Found m \<Rightarrow> Some (http_class 404 ''Not Found'' ''NotFoundException'' m)
        | Conflict m \<Rightarrow> Some (http_class 409 ''Conflict'' ''ConflictException'' m)
        | _ \<Rightarrow> None)
      in \<lparr>http_view = view, status_property = (\<lambda>e. map_option get_status (view e))\<rparr>)"

lemma demo_nest_classes: "nest_classes demo_nest"
  by (simp add: nest_classes_def demo_nest_def Let_def)

section \<open>Lemmas\<close>

lemma reply_to_eq:
  "reply_to n p t req e = Some (if caught_by_database_filter e then Database_Reply (database_error_catch e)
     else General_Reply (all_exceptions_catch n p t req e))"
  by (simp add: reply_to_def global_filters_def)

lemma pg_error_status: "map_of pg_error_map c = Some (st, text) \<Longrightarrow> st \<noteq> 500 \<and> 400 \<le> st \<and> st < 500"
  by (auto simp: pg_error_map_def split: if_splits)

lemma mapped_error_status: "mapped_error e = Some (st, text) \<Longrightarrow> st \<noteq> 500 \<and> 400 \<le> st \<and> st < 500"
  by (cases e rule: mapped_error.cases) (auto split: if_splits dest: pg_error_status)

lemma general_status: "body_status (all_exceptions_catch n p t req e) = fst (described n e)"
  by (simp add: all_exceptions_catch_def split: prod.split)

text \<open>A failure the database filter answers with a status of its own.\<close>

definition translated :: "exn \<Rightarrow> bool" where
  "translated e \<longleftrightarrow> (\<exists>m. e = Entity_Not_Found m) \<or> mapped_error e \<noteq> None"

lemma database_status:
  "caught_by_database_filter e \<Longrightarrow> db_status (database_error_catch e) = 500 \<longleftrightarrow> \<not> translated e"
  by (cases e) (auto simp: translated_def plain_database_body_def split: option.splits dest: mapped_error_status)

lemma not_translated: "\<not> caught_by_database_filter e \<Longrightarrow> \<not> translated e"
  by (cases e) (auto simp: translated_def)

lemma database_no_status:
  assumes "nest_classes n" and "caught_by_database_filter e"
  shows "http_view n e = None" and "status_property n e = None"
  using assms by (cases e; simp add: nest_classes_def)+

section \<open>Properties\<close>

text \<open>
  C27: The audit log, the request log and the controller metrics agree with the client about the
  status of a failed request, except on translated database errors: for every thrown value, each
  of the three records the status the filters send exactly if the failure is not an entity that
  was not found or a query error the database filter maps; for those they record 500 although
  the client gets the filter's 4xx.
\<close>

theorem recorded_status_agrees:
  assumes "nest_classes n" and "reply_to n p t req e = Some r"
  shows "(audit_status n e = reply_status r) = (\<not> translated e) \<and>
    (logging_status n e = reply_status r) = (\<not> translated e) \<and>
    (exception_status n e = reply_status r) = (\<not> translated e)"
proof (cases "caught_by_database_filter e")
  case True
  then have "reply_status r = db_status (database_error_catch e)" using assms(2) by (auto simp: reply_to_eq)
  then show ?thesis using database_status [OF True] database_no_status [OF assms(1) True]
    by (auto simp: audit_status_def logging_status_def exception_status_def)
next
  case False
  then have "reply_status r = fst (described n e)" using assms(2) by (auto simp: reply_to_eq general_status)
  moreover have "status_property n e = map_option get_status (http_view n e)" using assms(1) by (simp add: nest_classes_def)
  moreover have "h \<noteq> None \<longrightarrow> get_status (the h) \<noteq> 0" if "h = http_view n e" for h
    using assms(1) that by (cases e) (simp_all add: nest_classes_def http_class_def)
  ultimately show ?thesis using not_translated [OF False]
    by (auto simp: audit_status_def logging_status_def exception_status_def described_def
        split: option.splits http_response.splits)
qed

definition demo_failed :: failed_request where
  "demo_failed = \<lparr>failed_method = ''POST'', failed_url = ''/agents'', failed_headers = [], failed_request_id = Some ''r1''\<rparr>"

theorem recorded_status_agrees_witness:
  "audit_status demo_nest (Query_Failed (Some ''23505'') ''duplicate'' (Some ''agents_did'')) = 500 \<and>
   \<not> (audit_status demo_nest (Query_Failed (Some ''23505'') ''duplicate'' (Some ''agents_did'')) =
      reply_status (the (reply_to demo_nest True ''now'' demo_failed (Query_Failed (Some ''23505'') ''duplicate'' (Some ''agents_did'')))))"
proof -
  let ?e = "Query_Failed (Some ''23505'') ''duplicate'' (Some ''agents_did'')"
  have "reply_to demo_nest True ''now'' demo_failed ?e = Some (Database_Reply (database_error_catch ?e))"
    by (simp add: reply_to_eq)
  from recorded_status_agrees [OF demo_nest_classes this]
  have "audit_status demo_nest ?e \<noteq> reply_status (the (reply_to demo_nest True ''now'' demo_failed ?e))"
    by (simp add: reply_to_eq translated_def pg_error_map_def)
  moreover have "audit_status demo_nest ?e = 500" by (simp add: audit_status_def demo_nest_def Let_def)
  ultimately show ?thesis by blast
qed

text \<open>
  In production an internal error tells the client nothing about itself but its class. The
  reply to a thrown error that is no HTTP exception does not depend on its message, and neither
  does the reply to a database error, mapped or not: of a failed query only the code and the
  constraint of a mapped error are sent.
\<close>

theorem production_reply_hides_messages:
  assumes "nest_classes n"
  shows "reply_to n True t req (Js_Error name m) = reply_to n True t req (Js_Error name m') \<and>
    reply_to n True t req (Query_Failed c m k) = reply_to n True t req (Query_Failed c m' k) \<and>
    reply_to n True t req (Typeorm_Error m) = reply_to n True t req (Typeorm_Error m') \<and>
    reply_to n True t req (Entity_Not_Found m) = reply_to n True t req (Entity_Not_Found m') \<and>
    reply_to n True t req (Js_Value m) = reply_to n True t req (Js_Value m')"
proof -
  have "mapped_error (Query_Failed c m k) = mapped_error (Query_Failed c m' k)" by (cases c) simp_all
  then show ?thesis using assms
    by (simp add: reply_to_eq all_exceptions_catch_def described_def nest_classes_def)
qed

theorem production_reply_hides_messages_witness:
  "reply_to demo_nest True ''now'' demo_failed (Js_Error ''Error'' ''password is hunter2'') =
   reply_to demo_nest True ''now'' demo_failed (Js_Error ''Error'' ''x'')"
  using production_reply_hides_messages [OF demo_nest_classes] by blast

end
