(* ===== verification/Json.thy ===== *)
theory Json
  imports Js_String
begin

text \<open>
  JSON values, the enumeration order of JavaScript objects and \<open>JSON.stringify\<close>
  (\<open>src/src/common/crypto/request-canonicalization.ts\<close> and the pipes work on them). The main
  facts: \<open>stringify\<close> is injective on well-formed values, and what an object built by
  assignments contains is independent of the order of the assignments.
\<close>

section \<open>Values\<close>

text \<open>
  A number is carried as the text JavaScript prints for it, so \<open>0.5\<close> is \<open>''0.5''\<close>. An object
  is the list of its own members in enumeration order.
\<close>

type_synonym js_number = string

datatype json =
    JNull
  | JBool bool
  | JNum js_number
  | JStr string
  | JArr "json list"
  | JObj "(string \<times> json) list"

definition is_number_char :: "char \<Rightarrow> bool" where
  "is_number_char c \<longleftrightarrow> is_digit c \<or> c \<in> {CHR ''-'', CHR ''+'', CHR ''.'', CHR ''e''}"

definition number_wf :: "js_number \<Rightarrow> bool" where
  "number_wf n \<longleftrightarrow> n \<noteq> [] \<and> list_all is_number_char n"

fun json_wf :: "json \<Rightarrow> bool" where
  "json_wf (JNum n) = number_wf n"
| "json_wf (JArr xs) = list_all json_wf xs"
| "json_wf (JObj ps) = (distinct (map fst ps) \<and> list_all (\<lambda>p. json_wf (snd p)) ps)"
| "json_wf _ = True"

section \<open>Building objects by assignment\<close>

text \<open>
  Array indices (\<open>0\<close> to \<open>2\<^sup>3\<^sup>2 - 2\<close> in canonical decimal form) enumerate first, in numeric
  order; the other keys in the order of their creation.
\<close>

definition is_array_index :: "string \<Rightarrow> bool" where
  "is_array_index k \<longleftrightarrow>
     k \<noteq> [] \<and> list_all is_digit k \<and> (hd k \<noteq> CHR ''0'' \<or> k = ''0'') \<and> digits_val k < 4294967295"

definition own_set :: "string \<Rightarrow> 'v \<Rightarrow> (string \<times> 'v) list \<Rightarrow> (string \<times> 'v) list" where
  "own_set k v ps =
     (if k \<in> set (map fst ps) then AList.update k v ps
      else if is_array_index k then
        (let lower = (\<lambda>p. is_array_index (fst p) \<and> digits_val (fst p) < digits_val k)
         in takeWhile lower ps @ [(k, v)] @ dropWhile lower ps)
      else ps @ [(k, v)])"

text \<open>
  \<open>acc[key] = value\<close> on an object made by \<open>{}\<close>: the key \<open>__proto__\<close> reaches the prototype
  setter and creates no member.
\<close>

definition proto_key :: string where
  "proto_key = ''__proto__''"

definition obj_assign :: "string \<Rightarrow> 'v \<Rightarrow> (string \<times> 'v) list \<Rightarrow> (string \<times> 'v) list" where
  "obj_assign k v ps = (if k = proto_key then ps else own_set k v ps)"

lemma map_of_own_set: "map_of (own_set k v ps) = (map_of ps)(k \<mapsto> v)"
proof (cases "k \<in> set (map fst ps)")
  case True
  then show ?thesis by (simp add: own_set_def update_conv')
next
  case False
  then have none: "map_of (takeWhile P ps) k = None" for P
    by (auto simp: map_of_eq_None_iff dest: set_takeWhileD)
  have "map_of (takeWhile P ps @ (k, v) # dropWhile P ps) = (map_of ps)(k \<mapsto> v)" for P
  proof
    fix x
    have "map_of ps x = map_of (takeWhile P ps @ dropWhile P ps) x" by simp
    then show "map_of (takeWhile P ps @ (k, v) # dropWhile P ps) x = ((map_of ps)(k \<mapsto> v)) x"
      using none by (simp add: map_add_def del: takeWhile_dropWhile_id split: option.split)
  qed
  moreover have "map_of (ps @ [(k, v)]) = (map_of ps)(k \<mapsto> v)"
    using none [of "\<lambda>_. True"] by (auto simp: fun_eq_iff map_add_def takeWhile_eq_all_conv [THEN iffD2]
        split: option.split)
  ultimately show ?thesis using False by (simp add: own_set_def Let_def)
qed

lemma distinct_own_set:
  assumes "distinct (map fst ps)"
  shows "distinct (map fst (own_set k v ps))"
proof (cases "k \<in> set (map fst ps)")
  case True
  with assms show ?thesis by (simp add: own_set_def distinct_update)
next
  case False
  have "distinct (map fst (takeWhile P ps @ (k, v) # dropWhile P ps))" for P
  proof -
    have "map fst ps = map fst (takeWhile P ps) @ map fst (dropWhile P ps)"
      by (metis map_append takeWhile_dropWhile_id)
    with assms False show ?thesis by auto
  qed
  with assms False show ?thesis by (auto simp: own_set_def Let_def)
qed

lemma set_own_set:
  assumes "distinct (map fst ps)"
  shows "set (own_set k v ps) = insert (k, v) {p \<in> set ps. fst p \<noteq> k}"
proof -
  have "p \<in> set (own_set k v ps) \<longleftrightarrow> map_of (own_set k v ps) (fst p) = Some (snd p)"
    and "p \<in> set ps \<longleftrightarrow> map_of ps (fst p) = Some (snd p)" for p
    using assms by (simp_all add: map_of_eq_Some_iff distinct_own_set)
  then show ?thesis by (auto simp: map_of_own_set split: if_splits)
qed

section \<open>JSON.stringify\<close>

definition hex_digit :: "nat \<Rightarrow> char" where
  "hex_digit n = ''0123456789abcdef'' ! n"

definition json_escape :: "char \<Rightarrow> string" where
  "json_escape c =
     (if c = CHR 0x22 then [CHR 0x5C, CHR 0x22]
      else if c = CHR 0x5C then [CHR 0x5C, CHR 0x5C]
      else if c = CHR 0x08 then [CHR 0x5C, CHR ''b'']
      else if c = CHR 0x09 then [CHR 0x5C, CHR ''t'']
      else if c = CHR 0x0A then [CHR 0x5C, CHR ''n'']
      else if c = CHR 0x0C then [CHR 0x5C, CHR ''f'']
      else if c = CHR 0x0D then [CHR 0x5C, CHR ''r'']
      else if of_char c < (32::nat) then
        [CHR 0x5C, CHR ''u'', CHR ''0'', CHR ''0'',
         hex_digit (of_char c div 16), hex_digit (of_char c mod 16)]
      else [c])"

definition json_quote :: "string \<Rightarrow> string" where
  "json_quote s = [CHR 0x22] @ concat (map json_escape s) @ [CHR 0x22]"

fun stringify :: "json \<Rightarrow> string" where
  "stringify JNull = ''null''"
| "stringify (JBool b) = (if b then ''true'' else ''false'')"
| "stringify (JNum n) = n"
| "stringify (JStr s) = json_quote s"
| "stringify (JArr xs) = ''['' @ js_join '','' (map stringify xs) @ '']''"
| "stringify (JObj ps) =
     ''{'' @ js_join '','' (map (\<lambda>p. json_quote (fst p) @ '':'' @ stringify (snd p)) ps) @ ''}''"

subsection \<open>stringify is injective\<close>

lemma hex_digit_inj: "m < 16 \<Longrightarrow> n < 16 \<Longrightarrow> hex_digit m = hex_digit n \<Longrightarrow> m = n"
  unfolding hex_digit_def by (subst (asm) nth_eq_iff_index_eq) auto

lemma hex_pair_inj:
  assumes "of_char c < (32::nat)" and "of_char d < (32::nat)"
    and "hex_digit (of_char c div 16) = hex_digit (of_char d div 16)"
    and "hex_digit (of_char c mod 16) = hex_digit (of_char d mod 16)"
  shows "c = d"
proof -
  have "of_char c div 16 = (of_char d div 16 :: nat)"
    by (rule hex_digit_inj [OF _ _ assms(3)]) (use assms(1,2) in linarith)+
  moreover have "of_char c mod 16 = (of_char d mod 16 :: nat)"
    by (rule hex_digit_inj [OF _ _ assms(4)]) simp_all
  ultimately have "of_char c = (of_char d :: nat)" by (metis div_mult_mod_eq)
  then show ?thesis by simp
qed

lemma json_escape_cancel: "json_escape c @ s = json_escape d @ t \<Longrightarrow> c = d \<and> s = t"
  by (auto simp: json_escape_def dest: hex_pair_inj split: if_split_asm)

lemma json_escape_ne: "json_escape c \<noteq> []" and json_escape_hd: "hd (json_escape c) \<noteq> CHR 0x22"
  by (auto simp: json_escape_def)

lemma json_escape_not_quote: "json_escape c \<noteq> CHR 0x22 # r"
  using json_escape_hd [of c] by auto

lemma json_quote_cancel: "json_quote a @ s = json_quote b @ t \<Longrightarrow> a = b \<and> s = t"
proof (induction a arbitrary: b)
  case Nil
  then show ?case
    by (cases b) (auto simp: json_quote_def Cons_eq_append_conv json_escape_ne json_escape_not_quote
        json_escape_not_quote [symmetric])
next
  case (Cons c a)
  show ?case
  proof (cases b)
    case Nil
    with Cons.prems json_escape_hd [of c] json_escape_ne [of c] show ?thesis
      by (cases "json_escape c") (auto simp: json_quote_def)
  next
    case (Cons d b')
    with Cons.prems have "json_escape c @ concat (map json_escape a) @ [CHR 0x22] @ s =
        json_escape d @ concat (map json_escape b') @ [CHR 0x22] @ t"
      by (simp add: json_quote_def)
    then have "c = d" and "json_quote a @ s = json_quote b' @ t"
      by (auto dest!: json_escape_cancel simp: json_quote_def)
    with Cons.IH Cons show ?thesis by simp
  qed
qed

text \<open>
  What can follow a value inside a text. A text of a well-formed value is never empty and
  starts with none of these characters.
\<close>

definition json_delim :: "string \<Rightarrow> bool" where
  "json_delim s \<longleftrightarrow> s = [] \<or> hd s \<in> {CHR '','', CHR '']'', CHR ''}''}"

text \<open>
  \<open>cancels g x\<close>: inside any text, what \<open>g x\<close> prints determines \<open>x\<close> and the rest. The lists
  printed between commas inherit it from their elements.
\<close>

definition cancels :: "('a \<Rightarrow> string) \<Rightarrow> ('a \<Rightarrow> bool) \<Rightarrow> 'a \<Rightarrow> bool" where
  "cancels g ok x \<longleftrightarrow> (\<forall>y s t. ok y \<longrightarrow> g x @ s = g y @ t \<longrightarrow> json_delim s \<longrightarrow> json_delim t \<longrightarrow> x = y \<and> s = t)"

lemma cancelsD:
  "cancels g ok x \<Longrightarrow> ok y \<Longrightarrow> g x @ s = g y @ t \<Longrightarrow> json_delim s \<Longrightarrow> json_delim t \<Longrightarrow>
     x = y \<and> s = t"
  unfolding cancels_def by blast

lemma js_join_Cons:
  "js_join '','' (g z # map g zs) @ e # u =
     g z @ (if zs = [] then e # u else CHR '','' # js_join '','' (map g zs) @ e # u)"
  by (cases zs) simp_all

lemma js_join_cancel:
  assumes "\<And>x. x \<in> set xs \<Longrightarrow> cancels g ok x"
    and ne: "\<And>x. ok x \<Longrightarrow> g x \<noteq> [] \<and> \<not> json_delim (g x)"
    and "list_all ok xs" and "list_all ok ys"
    and "js_join '','' (map g xs) @ e # s = js_join '','' (map g ys) @ e # t"
    and e: "e \<in> {CHR '']'', CHR ''}''}"
  shows "xs = ys \<and> s = t"
  using assms(1,3-5)
proof (induction xs arbitrary: ys)
  case Nil
  have start: "e # s' \<noteq> g y @ r" if "ok y" for y r s'
    using ne [OF that] e by (cases "g y") (auto simp: json_delim_def)
  from Nil show ?case
    by (cases ys)
      (auto simp only: start js_join_Cons list.map js_join.simps append_Nil list.pred_inject list.inject)
next
  case (Cons x xs)
  have "ys \<noteq> []"
  proof
    assume "ys = []"
    with Cons.prems(4) have "g x @ (if xs = [] then e # s else CHR '','' # js_join '','' (map g xs) @ e # s) = e # t"
      by (simp only: list.map js_join_Cons js_join.simps append_Nil)
    with ne [of x] e Cons.prems(2) show False
      by (cases "g x") (auto simp: json_delim_def)
  qed
  then obtain y ys' where ys: "ys = y # ys'" by (cases ys) auto
  let ?rest = "\<lambda>zs u. if zs = [] then e # u else CHR '','' # js_join '','' (map g zs) @ e # u"
  have delim: "json_delim (?rest zs u)" for zs u
    using e by (simp add: json_delim_def)
  from Cons.prems(4) have eq: "g x @ ?rest xs s = g y @ ?rest ys' t"
    by (simp only: ys list.map js_join_Cons)
  have "cancels g ok x" and "ok y"
    using Cons.prems(1,3) ys by simp_all
  from cancelsD [OF this eq delim delim] have "x = y" and rest: "?rest xs s = ?rest ys' t"
    by blast+
  from rest e have "js_join '','' (map g xs) @ e # s = js_join '','' (map g ys') @ e # t"
    by (auto split: if_split_asm)
  with Cons.IH [of ys'] Cons.prems(1-3) ys \<open>x = y\<close> show ?case by simp
qed

lemma stringify_ne: "json_wf v \<Longrightarrow> stringify v \<noteq> [] \<and> \<not> json_delim (stringify v)"
  by (cases v) (auto simp: json_delim_def json_quote_def number_wf_def neq_Nil_conv is_number_char_def
      is_digit_def char_in_def)

lemma number_cancel:
  assumes "number_wf m" "number_wf n" and "m @ s = n @ t" and "json_delim s" "json_delim t"
  shows "m = n \<and> s = t"
proof -
  have stop: "takeWhile is_number_char (k @ u) = k" if "number_wf k" "json_delim u" for k u
  proof -
    have "takeWhile is_number_char u = []"
      using that(2) by (cases u) (auto simp: json_delim_def is_number_char_def is_digit_def char_in_def)
    with that(1) show ?thesis
      by (simp add: number_wf_def list_all_iff)
  qed
  from stop [of m s] stop [of n t] assms have "m = n" by simp
  with assms(3) show ?thesis by simp
qed

text \<open>The first character of a text tells which constructor printed it.\<close>

definition head_kind :: "char \<Rightarrow> nat" where
  "head_kind c =
     (if c = CHR ''n'' then 0 else if c = CHR ''t'' then 7 else if c = CHR ''f'' then 2
      else if c = CHR 0x22 then 3 else if c = CHR ''['' then 4 else if c = CHR ''{'' then 5 else 6)"

fun json_kind :: "json \<Rightarrow> nat" where
  "json_kind JNull = 0"
| "json_kind (JBool b) = (if b then 7 else 2)"
| "json_kind (JStr _) = 3"
| "json_kind (JArr _) = 4"
| "json_kind (JObj _) = 5"
| "json_kind (JNum _) = 6"

lemma head_kind_number: "is_number_char c \<Longrightarrow> head_kind c = 6"
  by (auto simp: head_kind_def is_number_char_def is_digit_def char_in_def)

lemma head_kind_stringify: "json_wf v \<Longrightarrow> head_kind (hd (stringify v)) = json_kind v"
proof (cases v)
  case (JNum n)
  moreover assume "json_wf v"
  ultimately show ?thesis by (cases n) (auto simp: number_wf_def head_kind_number)
qed (auto simp: json_quote_def head_kind_def)

lemma stringify_kind:
  assumes "json_wf v" and "json_wf w" and "stringify v @ s = stringify w @ t"
  shows "json_kind v = json_kind w"
  using assms head_kind_stringify stringify_ne by (metis hd_append2)

lemma json_kind_iff:
  "json_kind w = 0 \<longleftrightarrow> w = JNull"
  "json_kind w = 7 \<longleftrightarrow> w = JBool True"
  "json_kind w = 2 \<longleftrightarrow> w = JBool False"
  "json_kind w = 3 \<longleftrightarrow> (\<exists>x. w = JStr x)"
  "json_kind w = 4 \<longleftrightarrow> (\<exists>xs. w = JArr xs)"
  "json_kind w = 5 \<longleftrightarrow> (\<exists>ps. w = JObj ps)"
  "json_kind w = 6 \<longleftrightarrow> (\<exists>n. w = JNum n)"
  by (cases w; auto)+

lemma cancelsI:
  assumes "json_wf v"
    and "\<And>w s t. json_wf w \<Longrightarrow> json_kind w = json_kind v \<Longrightarrow> stringify v @ s = stringify w @ t \<Longrightarrow>
      json_delim s \<Longrightarrow> json_delim t \<Longrightarrow> v = w \<and> s = t"
  shows "cancels stringify json_wf v"
  unfolding cancels_def using assms stringify_kind by metis

lemma stringify_cancels: "json_wf v \<Longrightarrow> cancels stringify json_wf v"
proof (induction v)
  case JNull
  show ?case by (rule cancelsI) (auto simp: json_kind_iff)
next
  case (JBool b)
  show ?case by (rule cancelsI) (auto simp: json_kind_iff split: if_splits)
next
  case (JNum n)
  have "n = m \<and> s = t" if "json_wf (JNum m)" "stringify (JNum n) @ s = stringify (JNum m) @ t"
      "json_delim s" "json_delim t" for m s t
    by (rule number_cancel) (use JNum that in simp_all)
  with JNum show ?case by (intro cancelsI) (auto simp: json_kind_iff simp del: stringify.simps json_wf.simps)
next
  case (JStr x)
  then show ?case
    by (intro cancelsI) (auto simp only: json_kind.simps json_kind_iff stringify.simps dest: json_quote_cancel)
next
  case (JArr xs)
  show ?case
  proof (rule cancelsI [OF JArr.prems])
    fix w s t
    assume w: "json_wf w" "json_kind w = json_kind (JArr xs)" "stringify (JArr xs) @ s = stringify w @ t"
    then obtain ys where ys: "w = JArr ys" by (auto simp: json_kind_iff)
    have "xs = ys \<and> s = t"
      by (rule js_join_cancel [where e = "CHR '']''" and g = stringify and ok = json_wf])
        (use JArr w ys stringify_ne in \<open>auto simp: list_all_iff\<close>)
    with ys show "JArr xs = w \<and> s = t" by simp
  qed
next
  case (JObj ps)
  let ?g = "\<lambda>p. json_quote (fst p) @ '':'' @ stringify (snd p)"
  have cancel: "cancels ?g (json_wf \<circ> snd) p" if "p \<in> set ps" for p
    unfolding cancels_def
  proof (intro allI impI)
    fix q s t
    assume q: "(json_wf \<circ> snd) q" "?g p @ s = ?g q @ t" "json_delim s" "json_delim t"
    then have "fst p = fst q" and "stringify (snd p) @ s = stringify (snd q) @ t"
      by (auto dest!: json_quote_cancel)
    moreover from JObj.IH [OF that, of "snd p"] JObj.prems that
    have "cancels stringify json_wf (snd p)" by (auto simp: list_all_iff snds.simps)
    ultimately show "p = q \<and> s = t"
      using q cancelsD [of stringify json_wf "snd p" "snd q" s t] by (auto intro: prod_eqI)
  qed
  show ?case
  proof (rule cancelsI [OF JObj.prems])
    fix w s t
    assume w: "json_wf w" "json_kind w = json_kind (JObj ps)" "stringify (JObj ps) @ s = stringify w @ t"
    then obtain qs where qs: "w = JObj qs" by (auto simp: json_kind_iff)
    have "ps = qs \<and> s = t"
      by (rule js_join_cancel [where e = "CHR ''}''" and g = ?g and ok = "json_wf \<circ> snd"])
        (use cancel JObj.prems w qs in \<open>auto simp: list_all_iff json_quote_def json_delim_def\<close>)
    with qs show "JObj ps = w \<and> s = t" by simp
  qed
qed

lemma stringify_inj:
  assumes "json_wf v" and "json_wf w" and "stringify v = stringify w"
  shows "v = w"
proof -
  have "stringify v @ [] = stringify w @ []" and "json_delim []"
    using assms(3) by (simp_all add: json_delim_def)
  with stringify_cancels [OF assms(1)] assms(2) show ?thesis
    unfolding cancels_def by blast
qed

end
