(* ===== verification/Request_Log.thy ===== *)
theory Request_Log
  imports Csrf Filters Json
begin

text \<open>
  Correlation of requests and log lines: the request-id, security-header and CSRF middlewares in
  the order \<open>src/src/app.middleware.module.ts\<close> applies them, the logger that turns Nest's calls
  into one structured line each (\<open>src/src/common/logging/pino-logger.service.ts\<close>), and the audit
  and logging interceptors (\<open>src/src/common/interceptors/\<close>). The logging library is outside the
  repository: a line is the object and the message it is called with. \<open>JSON.parse\<close> is a
  parameter.
\<close>

section \<open>Middlewares\<close>

text \<open>
  A request under way: its headers, the property set on it, the headers of the response so far
  (names in lower case, as the response compares them), and the asynchronous context.
\<close>

record underway =
  uw_headers :: headers
  uw_request_id :: "string option"
  response_headers :: "(string \<times> string) list"
  context_id :: "string option"

definition request_id_header :: string where
  "request_id_header = ''x-request-id''"

definition incoming_request_id :: "string \<Rightarrow> headers \<Rightarrow> string" where
  "incoming_request_id uuid hs =
     (case first_header hs request_id_header of
        None \<Rightarrow> uuid
      | Some v \<Rightarrow> if js_trim v = [] then uuid else js_trim v)"

definition request_id_use :: "string \<Rightarrow> underway \<Rightarrow> underway" where
  "request_id_use uuid u =
     (let i = incoming_request_id uuid (uw_headers u)
      in u\<lparr>uw_headers := jsmap_set request_id_header (One i) (uw_headers u), uw_request_id := Some i,
           response_headers := jsmap_set request_id_header i (response_headers u), context_id := Some i\<rparr>)"

definition hardening_headers :: "(string \<times> string) list" where
  "hardening_headers =
     [(''x-content-type-options'', ''nosniff''), (''x-frame-options'', ''DENY''), (''x-xss-protection'', ''0''),
      (''strict-transport-security'', ''max-age=31536000; includeSubDomains''),
      (''referrer-policy'', ''strict-origin-when-cross-origin''),
      (''content-security-policy'', ''default-src 'self'; script-src 'self'; style-src 'self' 'unsafe-inline'' @ [CHR 0x27])]"

definition security_headers_use :: "underway \<Rightarrow> underway" where
  "security_headers_use u =
     u\<lparr>response_headers := jsmap_filter (\<lambda>k v. k \<noteq> ''x-powered-by'')
        (foldl (\<lambda>m h. jsmap_set (fst h) (snd h) m) (response_headers u) hardening_headers)\<rparr>"

text \<open>
  The three middlewares in a row. The CSRF middleware passes the request on or throws; a token it
  mints is sent in a response header and in a cookie, of which the header is modelled here.
\<close>

definition middlewares ::
    "csrf_runtime \<Rightarrow> csrf_config \<Rightarrow> csrf_clock \<Rightarrow> string \<Rightarrow> string \<Rightarrow> string \<Rightarrow> (string \<times> string) list option \<Rightarrow>
     underway \<Rightarrow> (exn + unit) \<times> underway" where
  "middlewares rt cfg ck random uuid m cookies u =
     (let v = security_headers_use (request_id_use uuid u);
          (r, token) = csrf_use rt cfg ck random
            \<lparr>csrf_method = m, csrf_headers = uw_headers v, parsed_cookies = cookies\<rparr>
      in (r, case token of None \<Rightarrow> v
             | Some t \<Rightarrow> v\<lparr>response_headers := jsmap_set (js_lower (csrf_header_name cfg)) t (response_headers v)\<rparr>))"

section \<open>The logger\<close>

datatype nest_level = Log | Error_Log | Warn_Log | Debug_Log | Verbose_Log | Fatal_Log

fun pino_level :: "nest_level \<Rightarrow> string" where
  "pino_level Log = ''info''"
| "pino_level Error_Log = ''error''"
| "pino_level Warn_Log = ''warn''"
| "pino_level Debug_Log = ''debug''"
| "pino_level Verbose_Log = ''trace''"
| "pino_level Fatal_Log = ''fatal''"

record logger_options =
  option_level :: string
  option_pretty :: bool
  option_base :: "(string \<times> string) list"
  redact_paths :: "string list"

definition build_logger_options :: "(string \<Rightarrow> string option) \<Rightarrow> logger_options" where
  "build_logger_options env =
     (let node_env = (case env ''NODE_ENV'' of None \<Rightarrow> ''development'' | Some e \<Rightarrow> e);
          pretty = (case env ''LOG_PRETTY'' of
                      None \<Rightarrow> node_env = ''development''
                    | Some p \<Rightarrow> if p = [] then node_env = ''development'' else p = ''true'')
      in \<lparr>option_level = (case env ''LOG_LEVEL'' of
              Some l \<Rightarrow> l | None \<Rightarrow> if node_env = ''production'' then ''info'' else ''debug''),
          option_pretty = pretty,
          option_base = [(''service'', ''a2a-agent-layer''), (''env'', node_env)],
          redact_paths = [''req.headers.authorization'', ''req.headers.cookie'', ''req.headers[\"x-api-key\"]'',
            ''privateKey'', ''*.privateKey'', ''password'', ''*.password'', ''ownerSignature'', ''*.ownerSignature'',
            ''refreshToken'', ''*.refreshToken'']\<rparr>)"

text \<open>What a logging call is given: an error, a text, an object, or anything else as its text.\<close>

type_synonym fields = "(string \<times> json option) list"

datatype log_value =
    Log_Error string string "string option"
  | Log_Text string
  | Log_Object fields
  | Log_Other string

datatype log_param = Param_Text string | Param_Error string string "string option" | Param_Other

record log_line =
  line_level :: string
  line_fields :: fields
  line_message :: "string option"

text \<open>What the logger reads around it: \<open>JSON.parse\<close>, the current request id, the active trace.\<close>

record log_context =
  json_parse :: "string \<Rightarrow> json option"
  current_request_id :: "string option"
  active_trace_ids :: "(string \<times> string) option"

definition spread :: "fields \<Rightarrow> fields \<Rightarrow> fields" where
  "spread base added = foldl (\<lambda>o1 p. own_set (fst p) (snd p) o1) base added"

definition serialize_error :: "string \<Rightarrow> string \<Rightarrow> string option \<Rightarrow> json" where
  "serialize_error name m stack =
     JObj ([(''name'', JStr name), (''message'', JStr m)] @
       (case stack of None \<Rightarrow> [] | Some s \<Rightarrow> [(''stack'', JStr s)]))"

definition try_parse :: "log_context \<Rightarrow> string \<Rightarrow> (string \<times> json) list option" where
  "try_parse cx m =
     (if take 1 m \<noteq> ''{'' then None
      else (case json_parse cx m of Some (JObj ps) \<Rightarrow> Some ps | _ \<Rightarrow> None))"

definition defined_fields :: "fields \<Rightarrow> fields" where
  "defined_fields fs = filter (\<lambda>p. snd p \<noteq> None) fs"

definition payload :: "log_context \<Rightarrow> string option \<Rightarrow> fields \<Rightarrow> fields" where
  "payload cx ctx extra =
     spread (spread [(''context'', map_option JStr ctx), (''requestId'', map_option JStr (current_request_id cx))]
         (case active_trace_ids cx of None \<Rightarrow> []
          | Some (t, s) \<Rightarrow> [(''traceId'', Some (JStr t)), (''spanId'', Some (JStr s))]))
       extra"

definition write_log :: "log_context \<Rightarrow> nest_level \<Rightarrow> log_value \<Rightarrow> string option \<Rightarrow> fields \<Rightarrow> log_line" where
  "write_log cx level m ctx extra =
     (let p = payload cx ctx extra;
          emit = (\<lambda>fs text. \<lparr>line_level = pino_level level, line_fields = fs, line_message = text\<rparr>)
      in case m of
           Log_Error name msg stack \<Rightarrow> emit (spread p [(''err'', Some (serialize_error name msg stack))]) (Some msg)
         | Log_Text t \<Rightarrow>
             (case try_parse cx t of
                Some ps \<Rightarrow> emit (spread (map (\<lambda>q. (fst q, Some (snd q))) ps) (defined_fields p)) None
              | None \<Rightarrow> emit p (Some t))
         | Log_Object fs \<Rightarrow> emit (spread fs (defined_fields p)) None
         | Log_Other t \<Rightarrow> emit p (Some t))"

definition context_of :: "log_param list \<Rightarrow> string option" where
  "context_of ps = (if ps = [] then None else (case last ps of Param_Text t \<Rightarrow> Some t | _ \<Rightarrow> None))"

fun param_texts :: "log_param list \<Rightarrow> string list" where
  "param_texts [] = []"
| "param_texts (Param_Text t # ps) = t # param_texts ps"
| "param_texts (_ # ps) = param_texts ps"

fun first_error :: "log_param list \<Rightarrow> json option" where
  "first_error [] = None"
| "first_error (Param_Error n m s # ps) = Some (serialize_error n m s)"
| "first_error (_ # ps) = first_error ps"

definition log_error :: "log_context \<Rightarrow> log_value \<Rightarrow> log_param list \<Rightarrow> log_line" where
  "log_error cx m params =
     (let texts = param_texts params;
          ctx = (if 0 < length texts then Some (last texts) else None);
          stack = (if 1 < length texts then Some (hd texts) else None)
      in write_log cx Error_Log m ctx
           ((case stack of None \<Rightarrow> [] | Some s \<Rightarrow> if s = [] then [] else [(''stack'', Some (JStr s))]) @
            (case first_error params of None \<Rightarrow> [] | Some e \<Rightarrow> [(''err'', Some e)])))"

definition log_call :: "log_context \<Rightarrow> nest_level \<Rightarrow> log_value \<Rightarrow> log_param list \<Rightarrow> log_line" where
  "log_call cx level m params =
     (if level = Error_Log then log_error cx m params else write_log cx level m (context_of params) [])"

section \<open>Interceptors\<close>

record audit_user =
  audit_user_id :: "string option"
  audit_did :: "string option"
  audit_role :: "string option"

record observed_request =
  obs_method :: string
  obs_url :: string
  obs_request_id :: "string option"
  obs_header_id :: "string option"
  obs_user :: "audit_user option"
  obs_ip :: "string option"
  obs_user_agent :: "string option"

definition mutating_methods :: "string set" where
  "mutating_methods = {''POST'', ''PUT'', ''PATCH'', ''DELETE''}"

definition or_null :: "string option \<Rightarrow> json" where
  "or_null s = (case s of None \<Rightarrow> JNull | Some t \<Rightarrow> JStr t)"

definition truthy_or_null :: "string option \<Rightarrow> json" where
  "truthy_or_null s = (case s of None \<Rightarrow> JNull | Some t \<Rightarrow> if t = [] then JNull else JStr t)"

definition or_unknown :: "string option \<Rightarrow> json" where
  "or_unknown s = JStr (case s of None \<Rightarrow> ''unknown'' | Some t \<Rightarrow> t)"

definition audit_entry :: "string \<Rightarrow> int \<Rightarrow> observed_request \<Rightarrow> nat \<Rightarrow> json" where
  "audit_entry timestamp duration_ms req status_code =
     JObj [(''timestamp'', JStr timestamp),
       (''requestId'', or_null (obs_request_id req)),
       (''method'', JStr (obs_method req)),
       (''path'', JStr (obs_url req)),
       (''userId'', case obs_user req of None \<Rightarrow> JNull
          | Some u \<Rightarrow> JStr (case audit_user_id u of None \<Rightarrow> ''anonymous'' | Some i \<Rightarrow> i)),
       (''did'', case obs_user req of None \<Rightarrow> JNull | Some u \<Rightarrow> truthy_or_null (audit_did u)),
       (''role'', case obs_user req of None \<Rightarrow> JNull | Some u \<Rightarrow> truthy_or_null (audit_role u)),
       (''ip'', or_unknown (obs_ip req)),
       (''userAgent'', or_unknown (obs_user_agent req)),
       (''statusCode'', JNum (nat_str status_code)),
       (''durationMs'', JNum (int_str duration_ms))]"

text \<open>
  The interceptors around a handler that has ended with \<open>outcome\<close>, or with the status of its
  response: the texts they log.
\<close>

definition audit_intercept ::
    "nest \<Rightarrow> string \<Rightarrow> int \<Rightarrow> observed_request \<Rightarrow> exn + nat \<Rightarrow> string list" where
  "audit_intercept n timestamp duration_ms req outcome =
     (if obs_method req \<notin> mutating_methods then []
      else [stringify (audit_entry timestamp duration_ms req
              (case outcome of Inr status_code \<Rightarrow> status_code | Inl e \<Rightarrow> audit_status n e))])"

definition logging_intercept ::
    "nest \<Rightarrow> int \<Rightarrow> observed_request \<Rightarrow> exn + nat \<Rightarrow> nest_level \<times> string" where
  "logging_intercept n duration_ms req outcome =
     (let user_agent = (case obs_user_agent req of None \<Rightarrow> ''-'' | Some a \<Rightarrow> if a = [] then ''-'' else a);
          request_id = (case obs_request_id req of Some i \<Rightarrow> i
             | None \<Rightarrow> (case obs_header_id req of Some i \<Rightarrow> i | None \<Rightarrow> ''-''));
          ip = (case obs_ip req of None \<Rightarrow> ''undefined'' | Some i \<Rightarrow> i);
          line = (\<lambda>st. ''['' @ request_id @ ''] '' @ obs_method req @ '' '' @ obs_url req @ '' '' @ nat_str st @ '' '' @
             int_str duration_ms @ ''ms - '' @ ip @ '' '' @ user_agent)
      in case outcome of
           Inr st \<Rightarrow> (Log, line st)
         | Inl e \<Rightarrow> (Warn_Log, line (logging_status n e)))"

section \<open>Lemmas\<close>

lemma map_of_spread:
  "map_of (spread base added) k = (case map_of (rev added) k of Some v \<Rightarrow> Some v | None \<Rightarrow> map_of base k)"
  unfolding spread_def
  by (induction added arbitrary: base) (auto simp: map_of_own_set map_add_def split: option.splits)

lemma distinct_spread: "distinct (map fst base) \<Longrightarrow> distinct (map fst (spread base added))"
  unfolding spread_def by (induction added arbitrary: base) (simp_all add: distinct_own_set)

lemma map_of_rev_distinct: "distinct (map fst ps) \<Longrightarrow> map_of (rev ps) k = map_of ps k"
  by (metis distinct_rev map_of_eqI map_of_inject_set rev_map set_rev set_map)

lemma map_of_defined:
  "distinct (map fst fs) \<Longrightarrow> map_of (rev (defined_fields fs)) k =
     (case map_of fs k of Some (Some v) \<Rightarrow> Some (Some v) | _ \<Rightarrow> None)"
proof -
  assume d: "distinct (map fst fs)"
  then have "distinct (map fst (defined_fields fs))"
    unfolding defined_fields_def by (induction fs) (auto simp: image_iff)
  then have "map_of (rev (defined_fields fs)) k = map_of (defined_fields fs) k" by (rule map_of_rev_distinct)
  also have "\<dots> = (case map_of fs k of Some (Some v) \<Rightarrow> Some (Some v) | _ \<Rightarrow> None)"
    using d unfolding defined_fields_def
    by (induction fs) (auto split: option.splits simp: map_of_eq_None_iff image_iff)
  finally show ?thesis .
qed

lemma distinct_payload: "distinct (map fst (payload cx ctx extra))"
  unfolding payload_def by (intro distinct_spread) simp

text \<open>The payload's own members; \<open>extra\<close> never has one of these.\<close>

lemma payload_request_id:
  "''requestId'' \<notin> fst ` set extra \<Longrightarrow>
     map_of (payload cx ctx extra) ''requestId'' = Some (map_option JStr (current_request_id cx))"
proof -
  assume "''requestId'' \<notin> fst ` set extra"
  then have none: "map_of (rev extra) ''requestId'' = None" by (simp add: map_of_eq_None_iff)
  show ?thesis unfolding payload_def map_of_spread none by (auto split: option.split)
qed

text \<open>\<open>JSON.parse\<close> reads back the text of a value, as documented for what \<open>JSON.stringify\<close> wrote.\<close>

definition reads_back :: "log_context \<Rightarrow> json \<Rightarrow> bool" where
  "reads_back cx v \<longleftrightarrow> json_parse cx (stringify v) = Some v"

lemma write_log_request_id:
  assumes "current_request_id cx = Some rid" and "''requestId'' \<notin> fst ` set extra"
  shows "map_of (line_fields (write_log cx level m ctx extra)) ''requestId'' = Some (Some (JStr rid))"
proof -
  have p: "map_of (payload cx ctx extra) ''requestId'' = Some (Some (JStr rid))"
    using payload_request_id [OF assms(2)] assms(1) by simp
  then have "map_of (rev (defined_fields (payload cx ctx extra))) ''requestId'' = Some (Some (JStr rid))"
    by (simp add: map_of_defined distinct_payload)
  with p show ?thesis
    by (auto simp: write_log_def Let_def map_of_spread split: log_value.split option.split)
qed

lemma incoming_request_id_ne: "uuid \<noteq> [] \<Longrightarrow> incoming_request_id uuid hs \<noteq> []"
  by (auto simp: incoming_request_id_def split: option.split)

lemma set_headers_get:
  "jsmap_get (foldl (\<lambda>m h. jsmap_set (fst h) (snd h) m) m hs) k =
     (case map_of (rev hs) k of Some v \<Rightarrow> Some v | None \<Rightarrow> jsmap_get m k)"
  by (induction hs arbitrary: m) (auto simp: jsmap_get_set map_add_def split: option.splits)

lemma set_headers_wf: "jsmap_wf m \<Longrightarrow> jsmap_wf (foldl (\<lambda>m h. jsmap_set (fst h) (snd h) m) m hs)"
  by (induction hs arbitrary: m) simp_all

lemma security_headers_get:
  assumes "jsmap_wf (response_headers u)"
  shows "jsmap_get (response_headers (security_headers_use u)) k =
    (if k = ''x-powered-by'' then None
     else (case map_of hardening_headers k of Some v \<Rightarrow> Some v | None \<Rightarrow> jsmap_get (response_headers u) k))"
proof -
  have "map_of (rev hardening_headers) k = map_of hardening_headers k"
    by (rule map_of_rev_distinct) (simp add: hardening_headers_def)
  then show ?thesis
    using assms by (auto simp: security_headers_use_def jsmap_get_filter set_headers_wf set_headers_get split: option.split)
qed

lemma middlewares_state:
  "snd (middlewares rt cfg ck random uuid m cookies u) =
     (case snd (csrf_use rt cfg ck random
         \<lparr>csrf_method = m, csrf_headers = uw_headers (security_headers_use (request_id_use uuid u)), parsed_cookies = cookies\<rparr>) of
        None \<Rightarrow> security_headers_use (request_id_use uuid u)
      | Some t \<Rightarrow> (security_headers_use (request_id_use uuid u))\<lparr>response_headers :=
          jsmap_set (js_lower (csrf_header_name cfg)) t (response_headers (security_headers_use (request_id_use uuid u)))\<rparr>)"
  by (simp add: middlewares_def Let_def split: prod.split)

section \<open>Properties\<close>

text \<open>
  C35: A line cannot be attributed to another request. Whatever is logged while a request is served,
  at every level, an error, an object or a text, even one that is itself a JSON object with a
  request id of its own, the line has the id of the request that produced it.
\<close>

theorem log_line_carries_request_id:
  assumes "current_request_id cx = Some rid"
  shows "map_of (line_fields (log_call cx level m params)) ''requestId'' = Some (Some (JStr rid))"
  by (auto simp: log_call_def log_error_def Let_def split: option.split intro!: write_log_request_id [OF assms])

definition demo_log_context :: log_context where
  "demo_log_context = \<lparr>json_parse = (\<lambda>s. Some (JObj [(''requestId'', JStr ''forged''), (''a'', JNull)])),
     current_request_id = Some ''r1'', active_trace_ids = None\<rparr>"

theorem log_line_carries_request_id_witness:
  "map_of (line_fields (log_call demo_log_context Log (Log_Text ''{x}'') [])) ''requestId'' = Some (Some (JStr ''r1'')) \<and>
   map_of (line_fields (log_call demo_log_context Log (Log_Text ''{x}'') [])) ''a'' = Some (Some JNull)"
proof
  show "map_of (line_fields (log_call demo_log_context Log (Log_Text ''{x}'') [])) ''requestId'' = Some (Some (JStr ''r1''))"
    by (rule log_line_carries_request_id) (simp add: demo_log_context_def)
  show "map_of (line_fields (log_call demo_log_context Log (Log_Text ''{x}'') [])) ''a'' = Some (Some JNull)"
    by code_simp
qed

text \<open>
  One audit line per mutating request. When a handler behind the interceptor ends, reads leave
  no audit line and every other known method leaves exactly one: an object, not a text, with the
  method, the path, the caller, and the status of the response or, if the handler threw, the
  status the exception carries, under the context of the audit log and the id of the request.
\<close>

theorem audit_line_recorded:
  assumes "reads_back cx (audit_entry timestamp d req (case outcome of Inr st \<Rightarrow> st | Inl e \<Rightarrow> audit_status n e))"
    and "current_request_id cx = Some rid"
  shows "if obs_method req \<in> mutating_methods
    then (\<exists>line. map (\<lambda>t. log_call cx Log (Log_Text t) [Param_Text ''AuditLog'']) (audit_intercept n timestamp d req outcome) = [line] \<and>
      line_message line = None \<and>
      map_of (line_fields line) ''method'' = Some (Some (JStr (obs_method req))) \<and>
      map_of (line_fields line) ''path'' = Some (Some (JStr (obs_url req))) \<and>
      map_of (line_fields line) ''userId'' = Some (Some (case obs_user req of None \<Rightarrow> JNull
        | Some u \<Rightarrow> JStr (case audit_user_id u of None \<Rightarrow> ''anonymous'' | Some i \<Rightarrow> i))) \<and>
      map_of (line_fields line) ''statusCode'' =
        Some (Some (JNum (nat_str (case outcome of Inr st \<Rightarrow> st | Inl e \<Rightarrow> audit_status n e)))) \<and>
      map_of (line_fields line) ''requestId'' = Some (Some (JStr rid)) \<and>
      map_of (line_fields line) ''context'' = Some (Some (JStr ''AuditLog'')))
    else audit_intercept n timestamp d req outcome = []"
proof -
  let ?st = "case outcome of Inr st \<Rightarrow> st | Inl e \<Rightarrow> audit_status n e"
  obtain ps where ps: "audit_entry timestamp d req ?st = JObj ps" by (simp add: audit_entry_def)
  define line where "line = log_call cx Log (Log_Text (stringify (JObj ps))) [Param_Text ''AuditLog'']"
  have read: "json_parse cx (stringify (JObj ps)) = Some (JObj ps)" using assms(1) by (simp only: reads_back_def ps)
  have "take 1 (stringify (JObj ps)) = ''{''" by simp
  then have "try_parse cx (stringify (JObj ps)) = Some ps" by (simp only: try_parse_def read) simp
  then have fields: "line_fields line = spread (map (\<lambda>q. (fst q, Some (snd q))) ps)
      (defined_fields (payload cx (Some ''AuditLog'') []))" and msg: "line_message line = None"
    by (simp_all add: line_def log_call_def context_of_def write_log_def Let_def del: stringify.simps)
  have members: "map_of (line_fields line) k =
      (case map_of (payload cx (Some ''AuditLog'') []) k of Some (Some v) \<Rightarrow> Some (Some v) | _ \<Rightarrow> map_option Some (map_of ps k))" for k
    unfolding fields map_of_spread map_of_defined [OF distinct_payload] map_of_snd_map
    by (auto split: option.split)
  have pay: "map_of (payload cx (Some ''AuditLog'') []) k =
      (if k = ''context'' then Some (Some (JStr ''AuditLog''))
       else if k = ''requestId'' then Some (Some (JStr rid))
       else if k = ''traceId'' then map_option (\<lambda>p. Some (JStr (fst p))) (active_trace_ids cx)
       else if k = ''spanId'' then map_option (\<lambda>p. Some (JStr (snd p))) (active_trace_ids cx) else None)" for k
    using assms(2) by (auto simp: payload_def map_of_spread split: option.split)
  have vals: "map_of ps ''method'' = Some (JStr (obs_method req))" "map_of ps ''path'' = Some (JStr (obs_url req))"
    "map_of ps ''userId'' = Some (case obs_user req of None \<Rightarrow> JNull
        | Some u \<Rightarrow> JStr (case audit_user_id u of None \<Rightarrow> ''anonymous'' | Some i \<Rightarrow> i))"
    "map_of ps ''statusCode'' = Some (JNum (nat_str ?st))"
    using ps by (auto simp: audit_entry_def)
  show ?thesis
  proof (cases "obs_method req \<in> mutating_methods")
    case True
    then have "audit_intercept n timestamp d req outcome = [stringify (JObj ps)]"
      by (simp only: audit_intercept_def ps simp_thms if_False)
    then have one: "map (\<lambda>t. log_call cx Log (Log_Text t) [Param_Text ''AuditLog'']) (audit_intercept n timestamp d req outcome) = [line]"
      by (simp only: list.map line_def)
    show ?thesis
      unfolding one if_P [OF True] members pay vals by (intro exI [of _ line]) (simp add: msg members pay vals)
  next
    case False
    then show ?thesis by (simp add: audit_intercept_def)
  qed
qed

definition demo_observed :: observed_request where
  "demo_observed = \<lparr>obs_method = ''PATCH'', obs_url = ''/policies/1'', obs_request_id = Some ''r1'', obs_header_id = None,
     obs_user = None, obs_ip = None, obs_user_agent = None\<rparr>"

theorem audit_line_recorded_witness:
  "\<exists>line. map (\<lambda>t. log_call (demo_log_context\<lparr>json_parse := (\<lambda>t. Some (audit_entry ''now'' 3 demo_observed 403))\<rparr>) Log (Log_Text t) [Param_Text ''AuditLog''])
      (audit_intercept demo_nest ''now'' 3 demo_observed (Inl (Forbidden ''no''))) = [line] \<and>
    map_of (line_fields line) ''statusCode'' = Some (Some (JNum (nat_str 403)))"
proof -
  let ?cx = "demo_log_context\<lparr>json_parse := (\<lambda>t. Some (audit_entry ''now'' 3 demo_observed 403))\<rparr>"
  have st: "audit_status demo_nest (Forbidden ''no'') = 403"
    by (simp add: audit_status_def demo_nest_def http_class_def Let_def)
  then have "reads_back ?cx (audit_entry ''now'' 3 demo_observed
      (case Inl (Forbidden ''no'') of Inr st \<Rightarrow> st | Inl e \<Rightarrow> audit_status demo_nest e))"
    by (simp add: reads_back_def)
  from audit_line_recorded [OF this, of "''r1''"]
  show ?thesis using st by (auto simp: demo_log_context_def demo_observed_def mutating_methods_def)
qed

text \<open>
  C36: Every response can be correlated and is hardened. After the middlewares, whether the request
  goes on or is refused by the CSRF check, one non-empty id is the request's property, its
  header, the response header, the id of the log lines and the id in the body of any error the
  general filter sends; an id the caller sent is kept. The response has every hardening header
  and does not name the framework.
\<close>

theorem responses_correlated_and_hardened:
  assumes "uuid \<noteq> []" and "jsmap_wf (response_headers u)"
    and "js_lower (csrf_header_name cfg) \<notin> {request_id_header, ''x-powered-by''} \<union> fst ` set hardening_headers"
    and v: "v = snd (middlewares rt cfg ck random uuid m cookies u)"
  shows "(\<exists>i. i \<noteq> [] \<and> uw_request_id v = Some i \<and> first_header (uw_headers v) request_id_header = Some i \<and>
      context_id v = Some i \<and> jsmap_get (response_headers v) request_id_header = Some i \<and>
      body_request_id (all_exceptions_catch n production now \<lparr>failed_method = m, failed_url = url,
        failed_headers = uw_headers v, failed_request_id = uw_request_id v\<rparr> e) = Some (One i) \<and>
      (case first_header (uw_headers u) request_id_header of None \<Rightarrow> i = uuid
       | Some given \<Rightarrow> js_trim given = [] \<or> i = js_trim given)) \<and>
    list_all (\<lambda>h. jsmap_get (response_headers v) (fst h) = Some (snd h)) hardening_headers \<and>
    jsmap_get (response_headers v) ''x-powered-by'' = None"
proof -
  let ?i = "incoming_request_id uuid (uw_headers u)" and ?u = "request_id_use uuid u"
  have get: "jsmap_get (response_headers v) k = (if k = ''x-powered-by'' then None
      else (case map_of hardening_headers k of Some x \<Rightarrow> Some x | None \<Rightarrow> jsmap_get (response_headers ?u) k))"
    if "k \<noteq> js_lower (csrf_header_name cfg)" for k
    using that assms(2) security_headers_get [of ?u k]
    by (auto simp: v middlewares_state jsmap_get_set request_id_use_def Let_def split: option.split)
  have same: "uw_request_id v = Some ?i" "uw_headers v = jsmap_set request_id_header (One ?i) (uw_headers u)"
    "context_id v = Some ?i"
    by (auto simp: v middlewares_state request_id_use_def security_headers_use_def Let_def split: option.split)
  have ne: "?i \<noteq> []" using incoming_request_id_ne [OF assms(1)] .
  have "map_of hardening_headers request_id_header = None" by (simp add: hardening_headers_def request_id_header_def)
  then have "jsmap_get (response_headers v) request_id_header = Some ?i"
    using assms(3) get [of request_id_header] by (auto simp: request_id_use_def Let_def jsmap_get_set request_id_header_def)
  then have "\<exists>i. i \<noteq> [] \<and> uw_request_id v = Some i \<and> first_header (uw_headers v) request_id_header = Some i \<and>
      context_id v = Some i \<and> jsmap_get (response_headers v) request_id_header = Some i \<and>
      body_request_id (all_exceptions_catch n production now \<lparr>failed_method = m, failed_url = url,
        failed_headers = uw_headers v, failed_request_id = uw_request_id v\<rparr> e) = Some (One i) \<and>
      (case first_header (uw_headers u) request_id_header of None \<Rightarrow> i = uuid
       | Some given \<Rightarrow> js_trim given = [] \<or> i = js_trim given)"
    using ne same by (intro exI [of _ ?i])
      (auto simp: first_header_def jsmap_get_set all_exceptions_catch_def failed_id_def id_given_def
        incoming_request_id_def split: prod.split option.split)
  moreover have distinct: "distinct (map fst hardening_headers)" by (simp add: hardening_headers_def)
  moreover have "jsmap_get (response_headers v) (fst h) = Some (snd h)" if "h \<in> set hardening_headers" for h
  proof -
    have "fst h \<in> fst ` set hardening_headers" using that by (rule imageI)
    moreover have "js_lower (csrf_header_name cfg) \<notin> fst ` set hardening_headers" using assms(3) by (rule contrapos_nn) (rule UnI2)
    ultimately have "fst h \<noteq> js_lower (csrf_header_name cfg)" by (rule mem_neq)
    moreover have "map_of hardening_headers (fst h) = Some (snd h)" using that distinct by (simp add: map_of_eq_Some_iff)
    moreover have "fst h \<noteq> ''x-powered-by''" using that by (auto simp: hardening_headers_def)
    ultimately show ?thesis by (simp add: get)
  qed
  moreover have "jsmap_get (response_headers v) ''x-powered-by'' = None"
    using assms(3) get [of "''x-powered-by''"] by auto
  ultimately show ?thesis by (simp add: list_all_iff)
qed

definition demo_underway :: underway where
  "demo_underway = \<lparr>uw_headers = [(''x-request-id'', Many ['' r7 '', ''r8''])], uw_request_id = None,
     response_headers = [(''x-powered-by'', ''Express'')], context_id = None\<rparr>"

theorem responses_correlated_and_hardened_witness:
  "jsmap_get (response_headers (snd (middlewares demo_runtime demo_csrf (demo_csrf_clock 5) ''0f'' ''u'' ''POST'' None demo_underway)))
     ''x-powered-by'' = None \<and>
   fst (middlewares demo_runtime demo_csrf (demo_csrf_clock 5) ''0f'' ''u'' ''POST'' None demo_underway) \<noteq> Inr ()"
proof
  show "jsmap_get (response_headers (snd (middlewares demo_runtime demo_csrf (demo_csrf_clock 5) ''0f'' ''u'' ''POST'' None demo_underway)))
     ''x-powered-by'' = None"
  proof (rule responses_correlated_and_hardened [OF _ _ _ refl, THEN conjunct2, THEN conjunct2])
    show "js_lower (csrf_header_name demo_csrf) \<notin> {request_id_header, ''x-powered-by''} \<union> fst ` set hardening_headers"
      by code_simp
  qed (simp_all add: demo_underway_def jsmap_wf_def)
  show "fst (middlewares demo_runtime demo_csrf (demo_csrf_clock 5) ''0f'' ''u'' ''POST'' None demo_underway) \<noteq> Inr ()"
    by code_simp
qed

end
