(* ===== verification/Domain_Gauges.thy ===== *)
theory Domain_Gauges
  imports Complex_Main Js_String
begin

text \<open>
  The gauges of domain state (\<open>src/src/observability/domain-gauges.service.ts\<close>): reading the
  counts the database returns, the cache with its time to live, and the sharing of one round of
  queries between concurrent scrapes, as a step relation. The queries are parameters: a load
  ends with the rows they return, or fails.
\<close>

section \<open>Numbers of the database\<close>

text \<open>
  \<open>Number(text)\<close> on the decimal texts the driver returns; \<open>None\<close> is \<open>NaN\<close>. Exponents, other radices
  and \<open>Infinity\<close>, which it does not return, are outside the model and read as \<open>None\<close>.
\<close>

definition js_to_number :: "string \<Rightarrow> rat option" where
  "js_to_number s =
     (let t = js_trim s;
          (neg, u) = (case t of
                        [] \<Rightarrow> (False, [])
                      | c # cs \<Rightarrow> if c = CHR ''-'' then (True, cs)
                                  else if c = CHR ''+'' then (False, cs) else (False, c # cs));
          ds = takeWhile is_digit u;
          sign = (\<lambda>x. if neg then - x else x)
      in if t = [] then Some 0
         else (case dropWhile is_digit u of
                 [] \<Rightarrow> if ds = [] then None else Some (sign (of_nat (digits_val ds)))
               | c # fs \<Rightarrow>
                   if c = CHR ''.'' \<and> list_all is_digit fs \<and> (ds \<noteq> [] \<or> fs \<noteq> [])
                   then Some (sign (of_nat (digits_val (ds @ fs)) / 10 ^ length fs)) else None))"

text \<open>\<open>Math.max(0, x)\<close>, which keeps \<open>NaN\<close>.\<close>

definition js_max_zero :: "rat option \<Rightarrow> rat option" where
  "js_max_zero x = map_option (max 0) x"

definition positive_int :: "string option \<Rightarrow> int \<Rightarrow> int" where
  "positive_int raw fallback =
     (case js_parse_int (case raw of None \<Rightarrow> [] | Some r \<Rightarrow> r) of
        None \<Rightarrow> fallback
      | Some p \<Rightarrow> if 0 < p then p else fallback)"

section \<open>The service\<close>

record status_count =
  count_status :: string
  count_text :: string

record usage_row =
  usage_pending :: "string option"
  usage_rolled_up :: "string option"
  usage_lag_seconds :: "string option"

text \<open>What one round of queries returns: agent rows, service rows and the usage row, if any.\<close>

type_synonym gauge_rows = "status_count list \<times> status_count list \<times> usage_row option"

type_synonym gauge = "(string, rat option) jsmap"

record domain_gauges =
  gauge_ttl_ms :: int
  usage_window_hours :: int
  last_refresh_at :: int
  in_flight :: "int option"
  agents_gauge :: gauge
  services_gauge :: gauge
  usage_gauge :: gauge
  metering_lag :: "rat option"
  refresh_errors :: nat

definition new_domain_gauges :: "string option \<Rightarrow> string option \<Rightarrow> domain_gauges" where
  "new_domain_gauges ttl window =
     \<lparr>gauge_ttl_ms = positive_int ttl 15000, usage_window_hours = positive_int window 24,
      last_refresh_at = 0, in_flight = None, agents_gauge = [], services_gauge = [], usage_gauge = [],
      metering_lag = Some 0, refresh_errors = 0\<rparr>"

definition agent_statuses :: "string list" where
  "agent_statuses = [''active'', ''inactive'']"

definition set_by_status :: "string list \<Rightarrow> status_count list \<Rightarrow> gauge \<Rightarrow> gauge" where
  "set_by_status known rows g =
     (let counts = foldl (\<lambda>m row. jsmap_set (count_status row) (js_to_number (count_text row)) m)
            (map (\<lambda>s. (s, Some 0)) known) rows
      in foldl (\<lambda>g p. jsmap_set (fst p) (snd p) g) g counts)"

definition usage_number :: "usage_row option \<Rightarrow> (usage_row \<Rightarrow> string option) \<Rightarrow> rat option" where
  "usage_number usage field =
     (case usage of None \<Rightarrow> Some 0
      | Some u \<Rightarrow> (case field u of None \<Rightarrow> Some 0 | Some t \<Rightarrow> js_to_number t))"

definition apply_rows :: "gauge_rows \<Rightarrow> domain_gauges \<Rightarrow> domain_gauges" where
  "apply_rows rows g =
     (case rows of (agent_rows, service_rows, usage) \<Rightarrow>
        g\<lparr>agents_gauge := set_by_status agent_statuses agent_rows (agents_gauge g),
          services_gauge := set_by_status agent_statuses service_rows (services_gauge g),
          usage_gauge := jsmap_set ''rolled_up'' (usage_number usage usage_rolled_up)
            (jsmap_set ''pending'' (usage_number usage usage_pending) (usage_gauge g)),
          metering_lag := js_max_zero (usage_number usage usage_lag_seconds)\<rparr>)"

text \<open>
  A call of \<open>refresh\<close>: nothing within the time to live, else it joins the load under way or
  starts one, which remembers the time of the call that started it.
\<close>

definition refresh :: "int \<Rightarrow> domain_gauges \<Rightarrow> domain_gauges" where
  "refresh now g =
     (if last_refresh_at g \<noteq> 0 \<and> now - last_refresh_at g < gauge_ttl_ms g then g
      else (case in_flight g of None \<Rightarrow> g\<lparr>in_flight := Some now\<rparr> | Some _ \<Rightarrow> g))"

text \<open>The load ends: with rows, or with a failure. Both clear it.\<close>

definition load_done :: "gauge_rows \<Rightarrow> domain_gauges \<Rightarrow> domain_gauges" where
  "load_done rows g =
     (case in_flight g of None \<Rightarrow> g
      | Some now \<Rightarrow> (apply_rows rows g)\<lparr>last_refresh_at := now, in_flight := None\<rparr>)"

definition load_failed :: "domain_gauges \<Rightarrow> domain_gauges" where
  "load_failed g =
     (case in_flight g of None \<Rightarrow> g
      | Some now \<Rightarrow> g\<lparr>refresh_errors := refresh_errors g + 1, in_flight := None\<rparr>)"

text \<open>
  Runs of the service with the times, latest first, at which loads that have succeeded were
  started. The clock reads positive times.
\<close>

inductive gauge_run :: "domain_gauges \<Rightarrow> int list \<Rightarrow> bool" where
  start: "gauge_run (new_domain_gauges ttl window) []"
| call: "gauge_run g ts \<Longrightarrow> 0 < now \<Longrightarrow> gauge_run (refresh now g) ts"
| succeed: "gauge_run g ts \<Longrightarrow> in_flight g = Some now \<Longrightarrow> gauge_run (load_done rows g) (now # ts)"
| fail: "gauge_run g ts \<Longrightarrow> in_flight g = Some now \<Longrightarrow> gauge_run (load_failed g) ts"

section \<open>Lemmas\<close>

lemma js_trim_nat_str: "js_trim (nat_str n) = nat_str n"
proof -
  have "nat_str n \<noteq> []" and digits: "\<And>c. c \<in> set (nat_str n) \<Longrightarrow> \<not> is_space c"
    using nat_str_digits [of n] by (auto simp: list_all_iff dest: is_digit_not)
  then have "dropWhile is_space (nat_str n) = nat_str n" "dropWhile is_space (rev (nat_str n)) = rev (nat_str n)"
    by (auto simp: dropWhile_eq_self_iff hd_rev)
  then show ?thesis by (simp add: js_trim_def js_trim_left_def)
qed

lemma js_to_number_nat_str [simp]: "js_to_number (nat_str n) = Some (of_nat n)"
proof -
  obtain d ds where ds: "nat_str n = d # ds" and dig: "is_digit d" "list_all is_digit ds"
    using nat_str_digits [of n] by (cases "nat_str n") auto
  have all: "takeWhile is_digit (d # ds) = d # ds" "dropWhile is_digit (d # ds) = []"
    using dig by (auto simp: takeWhile_eq_all_conv dropWhile_eq_Nil_conv list_all_iff simp del: takeWhile.simps dropWhile.simps)
  have trim: "js_trim (d # ds) = d # ds" using js_trim_nat_str [of n] by (simp add: ds)
  have val: "digits_val (d # ds) = n" by (simp flip: ds)
  show ?thesis
    unfolding ds js_to_number_def Let_def trim using is_digit_not [OF dig(1)] by (simp add: all val del: takeWhile.simps dropWhile.simps)
qed

lemma jsmap_set_all:
  "distinct (map fst ps) \<Longrightarrow> jsmap_get (foldl (\<lambda>g p. jsmap_set (fst p) (snd p) g) g ps) s =
     (case map_of ps s of Some v \<Rightarrow> Some v | None \<Rightarrow> jsmap_get g s)"
proof (induction ps arbitrary: g)
  case Nil
  then show ?case by simp
next
  case (Cons p ps)
  then show ?case by (auto simp: jsmap_get_set map_of_eq_None_iff image_iff split: option.splits)
qed

lemma set_counts:
  "distinct (map count_status rows) \<Longrightarrow>
     jsmap_get (foldl (\<lambda>m row. jsmap_set (count_status row) (js_to_number (count_text row)) m) m rows) s =
     (case find (\<lambda>r. count_status r = s) rows of Some r \<Rightarrow> Some (js_to_number (count_text r)) | None \<Rightarrow> jsmap_get m s)"
proof (induction rows arbitrary: m)
  case Nil
  then show ?case by simp
next
  case (Cons r rows)
  have "find (\<lambda>x. count_status x = count_status r) rows = None"
    using Cons.prems unfolding find_None_iff by (metis distinct.simps(2) imageI list.simps(9) set_map)
  with Cons show ?case by (auto simp: jsmap_get_set split: option.splits)
qed

lemma set_counts_wf:
  "jsmap_wf m \<Longrightarrow> jsmap_wf (foldl (\<lambda>m row. jsmap_set (count_status row) (js_to_number (count_text row)) m) m rows)"
  by (induction rows arbitrary: m) simp_all

lemma map_of_zeros: "map_of (map (\<lambda>s. (s, z)) known) s = (if s \<in> set known then Some z else None)"
  by (induction known) auto

lemma set_by_status_get:
  assumes "distinct known" and "distinct (map count_status rows)"
  shows "jsmap_get (set_by_status known rows g) s =
    (case find (\<lambda>r. count_status r = s) rows of
       Some r \<Rightarrow> Some (js_to_number (count_text r))
     | None \<Rightarrow> if s \<in> set known then Some (Some 0) else jsmap_get g s)"
proof -
  let ?zeros = "map (\<lambda>s. (s, Some (0 :: rat))) known"
  let ?counts = "foldl (\<lambda>m row. jsmap_set (count_status row) (js_to_number (count_text row)) m) ?zeros rows"
  have "jsmap_wf ?zeros" using assms(1) by (simp add: jsmap_wf_def comp_def)
  then have "jsmap_wf ?counts" by (rule set_counts_wf)
  then have "distinct (map fst ?counts)" by (simp add: jsmap_wf_def)
  then show ?thesis
    using set_counts [OF assms(2), of ?zeros s]
    by (auto simp: set_by_status_def Let_def jsmap_set_all map_of_zeros split: option.splits)
qed

lemma refresh_config [simp]:
  "gauge_ttl_ms (refresh now g) = gauge_ttl_ms g" "gauge_ttl_ms (load_done rows g) = gauge_ttl_ms g"
  "gauge_ttl_ms (load_failed g) = gauge_ttl_ms g"
  by (auto simp: refresh_def load_done_def load_failed_def apply_rows_def split: option.splits prod.splits)

lemma positive_int_pos: "0 < fallback \<Longrightarrow> 0 < positive_int raw fallback"
  by (simp add: positive_int_def split: option.split)

definition spaced :: "int \<Rightarrow> int list \<Rightarrow> bool" where
  "spaced d ts \<longleftrightarrow> sorted_wrt (\<lambda>later earlier. earlier + d \<le> later) ts"

definition gauge_run_ok :: "domain_gauges \<Rightarrow> int list \<Rightarrow> bool" where
  "gauge_run_ok g ts \<longleftrightarrow>
     0 < gauge_ttl_ms g \<and> spaced (gauge_ttl_ms g) ts \<and> list_all (\<lambda>t. 0 < t) ts \<and>
     last_refresh_at g = (case ts of [] \<Rightarrow> 0 | t # _ \<Rightarrow> t) \<and>
     (case in_flight g of None \<Rightarrow> True
      | Some now \<Rightarrow> 0 < now \<and> (ts \<noteq> [] \<longrightarrow> hd ts + gauge_ttl_ms g \<le> now))"

lemma gauge_run_invariant: "gauge_run g ts \<Longrightarrow> gauge_run_ok g ts"
proof (induction rule: gauge_run.induct)
  case (start ttl window)
  show ?case by (simp add: gauge_run_ok_def new_domain_gauges_def spaced_def positive_int_pos)
next
  case (call g ts now)
  then show ?case
    by (cases ts) (auto simp: gauge_run_ok_def refresh_def split: option.splits)
next
  case (succeed g ts now rows)
  have ttl: "gauge_ttl_ms (load_done rows g) = gauge_ttl_ms g" by simp
  have sp: "spaced (gauge_ttl_ms g) (now # ts)"
  proof (cases ts)
    case Nil
    then show ?thesis by (simp add: spaced_def)
  next
    case (Cons t us)
    with succeed have "t + gauge_ttl_ms g \<le> now" "spaced (gauge_ttl_ms g) (t # us)" "0 < gauge_ttl_ms g"
      by (simp_all add: gauge_run_ok_def)
    then show ?thesis by (force simp: Cons spaced_def)
  qed
  have "last_refresh_at (load_done rows g) = now" "in_flight (load_done rows g) = None"
    using succeed.hyps by (simp_all add: load_done_def)
  then show ?case using succeed sp by (simp add: gauge_run_ok_def)
next
  case (fail g ts now)
  then show ?case by (simp add: gauge_run_ok_def load_failed_def)
qed

section \<open>Properties\<close>

text \<open>
  Scrapes cannot turn into query load. However often the gauges are refreshed, however the
  calls overlap with loads under way and however loads fail, at most one load is under way, and
  the loads that succeed were started at least one time to live apart.
\<close>

theorem successful_loads_spaced:
  assumes "gauge_run g ts"
  shows "sorted_wrt (\<lambda>later earlier. earlier + gauge_ttl_ms g \<le> later) ts \<and>
    (in_flight (refresh now g) = in_flight g \<or>
     (in_flight g = None \<and> (ts \<noteq> [] \<longrightarrow> hd ts + gauge_ttl_ms g \<le> now)))"
  using gauge_run_invariant [OF assms]
  by (cases ts) (auto simp: gauge_run_ok_def spaced_def refresh_def split: option.splits)

definition demo_gauges :: domain_gauges where
  "demo_gauges = load_done ([], [], None) (refresh 120 (refresh 100 (new_domain_gauges (Some ''50'') None)))"

theorem successful_loads_spaced_witness:
  "gauge_ttl_ms demo_gauges = 50 \<and> in_flight (refresh 120 demo_gauges) = None \<and> in_flight (refresh 150 demo_gauges) = Some 150"
proof -
  have "in_flight (refresh 120 (refresh 100 (new_domain_gauges (Some ''50'') None))) = Some 100" by code_simp
  then have "gauge_run demo_gauges [100]"
    unfolding demo_gauges_def by (intro gauge_run.intros) simp_all
  from successful_loads_spaced [OF this, of 120]
  have "in_flight (refresh 120 demo_gauges) = in_flight demo_gauges \<or> 100 + gauge_ttl_ms demo_gauges \<le> 120"
    by auto
  moreover have "gauge_ttl_ms demo_gauges = 50" "in_flight demo_gauges = None" by code_simp+
  moreover have "in_flight (refresh 150 demo_gauges) = Some 150" by code_simp
  ultimately show ?thesis by auto
qed

text \<open>
  After a load the gauges tell the truth and nothing stale. When the agent rows are, as the
  grouping query returns them, one row for every status that occurs with the number of agents
  that have it, the gauge of each known status is that number, zero if no agent has it, whatever
  the gauge said before; when the load fails every gauge keeps its value.
\<close>

theorem gauges_count_agents:
  assumes rows: "distinct (map count_status rows)"
    and counts: "\<forall>r \<in> set rows. count_text r = nat_str (length (filter (\<lambda>a. a = count_status r) statuses))"
    and complete: "set statuses \<subseteq> count_status ` set rows"
    and loading: "in_flight g = Some now" and known: "s \<in> set agent_statuses"
  shows "jsmap_get (agents_gauge (load_done (rows, service_rows, usage) g)) s =
      Some (Some (of_nat (length (filter (\<lambda>a. a = s) statuses)))) \<and>
    agents_gauge (load_failed g) = agents_gauge g"
proof -
  have distinct: "distinct agent_statuses" by code_simp
  have "jsmap_get (set_by_status agent_statuses rows (agents_gauge g)) s =
      Some (Some (of_nat (length (filter (\<lambda>a. a = s) statuses))))"
  proof (cases "find (\<lambda>r. count_status r = s) rows")
    case None
    then have "s \<notin> set statuses" using complete by (auto simp: find_None_iff)
    then have "filter (\<lambda>a. a = s) statuses = []" by (auto simp: filter_empty_conv)
    with None known show ?thesis by (simp add: set_by_status_get [OF distinct rows])
  next
    case (Some r)
    then have "r \<in> set rows" "count_status r = s" by (auto simp: find_Some_iff)
    then have "js_to_number (count_text r) = Some (of_nat (length (filter (\<lambda>a. a = s) statuses)))"
      using counts by auto
    with Some show ?thesis by (simp add: set_by_status_get [OF distinct rows])
  qed
  then show ?thesis using loading by (simp add: load_done_def load_failed_def apply_rows_def)
qed

theorem gauges_count_agents_witness:
  "jsmap_get (agents_gauge (load_done ([\<lparr>count_status = ''active'', count_text = nat_str 2\<rparr>], [], None)
     (refresh 5 (new_domain_gauges None None)))) ''inactive'' = Some (Some 0)"
proof -
  have "in_flight (refresh 5 (new_domain_gauges None None)) = Some 5" by code_simp
  from gauges_count_agents [of "[\<lparr>count_status = ''active'', count_text = nat_str 2\<rparr>]"
      "[''active'', ''active'']", OF _ _ _ this, of "''inactive''" "[]" None]
  show ?thesis by (simp add: agent_statuses_def numeral_2_eq_2)
qed

end
