(* ===== verification/Health.thy ===== *)
theory Health
  imports Domain_Gauges
begin

text \<open>
  The health endpoints (\<open>src/src/modules/health/health.service.ts\<close>): the liveness check, the
  readiness check and the per-dependency report with its bounded probes. A call to a dependency
  is a parameter: after how many milliseconds it settles, if ever, and with what. The clocks are
  parameters too, functions of the time since the request began; what one step of the code reads
  of them, it reads at one time. A configured timeout is assumed to be within the range of the
  runtime's timers.
\<close>

section \<open>Calls to dependencies\<close>

text \<open>
  A failed call throws a value of which the members \<open>message\<close>, \<open>code\<close> and \<open>name\<close> are read; \<open>None\<close>
  stands for an absent member and for one that is no string.
\<close>

record failure =
  failure_is_error :: bool
  failure_message :: "string option"
  failure_code :: "string option"
  failure_name :: "string option"

text \<open>\<open>None\<close> is a call that never settles.\<close>

type_synonym 'a call = "(nat \<times> (failure + 'a)) option"

fun first_named :: "string option list \<Rightarrow> string option" where
  "first_named [] = None"
| "first_named (None # vs) = first_named vs"
| "first_named (Some v # vs) = (if js_trim v \<noteq> [] then Some v else first_named vs)"

definition describe_error :: "failure \<Rightarrow> string" where
  "describe_error e =
     (case first_named [failure_message e, failure_code e, failure_name e] of
        Some v \<Rightarrow> v | None \<Rightarrow> ''Unknown error'')"

definition check_timeout_ms :: "string option \<Rightarrow> int" where
  "check_timeout_ms env = positive_int env 2000"

text \<open>\<open>Math.round(ns / 1e4) / 100\<close>: hundredths of milliseconds, halves rounded up.\<close>

definition rounded_ms :: "int \<Rightarrow> rat" where
  "rounded_ms ns = of_int \<lfloor>of_int ns / 10 ^ 4 + 1 / 2 :: rat\<rfloor> / 100"

section \<open>The instance and its clocks\<close>

text \<open>
  The running service: when its health service was made (milliseconds since 1970), and the two
  environment variables it reads at each request.
\<close>

record instance_info =
  started_at :: int
  package_version :: "string option"
  timeout_setting :: "string option"

text \<open>
  What the clocks read \<open>t\<close> milliseconds into the request: nanoseconds since a probe began, milliseconds
  since 1970, and the date as text.
\<close>

record clocks =
  elapsed_ns :: "nat \<Rightarrow> int"
  now_ms :: "nat \<Rightarrow> int"
  iso_date :: "nat \<Rightarrow> string"

section \<open>Probes\<close>

datatype dependency_state = Up | Down

record dependency_health =
  dep_name :: string
  dep_status :: dependency_state
  latency_ms :: rat
  critical :: bool
  details :: "nat option"
  dep_error :: "string option"

text \<open>
  \<open>Promise.race\<close> of the call and the timer, with the time at which it settles. When both are due
  in the same millisecond the model lets the timer win.
\<close>

definition race :: "nat \<Rightarrow> 'a call \<Rightarrow> nat \<times> (failure + 'a)" where
  "race timeout c =
     (let timed_out = (timeout, Inl \<lparr>failure_is_error = True,
            failure_message = Some (''timed out after '' @ nat_str timeout @ ''ms''),
            failure_code = None, failure_name = Some ''Error''\<rparr>)
      in case c of None \<Rightarrow> timed_out
         | Some (t, r) \<Rightarrow> if t < timeout then (t, r) else timed_out)"

text \<open>A probe with the time at which it answers; \<open>clock\<close> turns that into the measured nanoseconds.\<close>

definition probe ::
    "(nat \<Rightarrow> int) \<Rightarrow> string \<Rightarrow> bool \<Rightarrow> nat \<Rightarrow> nat option call \<Rightarrow> nat \<times> dependency_health" where
  "probe clock name crit timeout c =
     (case race timeout c of
        (t, Inr d) \<Rightarrow> (t, \<lparr>dep_name = name, dep_status = Up, latency_ms = rounded_ms (clock t), critical = crit,
                          details = d, dep_error = None\<rparr>)
      | (t, Inl e) \<Rightarrow> (t, \<lparr>dep_name = name, dep_status = Down, latency_ms = rounded_ms (clock t), critical = crit,
                          details = None, dep_error = Some (describe_error e)\<rparr>))"

text \<open>The warning a probe that found its dependency down has written.\<close>

definition probe_log :: "dependency_health \<Rightarrow> string list" where
  "probe_log d =
     (case dep_error d of
        Some m \<Rightarrow> [''Health probe '' @ [CHR 0x22] @ dep_name d @ [CHR 0x22] @ '' failed: '' @ m]
      | None \<Rightarrow> [])"

section \<open>The report\<close>

datatype overall = Ok | Degraded | Failed

text \<open>Ordered by severity.\<close>

fun severity :: "overall \<Rightarrow> nat" where
  "severity Ok = 0"
| "severity Degraded = 1"
| "severity Failed = 2"

instantiation overall :: linorder
begin

definition less_eq_overall :: "overall \<Rightarrow> overall \<Rightarrow> bool" where
  "less_eq_overall a b \<longleftrightarrow> severity a \<le> severity b"

definition less_overall :: "overall \<Rightarrow> overall \<Rightarrow> bool" where
  "less_overall a b \<longleftrightarrow> severity a < severity b"

instance
proof
  show "a = b" if "a \<le> b" "b \<le> a" for a b :: overall
    using that by (cases a; cases b) (simp_all add: less_eq_overall_def)
qed (auto simp: less_eq_overall_def less_overall_def)

end

definition overall_status :: "dependency_health list \<Rightarrow> overall" where
  "overall_status deps =
     (let failed = filter (\<lambda>d. dep_status d = Down) deps
      in if list_ex critical failed then Failed
         else if length failed > 0 then Degraded else Ok)"

text \<open>
  What both reports say of the instance, and what they found: the database's check for the
  liveness check, one entry per dependency for the detailed report.
\<close>

record 'a health_report =
  report_status :: overall
  service :: string
  version :: string
  timestamp :: string
  uptime :: int
  found :: 'a

definition uptime_s :: "instance_info \<Rightarrow> int \<Rightarrow> int" where
  "uptime_s inst now = (now - started_at inst) div 1000"

definition health_report :: "instance_info \<Rightarrow> clocks \<Rightarrow> nat \<Rightarrow> overall \<Rightarrow> 'a \<Rightarrow> 'a health_report" where
  "health_report inst cl t st x =
     \<lparr>report_status = st,
      service = ''a2a-agent-layer'',
      version = (case package_version inst of None \<Rightarrow> ''0.1.0'' | Some v \<Rightarrow> v),
      timestamp = iso_date cl t,
      uptime = uptime_s inst (now_ms cl t),
      found = x\<rparr>"

definition blockchain_call :: "nat call \<Rightarrow> nat option call" where
  "blockchain_call c = map_option (map_prod id (map_sum id Some)) c"

definition database_call :: "unit call \<Rightarrow> nat option call" where
  "database_call c = map_option (map_prod id (map_sum id (\<lambda>_. None))) c"

text \<open>The probes run together; the report is ready when the slower one answers.\<close>

definition health_detail ::
    "instance_info \<Rightarrow> clocks \<Rightarrow> unit call \<Rightarrow> nat call \<Rightarrow> nat \<times> dependency_health list health_report" where
  "health_detail inst cl database chain =
     (let timeout = nat (check_timeout_ms (timeout_setting inst));
          (t1, d1) = probe (elapsed_ns cl) ''database'' True timeout (database_call database);
          (t2, d2) = probe (elapsed_ns cl) ''blockchain'' False timeout (blockchain_call chain);
          t = max t1 t2
      in (t, health_report inst cl t (overall_status [d1, d2]) [d1, d2]))"

record database_check =
  check_status :: dependency_state
  check_latency :: nat
  check_error :: "string option"

definition check_database :: "unit call \<Rightarrow> (nat \<times> database_check) option" where
  "check_database c =
     (case c of
        None \<Rightarrow> None
      | Some (t, Inr _) \<Rightarrow> Some (t, \<lparr>check_status = Up, check_latency = t, check_error = None\<rparr>)
      | Some (t, Inl e) \<Rightarrow> Some (t, \<lparr>check_status = Down, check_latency = t,
          check_error = Some (if failure_is_error e then (case failure_message e of Some m \<Rightarrow> m | None \<Rightarrow> [])
                              else ''Unknown error'')\<rparr>))"

definition health_check :: "instance_info \<Rightarrow> clocks \<Rightarrow> unit call \<Rightarrow> (nat \<times> database_check health_report) option" where
  "health_check inst cl c =
     map_option (\<lambda>(t, d). (t, health_report inst cl t (if check_status d = Up then Ok else Degraded) d)) (check_database c)"

definition readiness :: "unit call \<Rightarrow> (nat \<times> bool) option" where
  "readiness c = (case c of None \<Rightarrow> None | Some (t, Inr _) \<Rightarrow> Some (t, True) | Some (t, Inl _) \<Rightarrow> Some (t, False))"

section \<open>Lemmas\<close>

text \<open>A dependency that answers in time.\<close>

definition answers_in_time :: "nat \<Rightarrow> 'a call \<Rightarrow> bool" where
  "answers_in_time timeout c \<longleftrightarrow> (case c of Some (t, Inr _) \<Rightarrow> t < timeout | _ \<Rightarrow> False)"

lemma answers_in_time_answer: "answers_in_time timeout c \<Longrightarrow> \<exists>t d. c = Some (t, Inr d) \<and> t < timeout"
  by (cases c; cases "snd (the c)") (auto simp: answers_in_time_def)

lemma first_named_not_blank: "first_named vs = Some v \<Longrightarrow> js_trim v \<noteq> []"
  by (induction vs rule: first_named.induct) (auto split: if_splits)

lemma describe_error_not_blank: "js_trim (describe_error e) \<noteq> []"
proof -
  have "js_trim ''Unknown error'' \<noteq> []" by code_simp
  then show ?thesis by (auto simp: describe_error_def dest: first_named_not_blank split: option.split)
qed

lemma race_in_time: "fst (race timeout c) \<le> timeout"
  by (auto simp: race_def Let_def split: option.split prod.split)

lemma race_result: "(\<exists>d. snd (race timeout c) = Inr d) \<longleftrightarrow> answers_in_time timeout c"
  by (auto simp: race_def answers_in_time_def Let_def split: option.split prod.split sum.split)

lemma probe_status: "dep_status (snd (probe clock name crit timeout c)) = (if answers_in_time timeout c then Up else Down)"
  using race_result [of timeout c] by (auto simp: probe_def split: prod.split sum.split)

lemma probe_fields [simp]:
  "critical (snd (probe clock name crit timeout c)) = crit" "dep_name (snd (probe clock name crit timeout c)) = name"
  by (auto simp: probe_def split: prod.split sum.split)

lemma probe_in_time: "fst (probe clock name crit timeout c) \<le> timeout"
  using race_in_time [of timeout c] by (auto simp: probe_def split: prod.split sum.split)

lemma probe_error:
  "dep_status (snd (probe clock name crit timeout c)) = Down \<longleftrightarrow>
     (\<exists>m. dep_error (snd (probe clock name crit timeout c)) = Some m \<and> js_trim m \<noteq> [])"
  by (auto simp: probe_def describe_error_not_blank split: prod.split sum.split)

lemma answers_in_time_calls [simp]:
  "answers_in_time timeout (database_call c) = answers_in_time timeout c"
  "answers_in_time timeout (blockchain_call b) = answers_in_time timeout b"
  by (auto simp: answers_in_time_def database_call_def blockchain_call_def split: option.split sum.split)

text \<open>The overall status is the worst that any dependency calls for.\<close>

definition calls_for :: "dependency_health \<Rightarrow> overall" where
  "calls_for d = (if dep_status d = Up then Ok else if critical d then Failed else Degraded)"

lemma severity_le: "severity a \<le> 2" by (cases a) simp_all

lemma Ok_least [simp]: "Ok \<le> a" and Failed_greatest [simp]: "a \<le> Failed"
  by (cases a; simp add: less_eq_overall_def)+

lemma overall_status_worst: "overall_status deps = fold (\<lambda>d. max (calls_for d)) deps Ok"
proof -
  have "fold (\<lambda>d. max (calls_for d)) deps a = max a (overall_status deps)" for a
  proof (induction deps arbitrary: a)
    case Nil
    show ?case by (simp add: overall_status_def max_absorb1)
  next
    case (Cons d deps)
    have step: "overall_status (d # deps) = max (calls_for d) (overall_status deps)"
      by (cases "dep_status d"; cases "critical d")
        (auto simp: overall_status_def calls_for_def Let_def max_def less_eq_overall_def filter_empty_conv)
    show ?case
      by (simp only: fold_Cons comp_def Cons.IH step) (simp only: max.assoc max.commute max.left_commute)
  qed
  from this [of Ok] show ?thesis by (simp add: max_absorb2)
qed

lemma health_detail_eq:
  "health_detail inst cl database chain =
     (let p = probe (elapsed_ns cl) ''database'' True (nat (check_timeout_ms (timeout_setting inst))) (database_call database);
          q = probe (elapsed_ns cl) ''blockchain'' False (nat (check_timeout_ms (timeout_setting inst))) (blockchain_call chain)
      in (max (fst p) (fst q), health_report inst cl (max (fst p) (fst q)) (overall_status [snd p, snd q]) [snd p, snd q]))"
  by (simp add: health_detail_def Let_def split: prod.split)

lemma report_found [simp]: "found (health_report inst cl t st x) = x" "report_status (health_report inst cl t st x) = st"
  by (simp_all add: health_report_def)

lemma probe_logs_failure:
  "probe_log (snd (probe clock name crit timeout c)) \<noteq> [] \<longleftrightarrow> \<not> answers_in_time timeout c"
  using probe_status [of clock name crit timeout c]
  by (auto simp: probe_def probe_log_def split: prod.splits sum.splits if_splits)

section \<open>Properties\<close>


text \<open>
  Only the detailed report is bounded. It always answers, within the timeout, even if both
  dependencies hang; the liveness and the readiness check, which have no timeout, answer exactly
  if the database's query settles, and then at the time it does.
\<close>

theorem health_endpoints_answer:
  "fst (health_detail inst cl database chain) \<le> nat (check_timeout_ms (timeout_setting inst)) \<and>
   0 < check_timeout_ms (timeout_setting inst) \<and>
   map_option fst (health_check inst cl database) = map_option fst database \<and>
   map_option fst (readiness database) = map_option fst database"
  using probe_in_time [of "elapsed_ns cl" "''database''" True "nat (check_timeout_ms (timeout_setting inst))" "database_call database"]
    probe_in_time [of "elapsed_ns cl" "''blockchain''" False "nat (check_timeout_ms (timeout_setting inst))" "blockchain_call chain"]
  by (auto simp: health_detail_eq health_check_def check_database_def readiness_def check_timeout_ms_def
      positive_int_pos Let_def split: prod.split option.split sum.split)

text \<open>
  The reports agree. Where the detailed report calls the service in order, the liveness check,
  asked of the same database at the same moment, says so too and was made by the same instance;
  the two can differ when the database is slow or only the node is down. A report's uptime is the
  whole seconds since the start: it never runs ahead and lags less than one second.
\<close>

theorem health_reports_agree:
  assumes "report_status (snd (health_detail inst cl database chain)) = Ok"
  obtains t r where "health_check inst cl database = Some (t, r)" and "report_status r = Ok"
    and "t < nat (check_timeout_ms (timeout_setting inst))"
    and "service r = service (snd (health_detail inst cl database chain))"
    and "version r = version (snd (health_detail inst cl database chain))"
    and "uptime r * 1000 \<le> now_ms cl t - started_at inst" and "now_ms cl t - started_at inst < (uptime r + 1) * 1000"
proof -
  have "answers_in_time (nat (check_timeout_ms (timeout_setting inst))) database"
    using assms by (simp add: health_detail_eq Let_def overall_status_def probe_status split: if_splits)
  then obtain t u where db: "database = Some (t, Inr u)" and t: "t < nat (check_timeout_ms (timeout_setting inst))"
    by (auto dest: answers_in_time_answer)
  show ?thesis
  proof (rule that)
    show "health_check inst cl database = Some (t, health_report inst cl t Ok \<lparr>check_status = Up, check_latency = t, check_error = None\<rparr>)"
      by (simp add: db health_check_def check_database_def)
  qed (use t in \<open>simp_all add: health_detail_eq Let_def health_report_def uptime_s_def\<close>)
qed

end
