(* ===== verification/Http_Metrics.thy ===== *)
theory Http_Metrics
  imports Complex_Main Js_Regex
begin

text \<open>
  The HTTP series (\<open>src/src/observability/metrics.service.ts\<close>, \<open>http-metrics.middleware.ts\<close> and
  \<open>controller-metrics.interceptor.ts\<close>): labels, the middleware that counts every request once,
  as a step relation over the events of many open requests, and the scrape with its collectors.
  The metrics library is outside the repository: the state is the calls made to it.
\<close>

section \<open>Labels\<close>

text \<open>
  Upper case. The three code units up to 255 whose upper case lies outside that range or has two
  letters are left alone: they never occur in the names it is compared with.
\<close>

definition char_upper :: "char \<Rightarrow> char" where
  "char_upper c =
     (if is_lower c \<or> (char_in CHR 0xE0 CHR 0xFE c \<and> c \<noteq> CHR 0xF7)
      then char_of (of_char c - (32::nat)) else c)"

definition js_upper :: "string \<Rightarrow> string" where
  "js_upper s = map char_upper s"

definition known_methods :: "string list" where
  "known_methods = [''GET'', ''POST'', ''PUT'', ''PATCH'', ''DELETE'', ''HEAD'', ''OPTIONS'']"

definition normalize_method :: "string option \<Rightarrow> string" where
  "normalize_method m =
     (let upper = js_upper (case m of None \<Rightarrow> [] | Some x \<Rightarrow> x)
      in if upper \<in> set known_methods then upper else ''OTHER'')"

definition controller_suffix :: string where
  "controller_suffix = ''Controller''"

text \<open>\<open>className.replace(/Controller$/, '')\<close>, in lower case unless nothing is left.\<close>

definition controller_label :: "string \<Rightarrow> string" where
  "controller_label class_name =
     (let base = (if controller_suffix = drop (length class_name - length controller_suffix) class_name
                  then take (length class_name - length controller_suffix) class_name else class_name)
      in js_lower (if base = [] then class_name else base))"

section \<open>The series\<close>

record http_metrics =
  http_requests :: "(string \<times> string) list"
  http_duration :: "((string \<times> string) \<times> rat) list"
  http_in_flight :: int

definition new_http_metrics :: http_metrics where
  "new_http_metrics = \<lparr>http_requests = [], http_duration = [], http_in_flight = 0\<rparr>"

definition observe_http_request :: "string \<Rightarrow> nat \<Rightarrow> rat \<Rightarrow> http_metrics \<Rightarrow> http_metrics" where
  "observe_http_request m status_code seconds x =
     (let labels = (normalize_method (Some m), nat_str status_code)
      in x\<lparr>http_requests := http_requests x @ [labels], http_duration := http_duration x @ [(labels, seconds)]\<rparr>)"

section \<open>The middleware\<close>

text \<open>
  A request the middleware follows: the closure's variables, and whether each of its two one-shot
  listeners is still installed.
\<close>

record tracked =
  tracked_method :: string
  started_at :: int
  settled :: bool
  finish_armed :: bool
  close_armed :: bool

record http_server =
  series :: http_metrics
  tracked_requests :: "tracked list"

definition untracked_path :: "string option \<Rightarrow> string option \<Rightarrow> bool" where
  "untracked_path original_url url \<longleftrightarrow>
     hd (js_split CHR ''?'' (case original_url of Some u \<Rightarrow> u | None \<Rightarrow> (case url of Some u \<Rightarrow> u | None \<Rightarrow> []))) = ''/metrics''"

text \<open>\<open>now\<close> is the reading of the monotonic clock in nanoseconds.\<close>

definition http_metrics_use ::
    "string option \<Rightarrow> string option \<Rightarrow> string \<Rightarrow> int \<Rightarrow> http_server \<Rightarrow> http_server" where
  "http_metrics_use original_url url m now s =
     (if untracked_path original_url url then s
      else s\<lparr>series := (series s)\<lparr>http_in_flight := http_in_flight (series s) + 1\<rparr>,
             tracked_requests := tracked_requests s @
               [\<lparr>tracked_method = m, started_at = now, settled = False, finish_armed = True, close_armed = True\<rparr>]\<rparr>)"

definition settle :: "nat \<Rightarrow> nat \<Rightarrow> int \<Rightarrow> http_server \<Rightarrow> http_server" where
  "settle i status_code now s =
     (let t = tracked_requests s ! i
      in if settled t then s
         else s\<lparr>tracked_requests := (tracked_requests s)[i := t\<lparr>settled := True\<rparr>],
                series := observe_http_request (tracked_method t) status_code (of_int (now - started_at t) / 10 ^ 9)
                  ((series s)\<lparr>http_in_flight := http_in_flight (series s) - 1\<rparr>)\<rparr>)"

text \<open>The listeners: each removes itself before it runs. \<open>ended\<close> is \<open>res.writableEnded\<close>.\<close>

definition on_finish :: "nat \<Rightarrow> nat \<Rightarrow> int \<Rightarrow> http_server \<Rightarrow> http_server" where
  "on_finish i status_code now s =
     (if i < length (tracked_requests s) \<and> finish_armed (tracked_requests s ! i)
      then settle i status_code now (s\<lparr>tracked_requests := (tracked_requests s)[i := (tracked_requests s ! i)\<lparr>finish_armed := False\<rparr>]\<rparr>)
      else s)"

definition on_close :: "nat \<Rightarrow> bool \<Rightarrow> nat \<Rightarrow> int \<Rightarrow> http_server \<Rightarrow> http_server" where
  "on_close i ended status_code now s =
     (if i < length (tracked_requests s) \<and> close_armed (tracked_requests s ! i)
      then settle i (if ended then status_code else 499) now
             (s\<lparr>tracked_requests := (tracked_requests s)[i := (tracked_requests s ! i)\<lparr>close_armed := False\<rparr>]\<rparr>)
      else s)"

definition new_http_server :: http_server where
  "new_http_server = \<lparr>series = new_http_metrics, tracked_requests = []\<rparr>"

text \<open>Requests arrive, finish and close in any order and number.\<close>

inductive http_reachable :: "http_server \<Rightarrow> bool" where
  start: "http_reachable new_http_server"
| arrive: "http_reachable s \<Longrightarrow> http_reachable (http_metrics_use original_url url m now s)"
| finish: "http_reachable s \<Longrightarrow> http_reachable (on_finish i status_code now s)"
| close: "http_reachable s \<Longrightarrow> http_reachable (on_close i ended status_code now s)"

section \<open>The scrape\<close>

text \<open>Every collector runs and its failure is caught; \<open>render\<close> is the library's exposition of the registry.\<close>

fun run_collectors :: "('w, unit) io list \<Rightarrow> ('w, unit) io" where
  "run_collectors [] = io_return ()"
| "run_collectors (c # cs) = io_bind (io_catch c (\<lambda>e. io_return ())) (\<lambda>_. run_collectors cs)"

definition scrape :: "('w, unit) io list \<Rightarrow> ('w, string) io \<Rightarrow> ('w, string) io" where
  "scrape collectors render = io_bind (run_collectors collectors) (\<lambda>_. render)"

section \<open>Lemmas\<close>

lemma length_filter_update:
  "i < length xs \<Longrightarrow> length (filter P (xs[i := y])) + (if P (xs ! i) then 1 else 0) =
     length (filter P xs) + (if P y then 1 else 0)"
proof (induction xs arbitrary: i)
  case Nil
  then show ?case by simp
next
  case (Cons x xs)
  then show ?case by (cases i) auto
qed

lemma length_filter_same:
  "i < length xs \<Longrightarrow> P y = P (xs ! i) \<Longrightarrow> length (filter P (xs[i := y])) = length (filter P xs)"
  using length_filter_update [of i xs P y] by (simp split: if_splits)

definition open_requests :: "http_server \<Rightarrow> nat" where
  "open_requests s = length (filter (\<lambda>t. \<not> settled t) (tracked_requests s))"

definition settled_requests :: "http_server \<Rightarrow> nat" where
  "settled_requests s = length (filter settled (tracked_requests s))"

definition method_labels :: "string set" where
  "method_labels = insert ''OTHER'' (set known_methods)"

lemma normalize_method_label [simp]: "normalize_method m \<in> method_labels"
  by (simp add: normalize_method_def method_labels_def Let_def)

definition http_series_ok :: "http_server \<Rightarrow> bool" where
  "http_series_ok s \<longleftrightarrow>
     http_in_flight (series s) = int (open_requests s) \<and>
     length (http_requests (series s)) = settled_requests s \<and>
     map fst (http_duration (series s)) = http_requests (series s) \<and>
     fst ` set (http_requests (series s)) \<subseteq> method_labels \<and>
     list_all (\<lambda>t. settled t \<longleftrightarrow> \<not> (finish_armed t \<and> close_armed t)) (tracked_requests s)"

lemma http_metrics_use_ok: "http_series_ok s \<Longrightarrow> http_series_ok (http_metrics_use ou url m now s)"
  by (simp add: http_metrics_use_def http_series_ok_def open_requests_def settled_requests_def)

text \<open>An event at a request that it settles, or that has been settled before.\<close>

lemma settle_ok:
  assumes ok: "http_series_ok s" and i: "i < length (tracked_requests s)"
    and t: "t = tracked_requests s ! i" and same: "settled t' = settled t" "\<not> (finish_armed t' \<and> close_armed t')"
  shows "http_series_ok (settle i st now (s\<lparr>tracked_requests := (tracked_requests s)[i := t']\<rparr>))"
proof (cases "settled t")
  case True
  have "list_all (\<lambda>t. settled t \<longleftrightarrow> \<not> (finish_armed t \<and> close_armed t)) ((tracked_requests s)[i := t'])"
    using ok True same by (auto simp: http_series_ok_def list_all_iff dest!: set_update_subset_insert [THEN subsetD])
  then show ?thesis using assms True
    by (simp add: settle_def http_series_ok_def open_requests_def settled_requests_def length_filter_same)
next
  case False
  have "list_all (\<lambda>t. settled t \<longleftrightarrow> \<not> (finish_armed t \<and> close_armed t)) ((tracked_requests s)[i := t'\<lparr>settled := True\<rparr>])"
    using ok same by (auto simp: http_series_ok_def list_all_iff dest!: set_update_subset_insert [THEN subsetD])
  moreover have "length (filter settled ((tracked_requests s)[i := t'\<lparr>settled := True\<rparr>])) = Suc (settled_requests s)"
    using length_filter_update [OF i, of settled "t'\<lparr>settled := True\<rparr>"] False t by (simp add: settled_requests_def)
  moreover have "Suc (length (filter (\<lambda>t. \<not> settled t) ((tracked_requests s)[i := t'\<lparr>settled := True\<rparr>]))) = open_requests s"
    using length_filter_update [OF i, of "\<lambda>t. \<not> settled t" "t'\<lparr>settled := True\<rparr>"] False t by (simp add: open_requests_def)
  ultimately show ?thesis using ok i False same
    by (simp add: settle_def http_series_ok_def open_requests_def settled_requests_def observe_http_request_def Let_def)
qed

lemma on_finish_ok: "http_series_ok s \<Longrightarrow> http_series_ok (on_finish i st now s)"
  by (auto simp: on_finish_def intro!: settle_ok)

lemma on_close_ok: "http_series_ok s \<Longrightarrow> http_series_ok (on_close i ended st now s)"
  by (auto simp: on_close_def simp del: if_split intro!: settle_ok split: if_split)

lemma http_reachable_ok: "http_reachable s \<Longrightarrow> http_series_ok s"
proof (induction rule: http_reachable.induct)
  case start
  show ?case
    by (simp add: new_http_server_def new_http_metrics_def http_series_ok_def open_requests_def settled_requests_def)
qed (simp_all add: http_metrics_use_ok on_finish_ok on_close_ok)

section \<open>Properties\<close>

text \<open>
  C23: The in-flight gauge never drifts and no request is counted twice. However the arrivals,
  the finish events and the close events of any number of requests interleave, the gauge is the
  number of requests that have neither finished nor closed, every other request has been counted
  and timed exactly once, under one of eight method labels.
\<close>

theorem in_flight_exact:
  assumes "http_reachable s"
  shows "http_in_flight (series s) = int (open_requests s) \<and>
    length (http_requests (series s)) + open_requests s = length (tracked_requests s) \<and>
    map fst (http_duration (series s)) = http_requests (series s) \<and>
    fst ` set (http_requests (series s)) \<subseteq> method_labels \<and>
    list_all (\<lambda>t. settled t \<longleftrightarrow> \<not> (finish_armed t \<and> close_armed t)) (tracked_requests s)"
  using http_reachable_ok [OF assms] sum_length_filter_compl [of settled "tracked_requests s"]
  by (simp add: http_series_ok_def settled_requests_def open_requests_def)

definition demo_server :: http_server where
  "demo_server = on_close 0 True 200 30 (on_finish 0 200 20 (http_metrics_use (Some ''/agents?page=1'') None ''get'' 10
     (http_metrics_use (Some ''/metrics?x'') None ''GET'' 5 new_http_server)))"

theorem in_flight_exact_witness:
  "http_in_flight (series demo_server) = 0 \<and> http_requests (series demo_server) = [(''GET'', ''200'')]"
proof -
  have "http_reachable demo_server"
    unfolding demo_server_def by (intro http_reachable.intros)
  from in_flight_exact [OF this]
  have "http_in_flight (series demo_server) = int (open_requests demo_server)" by blast
  moreover have "open_requests demo_server = 0" by code_simp
  moreover have "http_requests (series demo_server) = [(''GET'', ''200'')]" by code_simp
  ultimately show ?thesis by simp
qed

text \<open>
  A scrape survives its collectors. Whatever collectors are registered and however they
  fail, all of them run, in order and each from the state the one before left, and the scrape
  answers with what the registry renders then.
\<close>

theorem scrape_survives_collectors:
  "scrape collectors render w = render (foldl (\<lambda>v c. snd (c v)) w collectors)"
proof -
  have "run_collectors cs w = (Inr (), foldl (\<lambda>v c. snd (c v)) w cs)" for cs
    by (induction cs arbitrary: w) (auto simp: io_bind_def io_catch_def split: prod.splits sum.splits)
  then show ?thesis by (simp add: scrape_def io_bind_def)
qed

end
