(* ===== verification/Tracing.thy ===== *)
theory Tracing
  imports Domain_Gauges
begin

text \<open>
  Tracing (\<open>src/src/observability/traced-blockchain.ts\<close> and \<open>tracing.ts\<close>): the span around a chain
  call, the settings read from the environment, and the life cycle of the exporter. The tracing
  library is outside the repository: a span is the record of the calls made on it.
\<close>

section \<open>Spans\<close>

datatype attribute = Text_Attribute string | Number_Attribute int

record span =
  span_name :: string
  span_attributes :: "(string, attribute) jsmap"
  span_error :: "string option"
  span_exceptions :: "string list"
  span_ends :: nat

definition start_span :: "string \<Rightarrow> string option \<Rightarrow> (string \<times> attribute) list \<Rightarrow> span" where
  "start_span name request_id attributes =
     \<lparr>span_name = name,
      span_attributes = foldl (\<lambda>m p. jsmap_set (fst p) (snd p) m)
        ([(''rpc.system'', Text_Attribute ''jsonrpc'')] @
         (case request_id of None \<Rightarrow> [] | Some i \<Rightarrow> if i = [] then [] else [(''request.id'', Text_Attribute i)]))
        attributes,
      span_error = None, span_exceptions = [], span_ends = 0\<rparr>"

definition set_attribute :: "string \<Rightarrow> attribute \<Rightarrow> span \<Rightarrow> span" where
  "set_attribute k v s = s\<lparr>span_attributes := jsmap_set k v (span_attributes s)\<rparr>"

definition set_error :: "string \<Rightarrow> span \<Rightarrow> span" where
  "set_error m s = s\<lparr>span_error := Some m\<rparr>"

text \<open>
  What the code reads of a result that is an object: \<open>None\<close> for a member that is absent or of
  another type.
\<close>

record receipt_view =
  view_hash :: "string option"
  view_block :: "int option"
  view_status :: "int option"

definition record_receipt :: "receipt_view option \<Rightarrow> span \<Rightarrow> span" where
  "record_receipt result s =
     (case result of None \<Rightarrow> s
      | Some r \<Rightarrow>
         (let s = (case view_hash r of None \<Rightarrow> s | Some h \<Rightarrow> set_attribute ''blockchain.tx_hash'' (Text_Attribute h) s);
              s = (case view_block r of None \<Rightarrow> s | Some b \<Rightarrow> set_attribute ''blockchain.block_number'' (Number_Attribute b) s)
          in if view_status r = Some 0 then set_error ''transaction reverted'' s else s))"

definition end_span :: "span \<Rightarrow> span" where
  "end_span s = s\<lparr>span_ends := span_ends s + 1\<rparr>"

text \<open>
  The call inside its span: \<open>fn\<close> runs on the world together with the span, whose final state is
  returned; \<open>view\<close> reads a result as a receipt.
\<close>

definition traced_call ::
    "string option \<Rightarrow> ('a \<Rightarrow> receipt_view option) \<Rightarrow> string \<Rightarrow> (string \<times> attribute) list \<Rightarrow>
     ('w \<times> span, 'a) io \<Rightarrow> 'w \<Rightarrow> ((exn + 'a) \<times> 'w) \<times> span" where
  "traced_call request_id view name attributes fn w =
     (case fn (w, start_span name request_id attributes) of
        (Inr x, (w', s)) \<Rightarrow> ((Inr x, w'), end_span (record_receipt (view x) s))
      | (Inl e, (w', s)) \<Rightarrow>
          ((Inl e, w'), end_span (set_error (exn_message e)
             (s\<lparr>span_exceptions := span_exceptions s @ [exn_message e]\<rparr>))))"

text \<open>The service's wrapper: a prefix on the name and the host of the node.\<close>

definition blockchain_traced ::
    "string option \<Rightarrow> string \<Rightarrow> ('a \<Rightarrow> receipt_view option) \<Rightarrow> string \<Rightarrow> (string \<times> attribute) list \<Rightarrow>
     ('w \<times> span, 'a) io \<Rightarrow> 'w \<Rightarrow> ((exn + 'a) \<times> 'w) \<times> span" where
  "blockchain_traced request_id rpc_host view operation attributes fn w =
     traced_call request_id view (''blockchain.'' @ operation)
       (foldl (\<lambda>m p. jsmap_set (fst p) (snd p) m) [(''server.address'', Text_Attribute rpc_host)] attributes) fn w"

section \<open>Settings\<close>

record tracing_config =
  tracing_enabled :: bool
  tracing_service_name :: string
  service_version :: string
  environment :: string
  traces_url :: string
  sample_ratio :: rat

text \<open>
  \<open>Number.parseFloat\<close>: the longest prefix that is a decimal literal; \<open>None\<close> is a value that is
  not finite. Exact rationals stand for doubles; exponents that leave their range are outside
  the model.
\<close>

definition js_parse_float :: "string \<Rightarrow> rat option" where
  "js_parse_float text =
     (let t = js_trim_left text;
          (neg, u) = (case t of
                        [] \<Rightarrow> (False, [])
                      | c # cs \<Rightarrow> if c = CHR ''-'' then (True, cs)
                                  else if c = CHR ''+'' then (False, cs) else (False, c # cs));
          ds = takeWhile is_digit u;
          after = dropWhile is_digit u;
          (fs, rest) = (case after of
                          [] \<Rightarrow> ([], [])
                        | c # cs \<Rightarrow> if c = CHR ''.'' then (takeWhile is_digit cs, dropWhile is_digit cs) else ([], after));
          (eneg, es) = (case rest of
                          [] \<Rightarrow> (False, [])
                        | c # cs \<Rightarrow>
                            if c = CHR ''e'' \<or> c = CHR ''E'' then
                              (case cs of
                                 [] \<Rightarrow> (False, [])
                               | d # es \<Rightarrow> if d = CHR ''-'' then (True, takeWhile is_digit es)
                                           else if d = CHR ''+'' then (False, takeWhile is_digit es)
                                           else (False, takeWhile is_digit (d # es)))
                            else (False, []));
          mantissa = (of_nat (digits_val (ds @ fs)) / 10 ^ length fs :: rat);
          scaled = (if eneg then mantissa / 10 ^ digits_val es else mantissa * 10 ^ digits_val es)
      in if ds = [] \<and> fs = [] then None else Some (if neg then - scaled else scaled))"

definition parse_ratio :: "string option \<Rightarrow> rat" where
  "parse_ratio raw =
     (case js_parse_float (case raw of None \<Rightarrow> [] | Some r \<Rightarrow> r) of
        None \<Rightarrow> 1
      | Some p \<Rightarrow> min 1 (max 0 p))"

definition strip_slashes :: "string \<Rightarrow> string" where
  "strip_slashes s = rev (dropWhile (\<lambda>c. c = CHR ''/'') (rev s))"

definition given :: "string option \<Rightarrow> string option" where
  "given t = (case t of None \<Rightarrow> None | Some s \<Rightarrow> if s = [] then None else Some s)"

definition tracing_config_from_env :: "(string \<Rightarrow> string option) \<Rightarrow> tracing_config" where
  "tracing_config_from_env env =
     (let endpoint = given (map_option js_trim (env ''OTEL_EXPORTER_OTLP_ENDPOINT''));
          traces_endpoint = given (map_option js_trim (env ''OTEL_EXPORTER_OTLP_TRACES_ENDPOINT''));
          requested = (case given (env ''OTEL_ENABLED'') of
                         Some v \<Rightarrow> v = ''true''
                       | None \<Rightarrow> endpoint \<noteq> None \<or> traces_endpoint \<noteq> None)
      in \<lparr>tracing_enabled = requested \<and> env ''OTEL_SDK_DISABLED'' \<noteq> Some ''true'',
          tracing_service_name = (case given (map_option js_trim (env ''OTEL_SERVICE_NAME'')) of
            Some s \<Rightarrow> s | None \<Rightarrow> ''a2a-agent-layer''),
          service_version = (case env ''npm_package_version'' of Some v \<Rightarrow> v | None \<Rightarrow> ''0.1.0''),
          environment = (case env ''NODE_ENV'' of Some e \<Rightarrow> e | None \<Rightarrow> ''development''),
          traces_url = (case traces_endpoint of
              Some u \<Rightarrow> u
            | None \<Rightarrow> strip_slashes (case endpoint of Some e \<Rightarrow> e | None \<Rightarrow> ''http://localhost:4318'') @ ''/v1/traces''),
          sample_ratio = parse_ratio (env ''OTEL_TRACES_SAMPLER_ARG'')\<rparr>)"

definition untraced_paths :: "string list" where
  "untraced_paths = [''/health'', ''/health/detail'', ''/ready'', ''/metrics'']"

definition ignore_incoming :: "string option \<Rightarrow> bool" where
  "ignore_incoming url \<longleftrightarrow> hd (js_split CHR ''?'' (case url of None \<Rightarrow> [] | Some u \<Rightarrow> u)) \<in> set untraced_paths"

text \<open>The module variable \<open>sdk\<close>, here the settings of the exporter that runs, if any.\<close>

definition start_tracing :: "tracing_config \<Rightarrow> tracing_config option \<Rightarrow> bool \<times> tracing_config option" where
  "start_tracing cfg sdk =
     (if \<not> tracing_enabled cfg \<or> sdk \<noteq> None then (False, sdk) else (True, Some cfg))"

text \<open>\<open>stopTracing\<close>: clears the variable and yields the exporter to shut down.\<close>

definition stop_tracing :: "tracing_config option \<Rightarrow> tracing_config option \<times> tracing_config option" where
  "stop_tracing sdk = (sdk, None)"

definition is_tracing_started :: "tracing_config option \<Rightarrow> bool" where
  "is_tracing_started sdk \<longleftrightarrow> sdk \<noteq> None"

section \<open>Lemmas\<close>

lemma parse_ratio_bounds: "0 \<le> parse_ratio raw \<and> parse_ratio raw \<le> 1"
  by (auto simp: parse_ratio_def split: option.split)

lemma record_receipt_fields:
  "span_error (record_receipt r s) =
     (if (\<exists>v. r = Some v \<and> view_status v = Some 0) then Some ''transaction reverted'' else span_error s)"
  "span_ends (record_receipt r s) = span_ends s"
  "span_exceptions (record_receipt r s) = span_exceptions s"
  by (auto simp: record_receipt_def set_attribute_def set_error_def Let_def split: option.split)

lemma record_receipt_attributes:
  "k \<notin> {''blockchain.tx_hash'', ''blockchain.block_number''} \<Longrightarrow>
     jsmap_get (span_attributes (record_receipt r s)) k = jsmap_get (span_attributes s) k"
  by (auto simp: record_receipt_def set_attribute_def set_error_def Let_def jsmap_get_set split: option.split)

lemma start_span_fields [simp]:
  "span_error (start_span name request_id attributes) = None"
  "span_ends (start_span name request_id attributes) = 0"
  "span_exceptions (start_span name request_id attributes) = []"
  by (simp_all add: start_span_def)

lemma jsmap_get_foldl_other:
  "k \<notin> fst ` set ps \<Longrightarrow> jsmap_get (foldl (\<lambda>m p. jsmap_set (fst p) (snd p) m) m ps) k = jsmap_get m k"
  by (induction ps arbitrary: m) (auto simp: jsmap_get_set)

section \<open>Properties\<close>

text \<open>
  Tracing a chain call changes nothing but the trace. A traced call returns or throws exactly
  what the call itself does and leaves the world as the call leaves it; its span is ended
  exactly once, it is marked as failed exactly if the call threw or returned the receipt of a
  reverted transaction, and it carries the id of the request.
\<close>

theorem traced_call_transparent:
  assumes fn: "\<And>s. fn (w, s) = (r, (w', s))"
    and "request_id = Some i" "i \<noteq> []" "''request.id'' \<notin> fst ` set attributes"
    and t: "traced_call request_id view name attributes fn w = (outcome, s)"
  shows "outcome = (r, w') \<and> span_ends s = 1 \<and>
    (span_error s \<noteq> None) = (case r of Inl e \<Rightarrow> True | Inr x \<Rightarrow> (case view x of None \<Rightarrow> False | Some v \<Rightarrow> view_status v = Some 0)) \<and>
    span_exceptions s = (case r of Inl e \<Rightarrow> [exn_message e] | Inr x \<Rightarrow> []) \<and>
    jsmap_get (span_attributes s) ''request.id'' = Some (Text_Attribute i)"
proof -
  let ?s = "start_span name request_id attributes"
  have id: "jsmap_get (span_attributes (start_span name request_id attributes)) ''request.id'' = Some (Text_Attribute i)"
    using assms(2-4) by (simp add: start_span_def jsmap_get_foldl_other)
  show ?thesis
  proof (cases r)
    case (Inl e)
    then have "outcome = (r, w')" "s = end_span (set_error (exn_message e) (?s\<lparr>span_exceptions := [exn_message e]\<rparr>))"
      using fn t by (simp_all add: traced_call_def)
    then show ?thesis using id Inl by (simp add: end_span_def set_error_def)
  next
    case (Inr x)
    then have "outcome = (r, w')" and s: "s = end_span (record_receipt (view x) ?s)"
      using fn t by (simp_all add: traced_call_def)
    then show ?thesis
      using id Inr by (auto simp: end_span_def record_receipt_fields record_receipt_attributes split: option.split)
  qed
qed

definition demo_traced :: "(nat \<times> span, string) io" where
  "demo_traced = (\<lambda>(w, s). (Inr ''mined'', (w + 1, s)))"

definition reverted_view :: receipt_view where
  "reverted_view = \<lparr>view_hash = Some ''0x1'', view_block = Some 7, view_status = Some 0\<rparr>"

theorem traced_call_transparent_witness:
  "fst (traced_call (Some ''r1'') (\<lambda>x. Some reverted_view) ''blockchain.x'' [] demo_traced 4) = (Inr ''mined'', 5) \<and>
   span_error (snd (traced_call (Some ''r1'') (\<lambda>x. Some reverted_view) ''blockchain.x'' [] demo_traced 4)) \<noteq> None"
proof -
  have "\<And>s. demo_traced (4, s) = (Inr ''mined'', (5, s))" by (simp add: demo_traced_def)
  from traced_call_transparent [OF this, of "Some ''r1''" "''r1''" "[]" "\<lambda>x. Some reverted_view" "''blockchain.x''"
      "fst (traced_call (Some ''r1'') (\<lambda>x. Some reverted_view) ''blockchain.x'' [] demo_traced 4)"
      "snd (traced_call (Some ''r1'') (\<lambda>x. Some reverted_view) ''blockchain.x'' [] demo_traced 4)"]
  show ?thesis by (simp add: reverted_view_def)
qed

text \<open>
  Tracing is off unless asked for, the kill switch wins, and the sampling ratio is a ratio.
  For every environment the exporter is enabled exactly if it is not disabled by the standard
  switch and either enabled explicitly or, with nothing explicit said, given one of the two
  endpoints; whatever the sampler argument holds, the ratio lies between 0 and 1; and the
  exporter is started at most once until it is stopped.
\<close>

theorem tracing_settings_sound:
  "tracing_enabled (tracing_config_from_env env) =
     (env ''OTEL_SDK_DISABLED'' \<noteq> Some ''true'' \<and>
      (env ''OTEL_ENABLED'' = Some ''true'' \<or>
       (env ''OTEL_ENABLED'' \<in> {None, Some []} \<and>
        (\<exists>k v. k \<in> {''OTEL_EXPORTER_OTLP_ENDPOINT'', ''OTEL_EXPORTER_OTLP_TRACES_ENDPOINT''} \<and> env k = Some v \<and> js_trim v \<noteq> [])))) \<and>
   0 \<le> sample_ratio (tracing_config_from_env env) \<and> sample_ratio (tracing_config_from_env env) \<le> 1 \<and>
   fst (start_tracing cfg (snd (start_tracing cfg' sdk))) =
     (tracing_enabled cfg \<and> sdk = None \<and> \<not> tracing_enabled cfg')"
proof -
  have "tracing_enabled (tracing_config_from_env env) =
     (env ''OTEL_SDK_DISABLED'' \<noteq> Some ''true'' \<and>
      (env ''OTEL_ENABLED'' = Some ''true'' \<or>
       (env ''OTEL_ENABLED'' \<in> {None, Some []} \<and>
        (\<exists>k v. k \<in> {''OTEL_EXPORTER_OTLP_ENDPOINT'', ''OTEL_EXPORTER_OTLP_TRACES_ENDPOINT''} \<and> env k = Some v \<and> js_trim v \<noteq> []))))"
    by (cases "env ''OTEL_ENABLED''"; cases "env ''OTEL_EXPORTER_OTLP_ENDPOINT''";
        cases "env ''OTEL_EXPORTER_OTLP_TRACES_ENDPOINT''")
      (auto simp: tracing_config_from_env_def given_def Let_def)
  moreover have "sample_ratio (tracing_config_from_env env) = parse_ratio (env ''OTEL_TRACES_SAMPLER_ARG'')"
    by (simp add: tracing_config_from_env_def Let_def)
  ultimately show ?thesis using parse_ratio_bounds by (auto simp: start_tracing_def)
qed

end
