(* ===== verification/Config.thy ===== *)
theory Config
  imports Tracing Json
begin

text \<open>
  Settings (\<open>src/src/config/\<close>, \<open>src/src/blockchain/address-registry.ts\<close>, the interval of the
  rollup job and the port of \<open>main.ts\<close>): what the program makes of its environment, including
  what it refuses. The environment is a partial map; files are a parameter.
\<close>

type_synonym env = "string \<Rightarrow> string option"

definition or_default :: "string option \<Rightarrow> string \<Rightarrow> string" where
  "or_default v d = (case v of None \<Rightarrow> d | Some x \<Rightarrow> x)"

section \<open>Security\<close>

text \<open>A message with the variable's name; the dash stands for the source's em dash, U+2014.\<close>

definition required :: "bool \<Rightarrow> env \<Rightarrow> string \<Rightarrow> string \<Rightarrow> exn + string" where
  "required production env name fallback =
     (case given (env name) of
        Some v \<Rightarrow> Inr v
      | None \<Rightarrow>
          if production
          then Inl (Js_Error ''Error'' (name @ '' must be set in production - refusing to start on a development default''))
          else Inr fallback)"

definition int_setting :: "env \<Rightarrow> string \<Rightarrow> int \<Rightarrow> int" where
  "int_setting env name fallback =
     (case js_parse_int (or_default (env name) []) of None \<Rightarrow> fallback | Some p \<Rightarrow> p)"

record security_settings =
  jwt_secret :: string
  jwt_expires_in :: string
  jwt_refresh_expires_in :: string
  api_keys_raw :: string
  api_keys_header :: string
  csrf_secret_setting :: string
  csrf_cookie :: string
  csrf_header :: string
  csrf_ttl :: int
  short_ttl :: int
  short_limit :: int
  long_ttl :: int
  long_limit :: int
  cors_origins :: "string list"
  cors_credentials :: bool
  hsts :: bool
  csp :: string

definition security_settings_of :: "env \<Rightarrow> string \<Rightarrow> string \<Rightarrow> security_settings" where
  "security_settings_of env jwt csrf =
     \<lparr>jwt_secret = jwt,
      jwt_expires_in = or_default (env ''JWT_EXPIRES_IN'') ''1h'',
      jwt_refresh_expires_in = or_default (env ''JWT_REFRESH_EXPIRES_IN'') ''7d'',
      api_keys_raw = or_default (env ''API_KEYS'') [],
      api_keys_header = or_default (env ''API_KEY_HEADER'') ''x-api-key'',
      csrf_secret_setting = csrf,
      csrf_cookie = or_default (env ''CSRF_COOKIE_NAME'') ''a2a.csrf'',
      csrf_header = or_default (env ''CSRF_HEADER_NAME'') ''x-csrf-token'',
      csrf_ttl = int_setting env ''CSRF_TTL_MS'' 3600000,
      short_ttl = int_setting env ''THROTTLE_SHORT_TTL'' 1000,
      short_limit = int_setting env ''THROTTLE_SHORT_LIMIT'' 10,
      long_ttl = int_setting env ''THROTTLE_LONG_TTL'' 60000,
      long_limit = int_setting env ''THROTTLE_LONG_LIMIT'' 100,
      cors_origins = (case env ''CORS_ORIGINS'' of
        None \<Rightarrow> [''http://localhost:3000''] | Some o1 \<Rightarrow> js_split CHR '','' o1),
      cors_credentials = True,
      hsts = (env ''HSTS_ENABLED'' \<noteq> Some ''false''),
      csp = or_default (env ''CSP_POLICY'') (''default-src '' @ [CHR 0x27] @ ''self'' @ [CHR 0x27])\<rparr>"

definition security_config :: "bool \<Rightarrow> env \<Rightarrow> exn + security_settings" where
  "security_config production env =
     (case required production env ''JWT_SECRET'' ''dev-secret-change-me'' of
        Inl e \<Rightarrow> Inl e
      | Inr jwt \<Rightarrow>
          (case required production env ''CSRF_SECRET'' ''dev-csrf-secret-change-me'' of
             Inl e \<Rightarrow> Inl e
           | Inr csrf \<Rightarrow> Inr (security_settings_of env jwt csrf)))"

record throttler =
  throttler_name :: string
  throttler_ttl :: int
  throttler_limit :: int

definition throttlers :: "security_settings \<Rightarrow> throttler list" where
  "throttlers s =
     [\<lparr>throttler_name = ''short'', throttler_ttl = short_ttl s, throttler_limit = short_limit s\<rparr>,
      \<lparr>throttler_name = ''long'', throttler_ttl = long_ttl s, throttler_limit = long_limit s\<rparr>]"

section \<open>Database\<close>

text \<open>A setting is the text of its variable, or a default.\<close>

datatype setting = From_Env string | Default_Text string | Default_Number int

definition get_setting :: "env \<Rightarrow> string \<Rightarrow> setting \<Rightarrow> setting" where
  "get_setting env name d = (case env name of None \<Rightarrow> d | Some v \<Rightarrow> From_Env v)"

record database_options =
  db_host :: setting
  db_port :: setting
  db_user :: setting
  db_password :: setting
  db_name :: setting
  synchronize :: bool
  migrations_run :: bool
  pool_size :: setting
  pool_max :: setting
  pool_min :: setting
  idle_timeout :: setting
  connection_timeout :: setting
  statement_timeout :: setting
  slow_query :: setting
  db_logging :: "string list"

definition database_config :: "env \<Rightarrow> database_options" where
  "database_config env =
     (let node_env = or_default (env ''NODE_ENV'') ''development''
      in \<lparr>db_host = get_setting env ''DATABASE_HOST'' (Default_Text ''localhost''),
          db_port = get_setting env ''DATABASE_PORT'' (Default_Number 5432),
          db_user = get_setting env ''DATABASE_USER'' (Default_Text ''postgres''),
          db_password = get_setting env ''DATABASE_PASSWORD'' (Default_Text ''postgres''),
          db_name = get_setting env ''DATABASE_NAME'' (Default_Text ''agent_db''),
          synchronize = (node_env = ''development''),
          migrations_run = (node_env = ''production''),
          pool_size = get_setting env ''DATABASE_POOL_SIZE'' (Default_Number 20),
          pool_max = get_setting env ''DATABASE_POOL_MAX'' (Default_Number 20),
          pool_min = get_setting env ''DATABASE_POOL_MIN'' (Default_Number 2),
          idle_timeout = get_setting env ''DATABASE_IDLE_TIMEOUT_MS'' (Default_Number 30000),
          connection_timeout = get_setting env ''DATABASE_CONNECT_TIMEOUT_MS'' (Default_Number 5000),
          statement_timeout = get_setting env ''DATABASE_STATEMENT_TIMEOUT_MS'' (Default_Number 15000),
          slow_query = get_setting env ''DATABASE_SLOW_QUERY_MS'' (Default_Number 1000),
          db_logging = (if node_env = ''development'' then [''error'', ''warn''] else [''error''])\<rparr>)"

section \<open>Chain\<close>

record blockchain_settings =
  rpc_url_setting :: string
  private_key_setting :: string

definition blockchain_config :: "env \<Rightarrow> blockchain_settings" where
  "blockchain_config env =
     \<lparr>rpc_url_setting = (case given (env ''BLOCKCHAIN_RPC_URL'') of None \<Rightarrow> ''http://localhost:8545'' | Some u \<Rightarrow> u),
      private_key_setting = (case given (env ''BLOCKCHAIN_PRIVATE_KEY'') of None \<Rightarrow> [] | Some k \<Rightarrow> k)\<rparr>"

text \<open>Numbers are \<open>Number(\<dots>)\<close> of a text, \<open>None\<close> for \<open>NaN\<close>.\<close>

record network_profile =
  network_name :: string
  chain_id :: "rat option"
  rpc_url :: string
  explorer_url :: string
  confirmations :: "rat option"

definition networks :: "env \<Rightarrow> (string \<times> network_profile) list" where
  "networks env =
     [(''prom-testnet'',
       \<lparr>network_name = ''prom-testnet'',
        chain_id = (case env ''PROM_TESTNET_CHAIN_ID'' of None \<Rightarrow> Some 71234 | Some t \<Rightarrow> js_to_number t),
        rpc_url = or_default (env ''PROM_TESTNET_RPC_URL'') [],
        explorer_url = or_default (env ''PROM_TESTNET_EXPLORER_URL'') [],
        confirmations = (case env ''BLOCKCHAIN_CONFIRMATIONS'' of None \<Rightarrow> Some 3 | Some t \<Rightarrow> js_to_number t)\<rparr>)]"

text \<open>
  The lookup is by own member: the names every JavaScript object inherits, such as
  \<open>constructor\<close>, are outside the model.
\<close>

definition active_network :: "env \<Rightarrow> exn + network_profile" where
  "active_network env =
     (let key = or_default (env ''PROM_NETWORK'') ''prom-testnet''
      in case map_of (networks env) key of
           None \<Rightarrow> Inl (Js_Error ''Error'' (''Unknown network '' @ key))
         | Some net \<Rightarrow> Inr net)"

record contract_addresses =
  agent_registry :: "json option"
  service_catalog :: "json option"
  tariff_manager :: "json option"

text \<open>
  \<open>process.env.X || base.X\<close>; reading a member of \<open>null\<close> throws, of any other value that is no object
  finds none of these names.
\<close>

definition env_or_member :: "env \<Rightarrow> string \<Rightarrow> json \<Rightarrow> string \<Rightarrow> exn + json option" where
  "env_or_member env name base k =
     (case given (env name) of
        Some v \<Rightarrow> Inr (Some (JStr v))
      | None \<Rightarrow>
          (case base of
             JObj ps \<Rightarrow> Inr (map_of ps k)
           | JNull \<Rightarrow> Inl (Js_Error ''TypeError'' (''Cannot read properties of null (reading '' @ [CHR 0x27] @ k @ [CHR 0x27] @ '')''))
           | _ \<Rightarrow> Inr None))"

text \<open>Steps that may throw, one after the other.\<close>

definition attempt :: "exn + 'a \<Rightarrow> ('a \<Rightarrow> exn + 'b) \<Rightarrow> exn + 'b" where
  "attempt r k = (case r of Inl e \<Rightarrow> Inl e | Inr x \<Rightarrow> k x)"

text \<open>
  \<open>file_at path\<close> is \<open>None\<close> if there is no file, else what parsing its content gives or throws.
\<close>

definition read_addresses :: "env \<Rightarrow> (string \<Rightarrow> (exn + json) option) \<Rightarrow> exn + contract_addresses" where
  "read_addresses env file_at =
     attempt (active_network env) (\<lambda>net.
     attempt (case file_at (''deployments/'' @ network_name net @ ''.json'') of None \<Rightarrow> Inr (JObj []) | Some r \<Rightarrow> r) (\<lambda>base.
     attempt (env_or_member env ''AGENT_REGISTRY_ADDRESS'' base ''AgentRegistry'') (\<lambda>a.
     attempt (env_or_member env ''SERVICE_CATALOG_ADDRESS'' base ''ServiceCatalog'') (\<lambda>s.
     attempt (env_or_member env ''TARIFF_MANAGER_ADDRESS'' base ''TariffManager'') (\<lambda>t.
     Inr \<lparr>agent_registry = a, service_catalog = s, tariff_manager = t\<rparr>)))))"

text \<open>The module's cache is threaded through.\<close>

definition contract_addresses_at ::
    "env \<Rightarrow> (string \<Rightarrow> (exn + json) option) \<Rightarrow> (contract_addresses option, contract_addresses) io" where
  "contract_addresses_at env file_at cache =
     (case cache of
        Some a \<Rightarrow> (Inr a, cache)
      | None \<Rightarrow> (case read_addresses env file_at of Inl e \<Rightarrow> (Inl e, cache) | Inr a \<Rightarrow> (Inr a, Some a)))"

section \<open>The rollup interval and the port\<close>

definition rollup_interval_ms :: "env \<Rightarrow> rat option" where
  "rollup_interval_ms env =
     (case env ''METERING_ROLLUP_INTERVAL_MS'' of None \<Rightarrow> Some 3600000 | Some t \<Rightarrow> js_to_number t)"

text \<open>
  \<open>setInterval\<close> as documented: a delay below 1, above \<open>2\<^sup>3\<^sup>1 - 1\<close> or \<open>NaN\<close> becomes 1, others are
  truncated to whole milliseconds.
\<close>

definition timer_delay :: "rat option \<Rightarrow> int" where
  "timer_delay d = (case d of None \<Rightarrow> 1 | Some x \<Rightarrow> if x < 1 \<or> 2147483647 < x then 1 else \<lfloor>x\<rfloor>)"

text \<open>\<open>Number.parseInt(process.env.PORT ?? '', 10) || 3001\<close>.\<close>

definition listen_port :: "env \<Rightarrow> int" where
  "listen_port env =
     (case js_parse_int (or_default (env ''PORT'') []) of None \<Rightarrow> 3001 | Some p \<Rightarrow> if p = 0 then 3001 else p)"

section \<open>Lemmas\<close>

lemma given_Some [simp]: "given x = Some v \<longleftrightarrow> x = Some v \<and> v \<noteq> []"
  by (auto simp: given_def split: option.split)

lemma given_None: "given x = None \<longleftrightarrow> x \<in> {None, Some []}"
  by (auto simp: given_def split: option.split)

lemma attempt_Inr_iff: "attempt r k = Inr y \<longleftrightarrow> (\<exists>x. r = Inr x \<and> k x = Inr y)"
  by (simp add: attempt_def split: sum.split)

lemma env_overrides_file:
  "read_addresses env file_at = Inr a \<Longrightarrow> env ''AGENT_REGISTRY_ADDRESS'' = Some x \<Longrightarrow> x \<noteq> [] \<Longrightarrow>
     agent_registry a = Some (JStr x)"
  by (auto simp: read_addresses_def attempt_Inr_iff env_or_member_def given_def)

section \<open>Properties\<close>

text \<open>
  Production never runs on development secrets. The settings load in production exactly if both
  secrets are set to non-empty texts, and then those texts are the secrets; otherwise loading
  fails with an error and there is no other way it can fail. Outside production they always load.
\<close>

theorem production_needs_secrets:
  "(case security_config True env of
      Inr cfg \<Rightarrow> env ''JWT_SECRET'' = Some (jwt_secret cfg) \<and> env ''CSRF_SECRET'' = Some (csrf_secret_setting cfg) \<and>
        jwt_secret cfg \<noteq> [] \<and> csrf_secret_setting cfg \<noteq> []
    | Inl e \<Rightarrow> env ''JWT_SECRET'' \<in> {None, Some []} \<or> env ''CSRF_SECRET'' \<in> {None, Some []}) \<and>
   (\<exists>cfg. security_config False env = Inr cfg)"
  by (auto simp: security_config_def required_def security_settings_of_def given_None split: option.split sum.split)

text \<open>
  Contract addresses are read once. When a lookup has succeeded, every later one gives the same
  addresses, whatever has become of the environment and the deployment file; a lookup that fails
  is not remembered; and a non-empty variable overrides the file.
\<close>

theorem contract_addresses_stable:
  assumes "contract_addresses_at env file_at cache = (r, cache')"
  shows "(case r of
      Inr a \<Rightarrow> contract_addresses_at env' file_at' cache' = (Inr a, cache')
    | Inl e \<Rightarrow> cache' = cache \<and> cache = None) \<and>
    (cache = None \<and> env ''AGENT_REGISTRY_ADDRESS'' = Some x \<and> x \<noteq> [] \<longrightarrow>
       (case r of Inl e \<Rightarrow> True | Inr a \<Rightarrow> agent_registry a = Some (JStr x)))"
  using assms env_overrides_file [of env file_at _ x]
  by (auto simp: contract_addresses_at_def split: option.splits sum.splits)

definition demo_environment :: env where
  "demo_environment = map_of [(''AGENT_REGISTRY_ADDRESS'', ''0xabc''), (''PROM_NETWORK'', ''prom-testnet'')]"

theorem contract_addresses_stable_witness:
  "contract_addresses_at (\<lambda>_. None) (\<lambda>_. None) (snd (contract_addresses_at demo_environment (\<lambda>_. None) None)) =
   (Inr \<lparr>agent_registry = Some (JStr ''0xabc''), service_catalog = None, tariff_manager = None\<rparr>,
    Some \<lparr>agent_registry = Some (JStr ''0xabc''), service_catalog = None, tariff_manager = None\<rparr>)"
proof -
  let ?a = "\<lparr>agent_registry = Some (JStr ''0xabc''), service_catalog = None, tariff_manager = None\<rparr>"
  have "contract_addresses_at demo_environment (\<lambda>_. None) None = (Inr ?a, Some ?a)" by code_simp
  from contract_addresses_stable [OF this, of "\<lambda>_. None" "\<lambda>_. None"] this
  show ?thesis by simp
qed

text \<open>
  A rollup interval that is no number makes the job run every millisecond. The timer's delay is
  the configured one only if the variable holds a number from 1 to the timer's largest delay; a
  text that is no number, an empty text, zero, a negative number and a too large one all give a
  delay of one millisecond.
\<close>

theorem bad_rollup_interval_runs_constantly:
  "timer_delay (rollup_interval_ms env) =
     (case env ''METERING_ROLLUP_INTERVAL_MS'' of
        None \<Rightarrow> 3600000
      | Some t \<Rightarrow> (case js_to_number t of
            None \<Rightarrow> 1
          | Some x \<Rightarrow> if 1 \<le> x \<and> x \<le> 2147483647 then \<lfloor>x\<rfloor> else 1)) \<and>
   timer_delay (rollup_interval_ms (map_of [(''METERING_ROLLUP_INTERVAL_MS'', ''1h'')])) = 1 \<and>
   timer_delay (rollup_interval_ms (map_of [(''METERING_ROLLUP_INTERVAL_MS'', [])])) = 1"
proof -
  have "js_to_number ''1h'' = None" "js_to_number [] = Some 0" by code_simp+
  then show ?thesis
    by (auto simp: timer_delay_def rollup_interval_ms_def split: option.split)
qed

end
