(* ===== verification/Passwords.thy ===== *)
theory Passwords
  imports Js_String
begin

text \<open>
  Password hashing for operator accounts (\<open>src/src/common/auth/password.service.ts\<close>): the stored
  text \<open>salt:key\<close> in hexadecimal, written and read back. The key derivation and the random salt
  are parameters; a buffer is a list of bytes.
\<close>

type_synonym bytes = "nat list"

section \<open>Hexadecimal buffers\<close>

definition hex_char :: "nat \<Rightarrow> char" where
  "hex_char n = (if n < 10 then char_of (48 + n) else char_of (87 + n))"

text \<open>\<open>buffer.toString('hex')\<close>.\<close>

definition to_hex :: "bytes \<Rightarrow> string" where
  "to_hex bs = concat (map (\<lambda>b. [hex_char (b div 16), hex_char (b mod 16)]) bs)"

section \<open>The service\<close>

definition scrypt_keylen :: nat where
  "scrypt_keylen = 64"

record scrypt_options =
  cost_N :: nat
  block_r :: nat
  parallel_p :: nat
  maxmem :: nat

definition scrypt_params :: scrypt_options where
  "scrypt_params = \<lparr>cost_N = 16384, block_r = 8, parallel_p = 1, maxmem = 64 * 1024 * 1024\<rparr>"

text \<open>\<open>derive password salt keylen options\<close> is the runtime's key derivation.\<close>

type_synonym scrypt = "string \<Rightarrow> string \<Rightarrow> nat \<Rightarrow> scrypt_options \<Rightarrow> bytes"

definition hash_password :: "scrypt \<Rightarrow> bytes \<Rightarrow> string \<Rightarrow> string" where
  "hash_password derive random password =
     (let salt = to_hex random
      in salt @ '':'' @ to_hex (derive password salt scrypt_keylen scrypt_params))"

definition verify_password :: "scrypt \<Rightarrow> string \<Rightarrow> string option \<Rightarrow> bool" where
  "verify_password derive password stored =
     (case js_split CHR '':'' (case stored of None \<Rightarrow> [] | Some s \<Rightarrow> s) of
        salt # key_hex # _ \<Rightarrow>
          if salt = [] \<or> key_hex = [] then False
          else (let stored_key = hex_bytes key_hex
                in if length stored_key \<noteq> scrypt_keylen then False
                   else stored_key = derive password salt scrypt_keylen scrypt_params)
      | _ \<Rightarrow> False)"

section \<open>Lemmas\<close>

lemma hex_char_props:
  assumes "n < 16"
  shows "is_lower_hex (hex_char n)" and "hex_val (hex_char n) = n"
  using assms by (auto simp: hex_char_def hex_val_def is_lower_hex_def is_digit_def char_in_def)

text \<open>Bytes of a buffer.\<close>

definition bytes_wf :: "bytes \<Rightarrow> bool" where
  "bytes_wf bs \<longleftrightarrow> list_all (\<lambda>b. b < 256) bs"

lemma hex_bytes_to_hex: "bytes_wf bs \<Longrightarrow> hex_bytes (to_hex bs) = bs"
proof (induction bs)
  case Nil
  show ?case by (simp add: to_hex_def)
next
  case (Cons b bs)
  have "16 * (b div 16) + b mod 16 = b" by simp
  with Cons show ?case
    by (simp add: to_hex_def bytes_wf_def hex_char_props is_lower_hex_is_hex less_mult_imp_div_less)
qed

lemma to_hex_lower: "bytes_wf bs \<Longrightarrow> list_all is_lower_hex (to_hex bs)"
  by (induction bs) (simp_all add: to_hex_def bytes_wf_def hex_char_props less_mult_imp_div_less)

lemma to_hex_no_colon: "bytes_wf bs \<Longrightarrow> CHR '':'' \<notin> set (to_hex bs)"
  using to_hex_lower [of bs] by (auto simp: list_all_iff is_lower_hex_def is_digit_def char_in_def)

lemma to_hex_Nil [simp]: "to_hex bs = [] \<longleftrightarrow> bs = []"
  by (cases bs) (simp_all add: to_hex_def)

lemma hash_password_split:
  "bytes_wf random \<Longrightarrow> bytes_wf (derive password (to_hex random) scrypt_keylen scrypt_params) \<Longrightarrow> js_split CHR '':'' (hash_password derive random password) =
     [to_hex random, to_hex (derive password (to_hex random) scrypt_keylen scrypt_params)]"
  by (simp add: hash_password_def Let_def js_split_append js_split_no_sep to_hex_no_colon)

section \<open>Properties\<close>

text \<open>
  A stored password verifies exactly the passwords that derive the same key. For a derivation
  that yields keys of the length asked for and a salt that is not empty, checking a password
  against a stored hash succeeds if and only if the derivation with the stored salt gives the
  stored key; the password itself always verifies, and a stored text without a salt, without a
  key or with a key of another length verifies nothing.
\<close>

theorem password_verifies_exactly:
  assumes derive: "\<And>p s k options. length (derive p s k options) = k \<and> bytes_wf (derive p s k options)"
    and random: "random \<noteq> []" "bytes_wf random"
  shows "verify_password derive attempt (Some (hash_password derive random password)) =
      (derive attempt (to_hex random) scrypt_keylen scrypt_params = derive password (to_hex random) scrypt_keylen scrypt_params) \<and>
    verify_password derive password (Some (hash_password derive random password)) \<and>
    \<not> verify_password derive attempt None \<and>
    (verify_password derive attempt (Some stored) \<longrightarrow>
       (\<exists>salt key rest. js_split CHR '':'' stored = salt # key # rest \<and> salt \<noteq> [] \<and> length (hex_bytes key) = scrypt_keylen))"
proof -
  have ne: "derive p (to_hex random) scrypt_keylen scrypt_params \<noteq> []" for p
    using derive [of p "to_hex random" scrypt_keylen scrypt_params] by (auto simp: scrypt_keylen_def)
  have "\<not> verify_password derive attempt None" by (simp add: verify_password_def)
  moreover have "verify_password derive attempt (Some stored) \<longrightarrow>
       (\<exists>salt key rest. js_split CHR '':'' stored = salt # key # rest \<and> salt \<noteq> [] \<and> length (hex_bytes key) = scrypt_keylen)"
    by (auto simp: verify_password_def Let_def split: list.splits if_splits)
  moreover have "verify_password derive p (Some (hash_password derive random password)) \<longleftrightarrow>
      derive p (to_hex random) scrypt_keylen scrypt_params = derive password (to_hex random) scrypt_keylen scrypt_params" for p
    using derive random ne by (auto simp: verify_password_def hash_password_split hex_bytes_to_hex Let_def)
  ultimately show ?thesis by blast
qed

definition demo_scrypt :: scrypt where
  "demo_scrypt p s k options = map (\<lambda>i. (length p + i) mod 256) [0 ..< k]"

theorem password_verifies_exactly_witness:
  "verify_password demo_scrypt ''secret'' (Some (hash_password demo_scrypt [1, 255] ''secret'')) \<and>
   \<not> verify_password demo_scrypt ''guess'' (Some (hash_password demo_scrypt [1, 255] ''secret''))"
proof -
  have ok: "\<And>p s k options. length (demo_scrypt p s k options) = k \<and> bytes_wf (demo_scrypt p s k options)"
    by (simp add: demo_scrypt_def bytes_wf_def list_all_iff)
  have "demo_scrypt ''guess'' (to_hex [1, 255]) scrypt_keylen scrypt_params ! 0 \<noteq>
      demo_scrypt ''secret'' (to_hex [1, 255]) scrypt_keylen scrypt_params ! 0"
    by (simp add: demo_scrypt_def scrypt_keylen_def)
  then show ?thesis
    using password_verifies_exactly [where derive = demo_scrypt and random = "[1, 255]" and attempt = "''guess''"
        and password = "''secret''" and stored = "[]", OF ok] by (auto simp: bytes_wf_def)
qed

end
