(* ===== verification/Business_Metrics.thy ===== *)
theory Business_Metrics
  imports Js_Regex
begin

text \<open>
  The domain event counters (\<open>src/src/observability/business-metrics.service.ts\<close>). The metrics
  library is outside the repository: the state is the calls the service makes to it, the
  increments of the two counters in order and the last values set on the two gauges.
\<close>

record business_metrics =
  decision_incs :: "(string \<times> string) list"
  run_incs :: "string list"
  last_success :: "int option"
  last_buckets :: "nat option"

text \<open>The constructor's increments by zero start the series; they count no event.\<close>

definition new_business_metrics :: business_metrics where
  "new_business_metrics = \<lparr>decision_incs = [], run_incs = [], last_success = None, last_buckets = None\<rparr>"

definition label_char :: "char \<Rightarrow> bool" where
  "label_char c \<longleftrightarrow> is_lower c \<or> is_digit c"

definition strip_underscores :: "string \<Rightarrow> string" where
  "strip_underscores s =
     rev (dropWhile (\<lambda>c. c = CHR ''_'') (rev (dropWhile (\<lambda>c. c = CHR ''_'') s)))"

definition reason_label :: "string \<Rightarrow> string" where
  "reason_label reason =
     (let slug = strip_underscores
            (rx_replace (RPlus (RSet (\<lambda>c. \<not> label_char c))) ''_'' (js_lower reason));
          cut = take 48 slug
      in if cut = [] then ''unspecified'' else cut)"

definition record_policy_decision :: "string \<Rightarrow> string \<Rightarrow> business_metrics \<Rightarrow> business_metrics" where
  "record_policy_decision decision reason m =
     m\<lparr>decision_incs := decision_incs m @ [(decision, reason_label reason)]\<rparr>"

definition record_rollup_run :: "string \<Rightarrow> nat \<Rightarrow> int \<Rightarrow> business_metrics \<Rightarrow> business_metrics" where
  "record_rollup_run outcome buckets now m =
     (let m' = m\<lparr>run_incs := run_incs m @ [outcome]\<rparr>
      in if outcome = ''success'' then m'\<lparr>last_success := Some (now div 1000), last_buckets := Some buckets\<rparr>
         else m')"

section \<open>Labels\<close>

lemma set_strip_underscores: "set (strip_underscores s) \<subseteq> set s"
  unfolding strip_underscores_def by (auto dest!: set_dropWhileD)

lemma strip_underscores_ends:
  "strip_underscores s \<noteq> [] \<Longrightarrow> hd (strip_underscores s) \<noteq> CHR ''_'' \<and> last (strip_underscores s) \<noteq> CHR ''_''"
proof -
  let ?u = "\<lambda>c. c = CHR ''_''"
  assume ne: "strip_underscores s \<noteq> []"
  define t where "t = dropWhile ?u s"
  have t: "strip_underscores s = rev (dropWhile ?u (rev t))" by (simp add: strip_underscores_def t_def)
  then have "last (strip_underscores s) = hd (dropWhile ?u (rev t))"
    using ne by (simp add: last_rev)
  moreover have "dropWhile ?u (rev t) \<noteq> []" using ne t by simp
  then have "hd (dropWhile ?u (rev t)) \<noteq> CHR ''_''" using hd_dropWhile by blast
  moreover have "hd (strip_underscores s) = hd t"
  proof -
    have "t = strip_underscores s @ rev (takeWhile ?u (rev t))"
      unfolding t by (metis rev_append rev_rev_ident takeWhile_dropWhile_id)
    then show ?thesis using ne by (metis hd_append2)
  qed
  moreover have "t \<noteq> []" using ne t by auto
  then have "hd t \<noteq> CHR ''_''" using hd_dropWhile t_def by blast
  ultimately show ?thesis by simp
qed

text \<open>
  Every text becomes a bounded metric label: whatever reason is recorded, the label has
  between 1 and 48 characters, all of them lower-case letters, digits or underscores, and does
  not start with an underscore.
\<close>

theorem reason_label_bounded:
  "reason_label r \<noteq> [] \<and> length (reason_label r) \<le> 48 \<and>
   list_all (\<lambda>c. label_char c \<or> c = CHR ''_'') (reason_label r) \<and> hd (reason_label r) \<noteq> CHR ''_''"
proof -
  define slug where "slug = strip_underscores
    (rx_replace (RPlus (RSet (\<lambda>c. \<not> label_char c))) ''_'' (js_lower r))"
  have label: "reason_label r = (if take 48 slug = [] then ''unspecified'' else take 48 slug)"
    by (simp add: reason_label_def slug_def Let_def)
  show ?thesis
  proof (cases "slug = []")
    case True
    have "reason_label r = ''unspecified''" by (simp add: label True)
    moreover have "''unspecified'' \<noteq> [] \<and> length ''unspecified'' \<le> 48 \<and>
        list_all (\<lambda>c. label_char c \<or> c = CHR ''_'') ''unspecified'' \<and> hd ''unspecified'' \<noteq> CHR ''_''"
      by code_simp
    ultimately show ?thesis by simp
  next
    case False
    then have take: "reason_label r = take 48 slug" by (simp add: label)
    have "set slug \<subseteq> {c. label_char c \<or> c = CHR ''_''}"
      unfolding slug_def
      using set_strip_underscores rx_replace_RPlus_RSet_chars [of "\<lambda>c. \<not> label_char c" "''_''" "js_lower r"]
      by force
    then have "list_all (\<lambda>c. label_char c \<or> c = CHR ''_'') (take 48 slug)"
      by (auto simp: list_all_iff dest!: in_set_takeD)
    moreover have "hd slug \<noteq> CHR ''_''" using strip_underscores_ends False by (simp add: slug_def)
    ultimately show ?thesis using False by (auto simp: take hd_take)
  qed
qed

end
