(* ===== verification/Validators.thy ===== *)
theory Validators
  imports Js_Regex Json
begin

text \<open>
  The field validators with their constraint classes and decorators
  (\<open>src/src/common/validators/field.validators.ts\<close>) and the two route
  parameter pipes (\<open>parse-did.pipe.ts\<close>, \<open>parse-ethereum-address.pipe.ts\<close> under
  \<open>src/src/common/pipes/\<close>). The lemmas compute the language of every pattern, and the
  properties say what the pipes return.
\<close>

section \<open>Patterns\<close>

definition did_method_char :: "char \<Rightarrow> bool" where
  "did_method_char c \<longleftrightarrow> is_lower c \<or> is_digit c"

definition did_id_char :: "char \<Rightarrow> bool" where
  "did_id_char c \<longleftrightarrow> is_lower c \<or> is_upper c \<or> is_digit c \<or> c \<in> {CHR ''.'', CHR ''_'', CHR ''%'', CHR ''-''}"

definition did_pattern :: rx where
  "did_pattern = RSeq (RLit ''did:'') (RSeq (RPlus (RSet did_method_char))
     (RSeq (RChr CHR '':'') (RPlus (RSet did_id_char))))"

definition eth_address_pattern :: rx where
  "eth_address_pattern = RSeq (RLit ''0x'') (RRep 40 (RSet is_hex))"

definition keccak256_pattern :: rx where
  "keccak256_pattern = RSeq (ROpt (RLit ''0x'')) (RRep 64 (RSet is_hex))"

definition decimal_string_pattern :: rx where
  "decimal_string_pattern = RSeq (RPlus (RSet is_digit))
     (ROpt (RSeq (RChr CHR ''.'') (RPlus (RSet is_digit))))"

text \<open>The URL pattern has no end anchor: whatever follows the match is accepted.\<close>

definition url_pattern :: rx where
  "url_pattern = RSeq (RLit ''http'') (RSeq (ROpt (RChr CHR ''s''))
     (RSeq (RLit ''://'') (RSeq (RPlus RDot) (RStar RAny))))"

section \<open>Validators\<close>

text \<open>\<open>typeof value === 'string' && PATTERN.test(value)\<close>.\<close>

definition string_matching :: "rx \<Rightarrow> json \<Rightarrow> bool" where
  "string_matching r v = (case v of JStr s \<Rightarrow> rx_match r s | _ \<Rightarrow> False)"

definition is_did :: "json \<Rightarrow> bool" where
  "is_did = string_matching did_pattern"

definition is_eth_address :: "json \<Rightarrow> bool" where
  "is_eth_address = string_matching eth_address_pattern"

definition is_keccak256_hash :: "json \<Rightarrow> bool" where
  "is_keccak256_hash = string_matching keccak256_pattern"

definition is_decimal_string :: "json \<Rightarrow> bool" where
  "is_decimal_string = string_matching decimal_string_pattern"

definition is_http_url :: "json \<Rightarrow> bool" where
  "is_http_url = string_matching url_pattern"

text \<open>
  The constraint classes: the name a constraint is known by, its test (\<open>None\<close> is an absent member, whose
  \<open>typeof\<close> is not \<open>string\<close>) and the message for what fails it.
\<close>

record 'v constraint =
  constraint_name :: string
  validate :: "'v option \<Rightarrow> bool"
  default_message :: string

definition on_present :: "('v \<Rightarrow> bool) \<Rightarrow> 'v option \<Rightarrow> bool" where
  "on_present P v = (case v of None \<Rightarrow> False | Some x \<Rightarrow> P x)"

definition is_did_constraint :: "json constraint" where
  "is_did_constraint =
     \<lparr>constraint_name = ''isDid'', validate = on_present is_did,
      default_message = ''value must be a valid DID (did:method:id)''\<rparr>"

definition is_eth_address_constraint :: "json constraint" where
  "is_eth_address_constraint =
     \<lparr>constraint_name = ''isEthAddress'', validate = on_present is_eth_address,
      default_message = ''value must be a valid Ethereum address''\<rparr>"

definition is_keccak256_hash_constraint :: "json constraint" where
  "is_keccak256_hash_constraint =
     \<lparr>constraint_name = ''isKeccak256Hash'', validate = on_present is_keccak256_hash,
      default_message = ''value must be a 32-byte hex hash (64 hex chars, optional 0x prefix)''\<rparr>"

definition is_decimal_string_constraint :: "json constraint" where
  "is_decimal_string_constraint =
     \<lparr>constraint_name = ''isDecimalString'', validate = on_present is_decimal_string,
      default_message = ''value must be a non-negative decimal string''\<rparr>"

definition is_http_url_constraint :: "json constraint" where
  "is_http_url_constraint =
     \<lparr>constraint_name = ''isHttpUrl'', validate = on_present is_http_url,
      default_message = ''value must be an http(s) URL''\<rparr>"

text \<open>
  The decorators hand the validation library a constraint for a property of a class. Of the
  library's options the message that replaces the constraint's own is modelled.
\<close>

record 'v registration =
  target_class :: string
  property_name :: string
  option_message :: "string option"
  validator :: "'v constraint"

definition IsDid :: "string option \<Rightarrow> string \<Rightarrow> string \<Rightarrow> json registration" where
  "IsDid options cls prop =
     \<lparr>target_class = cls, property_name = prop, option_message = options, validator = is_did_constraint\<rparr>"

definition IsEthAddress :: "string option \<Rightarrow> string \<Rightarrow> string \<Rightarrow> json registration" where
  "IsEthAddress options cls prop =
     \<lparr>target_class = cls, property_name = prop, option_message = options, validator = is_eth_address_constraint\<rparr>"

definition IsKeccak256Hash :: "string option \<Rightarrow> string \<Rightarrow> string \<Rightarrow> json registration" where
  "IsKeccak256Hash options cls prop =
     \<lparr>target_class = cls, property_name = prop, option_message = options, validator = is_keccak256_hash_constraint\<rparr>"

definition IsDecimalString :: "string option \<Rightarrow> string \<Rightarrow> string \<Rightarrow> json registration" where
  "IsDecimalString options cls prop =
     \<lparr>target_class = cls, property_name = prop, option_message = options, validator = is_decimal_string_constraint\<rparr>"

definition IsHttpUrl :: "string option \<Rightarrow> string \<Rightarrow> string \<Rightarrow> json registration" where
  "IsHttpUrl options cls prop =
     \<lparr>target_class = cls, property_name = prop, option_message = options, validator = is_http_url_constraint\<rparr>"

lemmas decorator_defs = IsDid_def IsEthAddress_def IsKeccak256Hash_def IsDecimalString_def IsHttpUrl_def
  is_did_constraint_def is_eth_address_constraint_def is_keccak256_hash_constraint_def
  is_decimal_string_constraint_def is_http_url_constraint_def

section \<open>Pipes\<close>

record parsed_did =
  did :: string
  did_method :: string
  did_identifier :: string

text \<open>
  The pattern's two groups are what stands before and after the colon that follows \<open>did:\<close>;
  no other split matches, since neither group can hold a colon.
\<close>

definition parse_did :: "string \<Rightarrow> exn + parsed_did" where
  "parse_did v =
     (if rx_match did_pattern v then
        (let rest = drop 4 v; m = takeWhile (\<lambda>c. c \<noteq> CHR '':'') rest
         in Inr \<lparr>did = v, did_method = m, did_identifier = drop (Suc (length m)) rest\<rparr>)
      else Inl (Bad_Request
        (CHR 0x22 # v @ CHR 0x22 # '' is not a valid DID, expected did:method:identifier'')))"

definition parse_ethereum_address :: "string \<Rightarrow> exn + string" where
  "parse_ethereum_address v =
     (if rx_match eth_address_pattern v then Inr (js_lower v)
      else Inl (Bad_Request (CHR 0x22 # v @ CHR 0x22 # '' is not a valid Ethereum address'')))"

section \<open>Languages\<close>

lemma did_pattern_iff:
  "rx_match did_pattern v \<longleftrightarrow>
     (\<exists>m i. v = ''did:'' @ m @ '':'' @ i \<and> m \<noteq> [] \<and> list_all did_method_char m \<and>
        i \<noteq> [] \<and> list_all did_id_char i)"
  unfolding did_pattern_def rx_match_iff
  by (simp only: rx_in_simps(4) rx_in_RLit rx_in_RPlus_RSet rx_in_RChr; blast)

lemma eth_address_pattern_iff:
  "rx_match eth_address_pattern v \<longleftrightarrow> (\<exists>h. v = ''0x'' @ h \<and> length h = 40 \<and> list_all is_hex h)"
  unfolding eth_address_pattern_def rx_match_iff
  by (simp only: rx_in_simps(4) rx_in_RLit rx_in_RRep_RSet; blast)

lemma keccak256_pattern_iff:
  "rx_match keccak256_pattern v \<longleftrightarrow>
     (\<exists>p h. v = p @ h \<and> (p = [] \<or> p = ''0x'') \<and> length h = 64 \<and> list_all is_hex h)"
  unfolding keccak256_pattern_def rx_match_iff
  by (simp only: rx_in_simps(4) rx_in_RLit rx_in_RRep_RSet rx_in_ROpt; blast)

lemma decimal_string_pattern_iff:
  "rx_match decimal_string_pattern v \<longleftrightarrow>
     (\<exists>n f. v = n @ f \<and> n \<noteq> [] \<and> list_all is_digit n \<and>
        (f = [] \<or> (\<exists>d. f = ''.'' @ d \<and> d \<noteq> [] \<and> list_all is_digit d)))"
  unfolding decimal_string_pattern_def rx_match_iff
  by (simp only: rx_in_simps(4) rx_in_RPlus_RSet rx_in_RChr rx_in_ROpt; blast)

lemma url_pattern_iff:
  "rx_match url_pattern v \<longleftrightarrow>
     (\<exists>c rest. (v = ''http://'' @ c # rest \<or> v = ''https://'' @ c # rest) \<and> \<not> is_line_end c)"
proof -
  have tail: "rx_in (RSeq (RPlus RDot) (RStar RAny)) t \<longleftrightarrow> (\<exists>c rest. t = c # rest \<and> \<not> is_line_end c)" for t
  proof
    show "rx_in (RSeq (RPlus RDot) (RStar RAny)) t \<Longrightarrow> \<exists>c rest. t = c # rest \<and> \<not> is_line_end c"
      by (auto simp: RDot_def RAny_def rx_in_simps(4) rx_in_RPlus_RSet neq_Nil_conv)
    assume "\<exists>c rest. t = c # rest \<and> \<not> is_line_end c"
    then obtain c rest where "t = [c] @ rest" "\<not> is_line_end c" by auto
    then show "rx_in (RSeq (RPlus RDot) (RStar RAny)) t"
      by (auto simp only: RDot_def RAny_def intro!: rx_in.seq)
        (simp_all add: rx_in_RPlus_RSet rx_in_RStar_RSet list_all_iff)
  qed
  show ?thesis
    unfolding url_pattern_def rx_match_iff rx_in_RSeq_RLit rx_in_RSeq_ROpt rx_in_RChr tail
    by auto
qed

lemma did_method_char_no_colon: "did_method_char c \<Longrightarrow> c \<noteq> CHR '':''"
  by (auto simp: did_method_char_def is_lower_def is_digit_def char_in_def)

lemma did_id_char_no_colon: "did_id_char c \<Longrightarrow> c \<noteq> CHR '':''"
  by (auto simp: did_id_char_def is_lower_def is_upper_def is_digit_def char_in_def)

lemma takeWhile_colon:
  "list_all did_method_char m \<Longrightarrow> takeWhile (\<lambda>c. c \<noteq> CHR '':'') (m @ CHR '':'' # i) = m"
  by (induction m) (auto simp: did_method_char_no_colon)

lemma parse_did_Inr:
  assumes "m \<noteq> []" and "list_all did_method_char m" and "i \<noteq> []" and "list_all did_id_char i"
  shows "parse_did (''did:'' @ m @ '':'' @ i) =
    Inr \<lparr>did = ''did:'' @ m @ '':'' @ i, did_method = m, did_identifier = i\<rparr>"
proof -
  have "rx_match did_pattern (''did:'' @ m @ '':'' @ i)"
    using assms did_pattern_iff by blast
  then show ?thesis by (simp add: parse_did_def takeWhile_colon assms(2))
qed

section \<open>Properties\<close>

text \<open>
  The DID pipe and the DID validator accept the same strings, and the pipe's parse is exact:
  it returns a method and an identifier exactly when the value reads
  \<open>did:<method>:<identifier>\<close> with a non-empty method of lower-case letters and digits and a
  non-empty identifier of the permitted characters, and then these two parts are the ones
  returned, the value itself unchanged (no case folding).
\<close>

theorem parse_did_exact:
  "parse_did v = Inr d \<longleftrightarrow>
     is_did (JStr v) \<and> did d = v \<and> v = ''did:'' @ did_method d @ '':'' @ did_identifier d \<and>
     did_method d \<noteq> [] \<and> list_all did_method_char (did_method d) \<and>
     did_identifier d \<noteq> [] \<and> list_all did_id_char (did_identifier d)"
proof
  assume parsed: "parse_did v = Inr d"
  then have match: "rx_match did_pattern v" by (auto simp: parse_did_def split: if_splits)
  then obtain m i where v: "v = ''did:'' @ m @ '':'' @ i" and parts: "m \<noteq> []" "list_all did_method_char m"
    "i \<noteq> []" "list_all did_id_char i" by (auto simp only: did_pattern_iff)
  with parsed parse_did_Inr [OF parts] have "d = \<lparr>did = v, did_method = m, did_identifier = i\<rparr>"
    by simp
  with match v parts show "is_did (JStr v) \<and> did d = v \<and> v = ''did:'' @ did_method d @ '':'' @ did_identifier d \<and>
     did_method d \<noteq> [] \<and> list_all did_method_char (did_method d) \<and>
     did_identifier d \<noteq> [] \<and> list_all did_id_char (did_identifier d)"
    by (simp add: is_did_def string_matching_def)
next
  assume "is_did (JStr v) \<and> did d = v \<and> v = ''did:'' @ did_method d @ '':'' @ did_identifier d \<and>
     did_method d \<noteq> [] \<and> list_all did_method_char (did_method d) \<and>
     did_identifier d \<noteq> [] \<and> list_all did_id_char (did_identifier d)"
  then show "parse_did v = Inr d"
    using parse_did_Inr [of "did_method d" "did_identifier d"] by (metis parsed_did.surjective old.unit.exhaust)
qed

text \<open>
  The Ethereum address pipe accepts exactly what the address validator accepts and returns
  the address in lower case: it has no upper-case letter, is accepted again and is returned
  unchanged when it passes the pipe a second time. Two spellings of the same address therefore
  become equal.
\<close>

theorem parse_ethereum_address_normalises:
  "(is_eth_address (JStr v) \<longrightarrow>
      parse_ethereum_address v = Inr (js_lower v) \<and> \<not> list_ex is_upper (js_lower v) \<and>
      parse_ethereum_address (js_lower v) = Inr (js_lower v)) \<and>
   (\<not> is_eth_address (JStr v) \<longrightarrow> (\<exists>m. parse_ethereum_address v = Inl (Bad_Request m)))"
proof -
  have "rx_match eth_address_pattern (js_lower v)" if "rx_match eth_address_pattern v"
  proof -
    from that obtain h where "v = ''0x'' @ h" "length h = 40" "list_all is_hex h"
      by (auto simp only: eth_address_pattern_iff)
    moreover have "js_lower ''0x'' = ''0x''" by code_simp
    ultimately have "js_lower v = ''0x'' @ js_lower h" "length (js_lower h) = 40" "list_all is_hex (js_lower h)"
      by (simp_all add: js_lower_def list_all_iff is_hex_char_lower)
    then show ?thesis using eth_address_pattern_iff by blast
  qed
  then show ?thesis
    by (simp add: parse_ethereum_address_def is_eth_address_def string_matching_def js_lower_no_upper)
qed

theorem parse_ethereum_address_normalises_witness:
  "parse_ethereum_address ''0xABCDEFabcdef00112233445566778899AAbbCCdd'' =
     Inr ''0xabcdefabcdef00112233445566778899aabbccdd''"
proof -
  have "is_eth_address (JStr ''0xABCDEFabcdef00112233445566778899AAbbCCdd'')" by code_simp
  moreover have "js_lower ''0xABCDEFabcdef00112233445566778899AAbbCCdd'' =
      ''0xabcdefabcdef00112233445566778899aabbccdd''" by code_simp
  ultimately show ?thesis
    using parse_ethereum_address_normalises [of "''0xABCDEFabcdef00112233445566778899AAbbCCdd''"] by simp
qed

end
