(* ===== verification/Nonce_Store.thy ===== *)
theory Nonce_Store
  imports Expiring_Store Validators
begin

text \<open>
  The replay protection of signed requests
  (\<open>src/src/modules/protocol/nonce-store.service.ts\<close>): the map of the nonces seen, its
  eviction and the freshness test. Every clock reading of the code is an argument. The
  properties say exactly which calls of a run are rejected, and that the entries a store
  holds are bounded by the window.
\<close>

type_synonym nonce_store = "(string, int) jsmap"

definition default_window_ms :: int where
  "default_window_ms = 5 * 60 * 1000"

definition evict_expired :: "int \<Rightarrow> int \<Rightarrow> nonce_store \<Rightarrow> nonce_store" where
  "evict_expired window now entries =
     (let cutoff = now - window in jsmap_filter (\<lambda>key seen_at. \<not> seen_at < cutoff) entries)"

definition nonce_key :: "string \<Rightarrow> string \<Rightarrow> string" where
  "nonce_key agent_id nonce = agent_id @ '':'' @ nonce"

text \<open>\<open>now\<close> is the clock read by the eviction, \<open>now'\<close> the one read for the new entry.\<close>

definition assert_fresh ::
    "int \<Rightarrow> int \<Rightarrow> int \<Rightarrow> string \<Rightarrow> string \<Rightarrow> nonce_store \<Rightarrow> (exn + unit) \<times> nonce_store" where
  "assert_fresh window now now' agent_id nonce entries =
     (let entries' = evict_expired window now entries;
          key = nonce_key agent_id nonce
      in if jsmap_has entries' key
         then (Inl (Conflict ''Request nonce already used within replay window''), entries')
         else (Inr (), jsmap_set key now' entries'))"

definition store_size :: "int \<Rightarrow> int \<Rightarrow> nonce_store \<Rightarrow> nat \<times> nonce_store" where
  "store_size window now entries =
     (let entries' = evict_expired window now entries in (length entries', entries'))"

text \<open>A run of calls, each with its two clock readings, and the outcomes in order.\<close>

record fresh_call =
  evicted_at :: int
  seen_at :: int
  call_agent :: string
  call_nonce :: string

definition call_key :: "fresh_call \<Rightarrow> string" where
  "call_key c = nonce_key (call_agent c) (call_nonce c)"

fun fresh_run :: "int \<Rightarrow> fresh_call list \<Rightarrow> nonce_store \<Rightarrow> (exn + unit) list \<times> nonce_store" where
  "fresh_run window [] entries = ([], entries)"
| "fresh_run window (c # cs) entries =
     (let (r, entries') = assert_fresh window (evicted_at c) (seen_at c) (call_agent c) (call_nonce c) entries;
          (rs, entries'') = fresh_run window cs entries'
      in (r # rs, entries''))"

section \<open>The store is an expiring store\<close>

interpretation nonces: expiring_store "evict_expired window" map_of AList.update
    "\<lambda>now seen. now - window \<le> seen" jsmap_wf for window
  by unfold_locales (auto simp: evict_expired_def jsmap_get_filter jsmap_get_set split: option.splits)

lemma rejected_iff:
  "jsmap_wf s \<Longrightarrow> fst (assert_fresh w now now' a n s) \<noteq> Inr () \<longleftrightarrow>
     (\<exists>t. jsmap_get s (nonce_key a n) = Some t \<and> now - w \<le> t)"
  using nonces.present_iff [of s w now "nonce_key a n"]
  by (simp add: assert_fresh_def Let_def jsmap_has_def)

lemma assert_fresh_wf [simp]: "jsmap_wf s \<Longrightarrow> jsmap_wf (snd (assert_fresh w now now' a n s))"
  by (auto simp: assert_fresh_def Let_def evict_expired_def)

lemma get_assert_fresh:
  "jsmap_wf s \<Longrightarrow> jsmap_get (snd (assert_fresh w now now' a n s)) k =
     (if k = nonce_key a n \<and> fst (assert_fresh w now now' a n s) = Inr () then Some now'
      else jsmap_get (evict_expired w now s) k)"
  by (auto simp: assert_fresh_def Let_def jsmap_simps nonces.inv_evict)

text \<open>A call cannot replace an entry that is still within the window: such a call is rejected.\<close>

lemma assert_fresh_evolves:
  assumes "jsmap_wf s" and "jsmap_get s k = Some t" and "T - w \<le> t" and "now \<le> T"
  shows "nonces.evolves w k T s (snd (assert_fresh w now now' a n s))"
proof -
  have evicted: "nonces.evolves w k T s (evict_expired w now s)"
    by (intro nonces.evolves.intros assms(4))
  show ?thesis
  proof (cases "nonce_key a n = k")
    case True
    have "fst (assert_fresh w now now' a n s) \<noteq> Inr ()"
      using assms by (subst rejected_iff) (auto simp: True)
    with evicted show ?thesis by (auto simp: assert_fresh_def Let_def split: if_splits)
  next
    case False
    then have "nonces.evolves w k T s (jsmap_set (nonce_key a n) now' (evict_expired w now s))"
      using evicted by (intro nonces.evolves.adds)
    with evicted show ?thesis by (simp add: assert_fresh_def Let_def)
  qed
qed

lemma fst_fresh_run_Cons:
  "fst (fresh_run w (c # cs) s) =
     fst (assert_fresh w (evicted_at c) (seen_at c) (call_agent c) (call_nonce c) s) #
     fst (fresh_run w cs (snd (assert_fresh w (evicted_at c) (seen_at c) (call_agent c) (call_nonce c) s)))"
  by (simp add: case_prod_beta Let_def)

lemma length_fresh_run [simp]: "length (fst (fresh_run w cs s)) = length cs"
  by (induction cs arbitrary: s) (simp_all add: case_prod_beta Let_def)

text \<open>Which calls are rejected, from any store.\<close>

lemma fresh_run_rejects:
  assumes "jsmap_wf s" and "sorted (map evicted_at cs)" and "i < length cs"
  shows "fst (fresh_run w cs s) ! i \<noteq> Inr () \<longleftrightarrow>
     (\<exists>t. jsmap_get s (call_key (cs ! i)) = Some t \<and> evicted_at (cs ! i) - w \<le> t) \<or>
     (\<exists>j < i. call_key (cs ! j) = call_key (cs ! i) \<and> fst (fresh_run w cs s) ! j = Inr () \<and>
        evicted_at (cs ! i) - w \<le> seen_at (cs ! j))"
  using assms
proof (induction cs arbitrary: s i)
  case (Cons c cs)
  define s' where "s' = snd (assert_fresh w (evicted_at c) (seen_at c) (call_agent c) (call_nonce c) s)"
  define r where "r = fst (assert_fresh w (evicted_at c) (seen_at c) (call_agent c) (call_nonce c) s)"
  have run: "fst (fresh_run w (c # cs) s) = r # fst (fresh_run w cs s')"
    by (simp only: fst_fresh_run_Cons r_def s'_def)
  have first: "r \<noteq> Inr () \<longleftrightarrow> (\<exists>t. jsmap_get s (call_key c) = Some t \<and> evicted_at c - w \<le> t)"
    using Cons.prems(1) by (simp add: r_def rejected_iff call_key_def)
  show ?case
  proof (cases i)
    case 0
    with first show ?thesis by (simp add: run del: fresh_run.simps)
  next
    case (Suc k)
    let ?d = "cs ! k"
    have le: "evicted_at c \<le> evicted_at ?d" using Cons.prems Suc by auto
    have get: "jsmap_get s' (call_key ?d) =
        (if call_key ?d = call_key c \<and> r = Inr () then Some (seen_at c)
         else jsmap_get (evict_expired w (evicted_at c) s) (call_key ?d))"
      using Cons.prems(1) by (simp add: s'_def r_def get_assert_fresh call_key_def)
    have old: "(\<exists>t. jsmap_get s' (call_key ?d) = Some t \<and> evicted_at ?d - w \<le> t) \<longleftrightarrow>
        (\<exists>t. jsmap_get s (call_key ?d) = Some t \<and> evicted_at ?d - w \<le> t) \<or>
        (call_key c = call_key ?d \<and> r = Inr () \<and> evicted_at ?d - w \<le> seen_at c)"
    proof (cases "call_key ?d = call_key c \<and> r = Inr ()")
      case True
      then have new: "jsmap_get s' (call_key ?d) = Some (seen_at c)" unfolding get by (rule if_P)
      have "\<not> evicted_at ?d - w \<le> t" if "jsmap_get s (call_key ?d) = Some t" for t
        using first True le that by force
      with new True show ?thesis by (metis option.inject)
    next
      case False
      with le Cons.prems(1) show ?thesis
        by (auto simp: get nonces.lookup_evict split: option.splits)
    qed
    have "fst (fresh_run w cs s') ! k \<noteq> Inr () \<longleftrightarrow>
        (\<exists>t. jsmap_get s' (call_key ?d) = Some t \<and> evicted_at ?d - w \<le> t) \<or>
        (\<exists>j < k. call_key (cs ! j) = call_key ?d \<and> fst (fresh_run w cs s') ! j = Inr () \<and>
           evicted_at ?d - w \<le> seen_at (cs ! j))"
      by (rule Cons.IH) (use Cons.prems Suc in \<open>auto simp: s'_def\<close>)
    with old show ?thesis by (auto simp: run Suc less_Suc_eq_0_disj simp del: fresh_run.simps)
  qed
qed simp

section \<open>Properties\<close>


definition demo_call :: "int \<Rightarrow> string \<Rightarrow> fresh_call" where
  "demo_call t n = \<lparr>evicted_at = t, seen_at = t, call_agent = ''did:prom:a'', call_nonce = n\<rparr>"


text \<open>
  A nonce is scoped to its agent. For agents that passed the DID validator, as both agents
  of a request have, the key \<open>agent:nonce\<close> determines the agent and the nonce, whatever
  characters the nonce has; so two agents never compete for the same key.
\<close>

theorem nonce_key_scoped:
  assumes "is_did (JStr a)" and "is_did (JStr b)"
  shows "nonce_key a n = nonce_key b m \<longleftrightarrow> a = b \<and> n = m"
proof
  have split: "\<exists>u i. x = ''did:'' @ u @ '':'' @ i \<and> CHR '':'' \<notin> set u \<and> CHR '':'' \<notin> set i"
    if did: "is_did (JStr x)" for x
  proof -
    from did obtain u i where "x = ''did:'' @ u @ '':'' @ i" "list_all did_method_char u" "list_all did_id_char i"
      by (auto simp only: is_did_def string_matching_def json.simps did_pattern_iff)
    then show ?thesis using did_method_char_no_colon did_id_char_no_colon
      unfolding list_all_iff by blast
  qed
  obtain u i where a: "a = ''did:'' @ u @ '':'' @ i" "CHR '':'' \<notin> set u" "CHR '':'' \<notin> set i"
    using split [OF assms(1)] by blast
  obtain v j where b: "b = ''did:'' @ v @ '':'' @ j" "CHR '':'' \<notin> set v" "CHR '':'' \<notin> set j"
    using split [OF assms(2)] by blast
  have first: "takeWhile (\<lambda>c. c \<noteq> CHR '':'') (x @ CHR '':'' # y) = x" if "CHR '':'' \<notin> set x" for x y :: string
    using that by (induction x) auto
  assume "nonce_key a n = nonce_key b m"
  then have eq: "u @ CHR '':'' # i @ CHR '':'' # n = v @ CHR '':'' # j @ CHR '':'' # m"
    by (simp add: nonce_key_def a b)
  then have "u = v" using first [OF a(2)] first [OF b(2)] by metis
  with eq have rest: "i @ CHR '':'' # n = j @ CHR '':'' # m" by simp
  then have "i = j" using first [OF a(3)] first [OF b(3)] by metis
  with \<open>u = v\<close> rest show "a = b \<and> n = m" by (simp add: a b)
qed simp

theorem nonce_key_scoped_witness:
  "nonce_key ''did:prom:a'' ''x:y'' \<noteq> nonce_key ''did:prom:b'' ''x:y''"
proof -
  have "is_did (JStr ''did:prom:a'')" and "is_did (JStr ''did:prom:b'')" by code_simp+
  then show ?thesis using nonce_key_scoped by simp
qed

text \<open>
  The store cannot grow without bound. Whatever it held, after a count every entry is at
  most the window old, no entry is invented, an entry that is young enough is kept, and the
  count is the number of distinct keys.
\<close>

theorem store_size_within_window:
  assumes "jsmap_wf s"
  shows "fst (store_size window now s) =
       card {k. \<exists>t. jsmap_get s k = Some t \<and> now - window \<le> t} \<and>
     jsmap_get (snd (store_size window now s)) k =
       (case jsmap_get s k of None \<Rightarrow> None | Some t \<Rightarrow> if now - window \<le> t then Some t else None)"
proof -
  let ?s' = "evict_expired window now s"
  have wf: "jsmap_wf ?s'" using assms by (rule nonces.inv_evict)
  have "length ?s' = card (set (map fst ?s'))"
    using wf unfolding jsmap_wf_def by (metis distinct_card length_map)
  also have "set (map fst ?s') = {k. \<exists>t. jsmap_get s k = Some t \<and> now - window \<le> t}"
    by (simp only: list.set_map keys_conv_map_of nonces.present_iff [OF assms])
  finally show ?thesis by (simp add: store_size_def Let_def nonces.lookup_evict [OF assms])
qed

theorem store_size_within_window_witness:
  "fst (store_size 300000 400000 [(''a'', 1), (''b'', 200000)]) =
     card {k. \<exists>t. map_of [(''a'', 1), (''b'', 200000)] k = Some t \<and> 400000 - 300000 \<le> (t::int)}"
proof -
  have "jsmap_wf [(''a'', 1), (''b'', 200000::int)]" by code_simp
  from store_size_within_window [OF this, of 300000 400000] show ?thesis by blast
qed

end
