(* ===== verification/App_State.thy ===== *)
theory App_State
  imports Business_Metrics Nonce_Store
begin

text \<open>
  The state of the running backend that requests share: what lies outside the process (the
  database and the chain, a type parameter), the domain counters and the nonce store. A
  service operation is an effectful call over it; a call to the database or the chain is
  lifted from the outside world.
\<close>

record 'd app =
  outside :: 'd
  metrics :: business_metrics
  seen_nonces :: nonce_store

definition on_outside :: "('d, 'a) io \<Rightarrow> ('d app, 'a) io" where
  "on_outside m w = (case m (outside w) of (r, d) \<Rightarrow> (r, w\<lparr>outside := d\<rparr>))"

definition on_metrics :: "(business_metrics \<Rightarrow> business_metrics) \<Rightarrow> ('d app, unit) io" where
  "on_metrics f w = (Inr (), w\<lparr>metrics := f (metrics w)\<rparr>)"

definition on_nonces :: "(nonce_store \<Rightarrow> (exn + 'a) \<times> nonce_store) \<Rightarrow> ('d app, 'a) io" where
  "on_nonces f w = (case f (seen_nonces w) of (r, s) \<Rightarrow> (r, w\<lparr>seen_nonces := s\<rparr>))"

lemma on_outside_apply [io_simps]:
  "m (outside w) = (r, d) \<Longrightarrow> on_outside m w = (r, w\<lparr>outside := d\<rparr>)"
  by (simp add: on_outside_def)

lemma on_metrics_apply [io_simps, simp]: "on_metrics f w = (Inr (), w\<lparr>metrics := f (metrics w)\<rparr>)"
  by (simp add: on_metrics_def)

lemma on_nonces_apply [io_simps]:
  "f (seen_nonces w) = (r, s) \<Longrightarrow> on_nonces f w = (r, w\<lparr>seen_nonces := s\<rparr>)"
  by (simp add: on_nonces_def)

text \<open>What each lifted call leaves alone.\<close>

lemma on_outside_frame [simp]:
  "metrics (snd (on_outside m w)) = metrics w" "seen_nonces (snd (on_outside m w)) = seen_nonces w"
  by (simp_all add: on_outside_def split: prod.split)

lemma on_nonces_frame [simp]:
  "metrics (snd (on_nonces f w)) = metrics w" "outside (snd (on_nonces f w)) = outside w"
  by (simp_all add: on_nonces_def split: prod.split)

text \<open>The state of a process that has just started.\<close>

definition new_app :: "'d \<Rightarrow> 'd app" where
  "new_app d = \<lparr>outside = d, metrics = new_business_metrics, seen_nonces = []\<rparr>"

end
