(* ===== verification/Policy.thy ===== *)
theory Policy
  imports App_State Json
begin

text \<open>
  Access policies: the evaluator (\<open>src/src/modules/policy/policy-evaluator.ts\<close>) and the
  service that asks it (\<open>src/src/modules/policy/policy-evaluator.service.ts\<close>). Wildcards are
  modelled as the code treats them, by building a regular expression text and compiling it,
  and shown equivalent to a direct matcher; the evaluator is shown to decide by a table that
  does not depend on the order of rules; the service is proved from the evaluator's contract,
  a locale.
\<close>

section \<open>Wildcards\<close>

abbreviation backslash :: char where
  "backslash \<equiv> CHR 0x5C"

text \<open>The class \<open>[.+?^${}()|[\]\\]\<close>.\<close>

definition is_meta :: "char \<Rightarrow> bool" where
  "is_meta c \<longleftrightarrow> c \<in> set ''.+?^${}()|[]'' \<or> c = backslash"

definition escape_meta :: "string \<Rightarrow> string" where
  "escape_meta s = concat (map (\<lambda>c. if is_meta c then [backslash, c] else [c]) s)"

definition expand_stars :: "string \<Rightarrow> string" where
  "expand_stars s = concat (map (\<lambda>c. if c = CHR ''*'' then ''.*'' else [c]) s)"

text \<open>
  \<open>new RegExp(source)\<close> for the sources that occur: an anchored sequence of atoms, each an
  escaped metacharacter, a dot or an ordinary character, with an optional star. Any other
  source is outside this part of the grammar (\<open>None\<close>).
\<close>

fun regexp_atom :: "string \<Rightarrow> (rx \<times> string) option" where
  "regexp_atom [] = None"
| "regexp_atom (c # cs) =
     (if c = backslash then
        (case cs of [] \<Rightarrow> None
         | d # ds \<Rightarrow> if is_meta d \<or> d = CHR ''*'' then Some (RChr d, ds) else None)
      else if c = CHR ''.'' then Some (RDot, cs)
      else if is_meta c \<or> c = CHR ''*'' then None
      else Some (RChr c, cs))"

lemma regexp_atom_shorter: "regexp_atom s = Some (r, t) \<Longrightarrow> length t < length s"
  by (cases s) (auto split: if_splits list.splits)

function regexp_body :: "string \<Rightarrow> rx option" where
  "regexp_body s =
     (if s = ''$'' then Some REps
      else (case regexp_atom s of
              None \<Rightarrow> None
            | Some (r, t) \<Rightarrow>
                (case t of
                   [] \<Rightarrow> None
                 | c # cs \<Rightarrow>
                     if c = CHR ''*'' then map_option (RSeq (RStar r)) (regexp_body cs)
                     else map_option (RSeq r) (regexp_body (c # cs)))))"
  by pat_completeness auto
termination
  by (relation "measure length") (auto dest: regexp_atom_shorter)

declare regexp_body.simps [simp del]

definition regexp :: "string \<Rightarrow> rx option" where
  "regexp source = (case source of [] \<Rightarrow> None | c # cs \<Rightarrow> if c = CHR ''^'' then regexp_body cs else None)"

definition match_wildcard :: "string \<Rightarrow> string \<Rightarrow> bool" where
  "match_wildcard pattern v =
     (if pattern = ''*'' then True
      else (let escaped = expand_stars (escape_meta pattern)
            in case regexp (''^'' @ escaped @ ''$'') of Some r \<Rightarrow> rx_match r v | None \<Rightarrow> False))"

text \<open>The reference: a star stands for any characters but line terminators.\<close>

fun glob :: "string \<Rightarrow> string \<Rightarrow> bool" where
  "glob [] v = (v = [])"
| "glob (p # ps) [] = (p = CHR ''*'' \<and> glob ps [])"
| "glob (p # ps) (c # cs) =
     (if p = CHR ''*'' then glob ps (c # cs) \<or> (\<not> is_line_end c \<and> glob (p # ps) cs)
      else c = p \<and> glob ps cs)"

fun glob_rx :: "string \<Rightarrow> rx" where
  "glob_rx [] = REps"
| "glob_rx (p # ps) = RSeq (if p = CHR ''*'' then RStar RDot else RChr p) (glob_rx ps)"

lemma star_not_meta [simp]: "\<not> is_meta CHR ''*''"
  by (simp add: is_meta_def)

lemma expand_escape_Cons:
  "expand_stars (escape_meta (p # ps)) =
     (if p = CHR ''*'' then ''.*'' else if is_meta p then [backslash, p] else [p]) @
     expand_stars (escape_meta ps)"
  by (auto simp: expand_stars_def escape_meta_def is_meta_def)

lemma expand_escape_hd:
  "\<exists>c cs. expand_stars (escape_meta ps) @ ''$'' = c # cs \<and> c \<noteq> CHR ''*''"
  by (cases ps) (auto simp: expand_escape_Cons, auto simp: expand_stars_def escape_meta_def)

lemma regexp_body_escaped: "regexp_body (expand_stars (escape_meta ps) @ ''$'') = Some (glob_rx ps)"
proof (induction ps)
  case Nil
  show ?case by (simp add: expand_stars_def escape_meta_def regexp_body.simps)
next
  case (Cons p ps)
  let ?rest = "expand_stars (escape_meta ps) @ ''$''"
  obtain c cs where rest: "?rest = c # cs" and c: "c \<noteq> CHR ''*''"
    using expand_escape_hd by blast
  have "regexp_body (expand_stars (escape_meta (p # ps)) @ ''$'') =
      map_option (RSeq (if p = CHR ''*'' then RStar RDot else RChr p)) (regexp_body ?rest)"
  proof (cases "p = CHR ''*''")
    case True
    then show ?thesis
      by (subst regexp_body.simps) (simp add: expand_escape_Cons is_meta_def)
  next
    case False
    then have "regexp_atom ((if is_meta p then [backslash, p] else [p]) @ ?rest) = Some (RChr p, ?rest)"
      by (auto simp: is_meta_def)
    moreover have "(if is_meta p then [backslash, p] else [p]) @ ?rest \<noteq> ''$''"
      using rest by (auto simp: is_meta_def)
    ultimately show ?thesis
      using False by (subst regexp_body.simps) (simp add: expand_escape_Cons rest c)
  qed
  with Cons.IH show ?case by simp
qed

lemma rx_in_glob_rx: "rx_in (glob_rx ps) v \<longleftrightarrow> glob ps v"
proof (induction ps v rule: glob.induct)
  case (1 v)
  show ?case by (simp add: rx_in_simps)
next
  case (2 p ps)
  then show ?case
    by (auto simp: rx_in_simps(4) rx_in_RChr RDot_def rx_in_RStar_RSet)
next
  case (3 p ps c cs)
  show ?case
  proof (cases "p = CHR ''*''")
    case True
    have "rx_in (glob_rx (p # ps)) (c # cs) \<longleftrightarrow>
        (\<exists>s t. c # cs = s @ t \<and> list_all (\<lambda>c. \<not> is_line_end c) s \<and> rx_in (glob_rx ps) t)"
      by (simp add: True rx_in_simps(4) RDot_def rx_in_RStar_RSet)
    also have "\<dots> \<longleftrightarrow> rx_in (glob_rx ps) (c # cs) \<or>
        (\<not> is_line_end c \<and> (\<exists>s t. cs = s @ t \<and> list_all (\<lambda>c. \<not> is_line_end c) s \<and> rx_in (glob_rx ps) t))"
      by (rule split_prefix_Cons)
    also have "(\<exists>s t. cs = s @ t \<and> list_all (\<lambda>c. \<not> is_line_end c) s \<and> rx_in (glob_rx ps) t) \<longleftrightarrow>
        rx_in (glob_rx (p # ps)) cs"
      by (simp add: True rx_in_simps(4) RDot_def rx_in_RStar_RSet)
    finally show ?thesis using 3(1,2) True by simp
  next
    case False
    then show ?thesis using 3(3)
      by (auto simp: rx_in_simps(4) rx_in_RChr)
  qed
qed

lemma match_wildcard_iff: "match_wildcard p v \<longleftrightarrow> p = ''*'' \<or> glob p v"
proof -
  have "regexp (''^'' @ expand_stars (escape_meta p) @ ''$'') = Some (glob_rx p)"
    by (simp add: regexp_def regexp_body_escaped)
  then show ?thesis
    by (simp add: match_wildcard_def Let_def rx_match_iff rx_in_glob_rx)
qed

lemma glob_literal_prefix:
  "CHR ''*'' \<notin> set p \<Longrightarrow> glob (p @ q) v \<longleftrightarrow> (\<exists>rest. v = p @ rest \<and> glob q rest)"
proof (induction p arbitrary: v)
  case (Cons x p)
  then show ?case by (cases v) auto
qed simp

lemma glob_star: "glob ''*'' v \<longleftrightarrow> list_all (\<lambda>c. \<not> is_line_end c) v"
  by (induction v) auto

lemma match_wildcard_literal: "CHR ''*'' \<notin> set p \<Longrightarrow> match_wildcard p v \<longleftrightarrow> v = p"
  using glob_literal_prefix [of p "[]" v] by (auto simp: match_wildcard_iff)

section \<open>Evaluation\<close>

text \<open>
  The members of a policy's rules, as the entity declares them. Rules arrive unvalidated, so an
  effect is any text; optional members are options. The first three are what the evaluator's
  \<open>PolicyRuleset\<close> names.
\<close>

record access_rule =
  effect :: string
  subjects :: "string list"
  actions :: "string list option"
  resources :: "string list option"

record policy_ruleset =
  allowlist :: "string list option"
  denylist :: "string list option"
  access_rules :: "access_rule list option"

record policy_rules = policy_ruleset +
  max_spend_per_hour :: "js_number option"
  require_verification :: "bool option"
  max_latency_ms :: "js_number option"

record policy_context =
  ctx_subject :: string
  ctx_action :: string
  ctx_resource :: string

definition matches_any :: "string list option \<Rightarrow> string \<Rightarrow> bool" where
  "matches_any patterns v =
     (case patterns of None \<Rightarrow> True
      | Some ps \<Rightarrow> if ps = [] then True else list_ex (\<lambda>p. match_wildcard p v) ps)"

definition rule_applies :: "access_rule \<Rightarrow> policy_context \<Rightarrow> bool" where
  "rule_applies rule ctx \<longleftrightarrow>
     matches_any (Some (subjects rule)) (ctx_subject ctx) \<and>
     matches_any (actions rule) (ctx_action ctx) \<and>
     matches_any (resources rule) (ctx_resource ctx)"

text \<open>\<open>x?.length ?? 0\<close> and \<open>x?.some(f)\<close>.\<close>

definition opt_length :: "'a list option \<Rightarrow> nat" where
  "opt_length x = (case x of None \<Rightarrow> 0 | Some xs \<Rightarrow> length xs)"

definition opt_some :: "('a \<Rightarrow> bool) \<Rightarrow> 'a list option \<Rightarrow> bool" where
  "opt_some f x = (case x of None \<Rightarrow> False | Some xs \<Rightarrow> list_ex f xs)"

definition evaluate_policy_access :: "'a policy_ruleset_scheme \<Rightarrow> policy_context \<Rightarrow> bool \<times> string" where
  "evaluate_policy_access rules ctx =
     (let has_access_constraints =
            opt_length (access_rules rules) > 0 \<or> opt_length (allowlist rules) > 0 \<or>
            opt_length (denylist rules) > 0
      in if \<not> has_access_constraints then (True, ''no access constraints'')
         else if opt_some (\<lambda>p. match_wildcard p (ctx_subject ctx)) (denylist rules)
         then (False, ''subject on denylist'')
         else (let rs = (case access_rules rules of None \<Rightarrow> [] | Some rs \<Rightarrow> rs);
                   matching = filter (\<lambda>r. rule_applies r ctx) rs
               in if find (\<lambda>r. effect r = ''deny'') matching \<noteq> None
                  then (False, ''matched deny access rule'')
                  else if find (\<lambda>r. effect r = ''allow'') matching \<noteq> None
                  then (True, ''matched allow access rule'')
                  else if opt_some (\<lambda>p. match_wildcard p (ctx_subject ctx)) (allowlist rules)
                  then (True, ''subject on allowlist'')
                  else (False, ''no matching allow rule'')))"

text \<open>The members as sets, an absent member as the empty one.\<close>

definition opt_set :: "'a list option \<Rightarrow> 'a set" where
  "opt_set x = (case x of None \<Rightarrow> {} | Some xs \<Rightarrow> set xs)"

definition listed :: "string \<Rightarrow> string list option \<Rightarrow> bool" where
  "listed v x \<longleftrightarrow> (\<exists>p \<in> opt_set x. match_wildcard p v)"

definition some_rule :: "string \<Rightarrow> 'a policy_ruleset_scheme \<Rightarrow> policy_context \<Rightarrow> bool" where
  "some_rule eff rules ctx \<longleftrightarrow> (\<exists>r \<in> opt_set (access_rules rules). effect r = eff \<and> rule_applies r ctx)"

definition unconstrained :: "'a policy_ruleset_scheme \<Rightarrow> bool" where
  "unconstrained rules \<longleftrightarrow>
     opt_set (access_rules rules) = {} \<and> opt_set (allowlist rules) = {} \<and> opt_set (denylist rules) = {}"

lemma opt_length_pos: "opt_length x > 0 \<longleftrightarrow> opt_set x \<noteq> {}"
  by (simp add: opt_length_def opt_set_def split: option.split)

lemma opt_some_listed: "opt_some (\<lambda>p. match_wildcard p v) x \<longleftrightarrow> listed v x"
  by (simp add: opt_some_def listed_def opt_set_def list_ex_iff split: option.split)

lemma find_matching:
  "find (\<lambda>r. effect r = eff) (filter (\<lambda>r. rule_applies r ctx)
     (case access_rules rules of None \<Rightarrow> [] | Some rs \<Rightarrow> rs)) \<noteq> None \<longleftrightarrow> some_rule eff rules ctx"
  by (auto simp: some_rule_def opt_set_def find_None_iff split: option.split)

lemma evaluate_decision:
  "evaluate_policy_access rules ctx =
     (if unconstrained rules then (True, ''no access constraints'')
      else if listed (ctx_subject ctx) (denylist rules) then (False, ''subject on denylist'')
      else if some_rule ''deny'' rules ctx then (False, ''matched deny access rule'')
      else if some_rule ''allow'' rules ctx then (True, ''matched allow access rule'')
      else if listed (ctx_subject ctx) (allowlist rules) then (True, ''subject on allowlist'')
      else (False, ''no matching allow rule''))"
  unfolding evaluate_policy_access_def Let_def opt_length_pos opt_some_listed find_matching
  by (simp add: unconstrained_def)

lemma evaluate_allows:
  "fst (evaluate_policy_access rules ctx) \<longleftrightarrow>
     unconstrained rules \<or>
     (\<not> listed (ctx_subject ctx) (denylist rules) \<and> \<not> some_rule ''deny'' rules ctx \<and>
      (some_rule ''allow'' rules ctx \<or> listed (ctx_subject ctx) (allowlist rules)))"
  by (auto simp: evaluate_decision unconstrained_def listed_def some_rule_def)

section \<open>The service\<close>

record policy =
  policy_id :: string
  policy_agent_id :: string
  policy_name :: string
  rules_of :: policy_rules
  policy_signature :: "string option"
  policy_is_active :: bool

text \<open>
  The loop over an agent's policies: the reason of the first denial (\<open>Inl\<close>), or the reason the
  last policy allowed for (\<open>Inr\<close>).
\<close>

fun check_policies ::
    "('r \<Rightarrow> policy_context \<Rightarrow> bool \<times> string) \<Rightarrow> policy_context \<Rightarrow> string \<Rightarrow> 'r list \<Rightarrow> string + string" where
  "check_policies decide ctx allow_reason [] = Inr allow_reason"
| "check_policies decide ctx allow_reason (r # rs) =
     (let (allowed, reason) = decide r ctx
      in if \<not> allowed then Inl reason else check_policies decide ctx reason rs)"

text \<open>\<open>find_active agentId\<close> is the repository's query for the active policies of an agent.\<close>

definition assert_allowed ::
    "(string \<Rightarrow> ('d, policy list) io) \<Rightarrow> string \<Rightarrow> policy_context \<Rightarrow> ('d app, unit) io" where
  "assert_allowed find_active agent_id ctx =
     io_bind (on_outside (find_active agent_id)) (\<lambda>policies.
       if policies = [] then on_metrics (record_policy_decision ''allow'' ''no active policy'')
       else (case check_policies evaluate_policy_access ctx ''allowed'' (map rules_of policies) of
               Inl reason \<Rightarrow>
                 io_bind (on_metrics (record_policy_decision ''deny'' reason))
                   (\<lambda>_. io_throw (Forbidden (''Policy denied: '' @ reason)))
             | Inr reason \<Rightarrow> on_metrics (record_policy_decision ''allow'' reason)))"

text \<open>
  What the service needs of the evaluator: the reason of a decision is one of a fixed set that
  depends on the decision alone.
\<close>

locale policy_evaluator =
  fixes decide :: "'r \<Rightarrow> policy_context \<Rightarrow> bool \<times> string"
    and reasons :: "bool \<Rightarrow> string set"
  assumes reason_fixed: "decide r ctx = (allowed, reason) \<Longrightarrow> reason \<in> reasons allowed"
begin

lemma check_allows:
  "check_policies decide ctx a rs = Inr b \<Longrightarrow>
     (\<forall>r \<in> set rs. fst (decide r ctx)) \<and> (rs \<noteq> [] \<longrightarrow> b \<in> reasons True)"
proof (induction rs arbitrary: a)
  case (Cons r rs)
  obtain why where why: "decide r ctx = (True, why)" and rest: "check_policies decide ctx why rs = Inr b"
    using Cons.prems by (cases "decide r ctx") (auto split: if_splits)
  show ?case
    using Cons.IH [OF rest] why rest reason_fixed [OF why] by (cases rs) auto
qed simp

lemma check_denies:
  "check_policies decide ctx a rs = Inl b \<Longrightarrow>
     (\<exists>r \<in> set rs. decide r ctx = (False, b)) \<and> b \<in> reasons False"
proof (induction rs arbitrary: a)
  case (Cons r rs)
  then show ?case
    by (cases "decide r ctx") (auto split: if_splits dest: reason_fixed)
qed simp

lemma check_iff:
  "(\<exists>b. check_policies decide ctx a rs = Inr b) \<longleftrightarrow> (\<forall>r \<in> set rs. fst (decide r ctx))"
  by (metis check_allows check_denies fst_conv obj_sumE)

end

definition decision_reasons :: "bool \<Rightarrow> string set" where
  "decision_reasons allowed =
     (if allowed then {''no access constraints'', ''matched allow access rule'', ''subject on allowlist''}
      else {''subject on denylist'', ''matched deny access rule'', ''no matching allow rule''})"

interpretation access: policy_evaluator evaluate_policy_access decision_reasons
  by unfold_locales (auto simp: evaluate_decision decision_reasons_def split: if_splits)

text \<open>The labels the decision counter can get.\<close>

definition decision_labels :: "bool \<Rightarrow> string set" where
  "decision_labels allowed =
     (if allowed then {''no_active_policy'', ''no_access_constraints'', ''matched_allow_access_rule'', ''subject_on_allowlist''}
      else {''subject_on_denylist'', ''matched_deny_access_rule'', ''no_matching_allow_rule''})"

lemma reason_label_values:
  "reason_label ''no access constraints'' = ''no_access_constraints''"
  "reason_label ''matched allow access rule'' = ''matched_allow_access_rule''"
  "reason_label ''subject on allowlist'' = ''subject_on_allowlist''"
  "reason_label ''subject on denylist'' = ''subject_on_denylist''"
  "reason_label ''matched deny access rule'' = ''matched_deny_access_rule''"
  "reason_label ''no matching allow rule'' = ''no_matching_allow_rule''"
  "reason_label ''no active policy'' = ''no_active_policy''"
  by code_simp+

lemma reason_label_fixed: "reason \<in> decision_reasons allowed \<Longrightarrow> reason_label reason \<in> decision_labels allowed"
  by (auto simp: decision_reasons_def decision_labels_def reason_label_values split: if_splits)

text \<open>The three ways a request leaves the check once the policies were read.\<close>

lemma assert_allowed_cases:
  assumes "find_active agent (outside w) = (Inr ps, d)"
  shows "(\<exists>l \<in> decision_labels True. (\<forall>p \<in> set ps. fst (evaluate_policy_access (rules_of p) ctx)) \<and>
       assert_allowed find_active agent ctx w = (Inr (), w\<lparr>outside := d, metrics :=
         (metrics w)\<lparr>decision_incs := decision_incs (metrics w) @ [(''allow'', l)]\<rparr>\<rparr>)) \<or>
     (\<exists>why. \<exists>l \<in> decision_labels False. (\<exists>p \<in> set ps. evaluate_policy_access (rules_of p) ctx = (False, why)) \<and>
       assert_allowed find_active agent ctx w = (Inl (Forbidden (''Policy denied: '' @ why)), w\<lparr>outside := d, metrics :=
         (metrics w)\<lparr>decision_incs := decision_incs (metrics w) @ [(''deny'', l)]\<rparr>\<rparr>))"
proof (cases "ps = []")
  case True
  have "on_outside (find_active agent) w = (Inr ps, w\<lparr>outside := d\<rparr>)"
    using assms by (rule on_outside_apply)
  with True have "assert_allowed find_active agent ctx w = (Inr (), w\<lparr>outside := d, metrics :=
      (metrics w)\<lparr>decision_incs := decision_incs (metrics w) @ [(''allow'', ''no_active_policy'')]\<rparr>\<rparr>)"
    by (simp add: assert_allowed_def io_bind_def record_policy_decision_def reason_label_values)
  then show ?thesis by (intro disjI1 bexI [of _ "''no_active_policy''"]) (simp_all add: True decision_labels_def)
next
  case False
  have "on_outside (find_active agent) w = (Inr ps, w\<lparr>outside := d\<rparr>)"
    using assms by (rule on_outside_apply)
  note read = io_bind_Inr [where m = "on_outside (find_active agent)", OF this]
  show ?thesis
  proof (cases "check_policies evaluate_policy_access ctx ''allowed'' (map rules_of ps)")
    case (Inl why)
    from access.check_denies [OF this] obtain p where p: "p \<in> set ps"
      "evaluate_policy_access (rules_of p) ctx = (False, why)" and "why \<in> decision_reasons False" by auto
    then have "reason_label why \<in> decision_labels False" by (intro reason_label_fixed)
    moreover have "assert_allowed find_active agent ctx w = (Inl (Forbidden (''Policy denied: '' @ why)), w\<lparr>outside := d, metrics :=
         (metrics w)\<lparr>decision_incs := decision_incs (metrics w) @ [(''deny'', reason_label why)]\<rparr>\<rparr>)"
      using False Inl by (simp add: assert_allowed_def read) (simp add: io_bind_def record_policy_decision_def)
    ultimately show ?thesis using p by blast
  next
    case (Inr why)
    from access.check_allows [OF this] False have "\<forall>p \<in> set ps. fst (evaluate_policy_access (rules_of p) ctx)"
      and "why \<in> decision_reasons True" by auto
    moreover from this have "reason_label why \<in> decision_labels True" by (intro reason_label_fixed)
    moreover have "assert_allowed find_active agent ctx w = (Inr (), w\<lparr>outside := d, metrics :=
         (metrics w)\<lparr>decision_incs := decision_incs (metrics w) @ [(''allow'', reason_label why)]\<rparr>\<rparr>)"
      using False Inr by (simp add: assert_allowed_def read record_policy_decision_def)
    ultimately show ?thesis by blast
  qed
qed

lemma assert_allowed_unread:
  "find_active agent (outside w) = (Inl e, d) \<Longrightarrow>
     assert_allowed find_active agent ctx w = (Inl e, w\<lparr>outside := d\<rparr>)"
  by (simp add: assert_allowed_def io_bind_Inl on_outside_apply)

section \<open>Properties\<close>


text \<open>
  A trailing star is not confined to one segment. A pattern that ends in its only \<open>*\<close>
  matches every value with that prefix and no line terminator after it, further colons and
  slashes included, although the comment calls the wildcard single-segment.
\<close>

theorem match_wildcard_prefix:
  assumes "CHR ''*'' \<notin> set p" and "p \<noteq> []"
  shows "match_wildcard (p @ ''*'') v \<longleftrightarrow> (\<exists>rest. v = p @ rest \<and> list_all (\<lambda>c. \<not> is_line_end c) rest)"
  using assms glob_literal_prefix [OF assms(1), of "''*''" v]
  by (simp add: match_wildcard_iff glob_star append_eq_Cons_conv)

theorem match_wildcard_prefix_witness:
  "match_wildcard ''did:prom:*'' ''did:prom:tenant:agent'' \<and> \<not> match_wildcard ''did:prom:*'' ''did:other:a''"
  using match_wildcard_prefix [of "''did:prom:''" "''did:prom:tenant:agent''"]
    match_wildcard_prefix [of "''did:prom:''" "''did:other:a''"]
  by (simp add: is_line_end_def)


text \<open>
  The order of a policy's rules and list entries does not matter, nor do repetitions, nor
  the members that are not about access: two policies with the same access rules and the same
  lists, as sets, give the same decision and the same reason.
\<close>

theorem policy_order_irrelevant:
  assumes "opt_set (access_rules rules) = opt_set (access_rules rules')"
    and "opt_set (allowlist rules) = opt_set (allowlist rules')"
    and "opt_set (denylist rules) = opt_set (denylist rules')"
  shows "evaluate_policy_access rules ctx = evaluate_policy_access rules' ctx"
proof -
  have "unconstrained rules = unconstrained rules'" and "some_rule eff rules ctx = some_rule eff rules' ctx"
    and "listed v (denylist rules) = listed v (denylist rules')"
    and "listed v (allowlist rules) = listed v (allowlist rules')" for eff v
    by (simp_all add: unconstrained_def some_rule_def listed_def assms)
  then show ?thesis by (simp only: evaluate_decision)
qed

definition demo_rules :: "access_rule list \<Rightarrow> js_number option \<Rightarrow> policy_rules" where
  "demo_rules rs spend = \<lparr>allowlist = None, denylist = Some [], access_rules = Some rs,
     max_spend_per_hour = spend, require_verification = Some True, max_latency_ms = None\<rparr>"

definition demo_rule :: "string \<Rightarrow> string \<Rightarrow> access_rule" where
  "demo_rule eff subj = \<lparr>effect = eff, subjects = [subj], actions = Some [''invoke''], resources = None\<rparr>"

definition demo_context :: policy_context where
  "demo_context = \<lparr>ctx_subject = ''did:prom:evil'', ctx_action = ''invoke'', ctx_resource = ''s1''\<rparr>"

theorem policy_order_irrelevant_witness:
  "evaluate_policy_access (demo_rules [demo_rule ''allow'' ''did:prom:*'', demo_rule ''deny'' ''did:prom:evil''] (Some ''0'')) demo_context =
   evaluate_policy_access (demo_rules [demo_rule ''deny'' ''did:prom:evil'', demo_rule ''allow'' ''did:prom:*''] None) demo_context"
  by (rule policy_order_irrelevant) (auto simp: demo_rules_def opt_set_def)

text \<open>
  Adding denials is safe. A policy obtained from another by adding denylist entries and rules
  that deny allows nothing the first one denied.
\<close>

theorem added_denial_never_allows:
  assumes "opt_set (denylist rules) \<subseteq> opt_set (denylist rules')"
    and "opt_set (allowlist rules') = opt_set (allowlist rules)"
    and "opt_set (access_rules rules') = opt_set (access_rules rules) \<union> added"
    and "\<forall>r \<in> added. effect r = ''deny''"
    and "\<not> fst (evaluate_policy_access rules ctx)"
  shows "\<not> fst (evaluate_policy_access rules' ctx)"
proof -
  have "some_rule ''allow'' rules' ctx = some_rule ''allow'' rules ctx"
    using assms(3,4) by (auto simp: some_rule_def)
  moreover have "some_rule ''deny'' rules ctx \<Longrightarrow> some_rule ''deny'' rules' ctx"
    using assms(3) by (auto simp: some_rule_def)
  moreover have "listed v (denylist rules) \<Longrightarrow> listed v (denylist rules')" for v
    using assms(1) by (auto simp: listed_def)
  moreover have "unconstrained rules' \<Longrightarrow> unconstrained rules"
    using assms(1-3) by (auto simp: unconstrained_def)
  moreover have "listed v (allowlist rules') = listed v (allowlist rules)" for v
    by (simp add: listed_def assms(2))
  moreover have "listed v (allowlist rules') = listed v (allowlist rules)" for v
    by (simp add: listed_def assms(2))
  ultimately show ?thesis
    using assms(5) unfolding evaluate_allows by blast
qed

theorem added_denial_never_allows_witness:
  "\<not> fst (evaluate_policy_access (demo_rules [demo_rule ''allow'' ''did:other:*'', demo_rule ''deny'' ''*''] None) demo_context)"
proof (rule added_denial_never_allows [where added = "{demo_rule ''deny'' ''*''}"])
  show "\<not> fst (evaluate_policy_access (demo_rules [demo_rule ''allow'' ''did:other:*''] None) demo_context)"
    by code_simp
qed (auto simp: demo_rules_def opt_set_def demo_rule_def)

text \<open>
  C6: A request passes the policy check exactly when every active policy of the called agent
  allows it, an agent without active policies letting everybody in. A refusal is a 403 with the
  reason of a policy that denies. Whatever the outcome, exactly one decision is counted, the
  one taken, under one of seven fixed labels that no request can influence, and nothing else of
  the state is touched.
\<close>

theorem assert_allowed_decides:
  assumes "find_active agent (outside w) = (Inr ps, d)"
    and "assert_allowed find_active agent ctx w = (r, w')"
  shows "(r = Inr () \<longleftrightarrow> (\<forall>p \<in> set ps. fst (evaluate_policy_access (rules_of p) ctx))) \<and>
     (r \<noteq> Inr () \<longrightarrow> (\<exists>p \<in> set ps. \<exists>why. evaluate_policy_access (rules_of p) ctx = (False, why) \<and>
        r = Inl (Forbidden (''Policy denied: '' @ why)))) \<and>
     (\<exists>l \<in> decision_labels (r = Inr ()). w' = w\<lparr>outside := d, metrics := (metrics w)\<lparr>decision_incs :=
        decision_incs (metrics w) @ [(if r = Inr () then ''allow'' else ''deny'', l)]\<rparr>\<rparr>)"
  using assert_allowed_cases [of find_active agent w ps d ctx, OF assms(1)]
proof (elim disjE exE bexE conjE)
  fix l
  assume "l \<in> decision_labels True" "\<forall>p \<in> set ps. fst (evaluate_policy_access (rules_of p) ctx)"
    "assert_allowed find_active agent ctx w = (Inr (), w\<lparr>outside := d, metrics :=
         (metrics w)\<lparr>decision_incs := decision_incs (metrics w) @ [(''allow'', l)]\<rparr>\<rparr>)"
  with assms(2) show ?thesis by auto
next
  fix why l p
  assume l: "l \<in> decision_labels False" and p: "p \<in> set ps" "evaluate_policy_access (rules_of p) ctx = (False, why)"
    and "assert_allowed find_active agent ctx w = (Inl (Forbidden (''Policy denied: '' @ why)), w\<lparr>outside := d, metrics :=
         (metrics w)\<lparr>decision_incs := decision_incs (metrics w) @ [(''deny'', l)]\<rparr>\<rparr>)"
  with assms(2) have r: "r = Inl (Forbidden (''Policy denied: '' @ why))"
    and w': "w' = w\<lparr>outside := d, metrics := (metrics w)\<lparr>decision_incs :=
      decision_incs (metrics w) @ [(''deny'', l)]\<rparr>\<rparr>" by auto
  have "\<not> (\<forall>p \<in> set ps. fst (evaluate_policy_access (rules_of p) ctx))" using p by force
  then show ?thesis using l p by (auto simp: r w')
qed

definition demo_policy :: policy where
  "demo_policy = \<lparr>policy_id = ''p1'', policy_agent_id = ''did:prom:b'', policy_name = ''no evil'',
     rules_of = demo_rules [demo_rule ''deny'' ''did:prom:evil''] None,
     policy_signature = None, policy_is_active = True\<rparr>"

theorem assert_allowed_decides_witness:
  "fst (assert_allowed (\<lambda>a d. (Inr [demo_policy], d)) ''did:prom:b'' demo_context (new_app ())) \<noteq> Inr ()"
proof -
  let ?find = "\<lambda>(a::string) (d::unit). (Inr [demo_policy] :: exn + policy list, d)"
  obtain r w' where r: "assert_allowed ?find ''did:prom:b'' demo_context (new_app ()) = (r, w')"
    by (metis surj_pair)
  have "r = Inr () \<longleftrightarrow> (\<forall>p \<in> set [demo_policy]. fst (evaluate_policy_access (rules_of p) demo_context))"
    using assert_allowed_decides [of ?find "''did:prom:b''" "new_app ()" "[demo_policy]" "()", OF _ r]
    by (simp add: new_app_def)
  moreover have "\<not> fst (evaluate_policy_access (rules_of demo_policy) demo_context)" by code_simp
  ultimately show ?thesis by (simp add: r)
qed

end
