(* ===== verification/Policy_Admin.thy ===== *)
theory Policy_Admin
  imports Policy
begin

text \<open>
  Administration of policies (\<open>src/src/modules/policy/policy.service.ts\<close>) and what it means for the
  requests checked afterwards. The repository is a parameter; a partial update is the function
  it applies to the row.
\<close>

record ('d, 'draft) policy_repo =
  save_policy :: "'draft \<Rightarrow> ('d, policy) io"
  find_policies :: "('d, policy list) io"
  find_policy_by_id :: "string \<Rightarrow> ('d, policy option) io"
  update_policy_row :: "string \<Rightarrow> (policy \<Rightarrow> policy) \<Rightarrow> ('d, unit) io"

definition create_policy :: "('d, 'draft) policy_repo \<Rightarrow> 'draft \<Rightarrow> ('d, policy) io" where
  "create_policy repo d = save_policy repo d"

definition find_all_policies :: "('d, 'draft) policy_repo \<Rightarrow> ('d, policy list) io" where
  "find_all_policies repo = find_policies repo"

definition find_one_policy :: "('d, 'draft) policy_repo \<Rightarrow> string \<Rightarrow> ('d, policy option) io" where
  "find_one_policy repo i = find_policy_by_id repo i"

definition update_policy ::
    "('d, 'draft) policy_repo \<Rightarrow> string \<Rightarrow> (policy \<Rightarrow> policy) \<Rightarrow> ('d, policy option) io" where
  "update_policy repo i change = io_bind (update_policy_row repo i change) (\<lambda>_. find_one_policy repo i)"

text \<open>
  The documented behaviour of the table: an update changes the rows with the id and no others, a
  lookup by id finds the row, and the evaluator's query yields the active rows of an agent.
\<close>

definition changed_rows :: "string \<Rightarrow> (policy \<Rightarrow> policy) \<Rightarrow> policy list \<Rightarrow> policy list" where
  "changed_rows i change ps = map (\<lambda>p. if policy_id p = i then change p else p) ps"

definition policy_table ::
    "('d \<Rightarrow> policy list) \<Rightarrow> ('d, 'draft) policy_repo \<Rightarrow> (string \<Rightarrow> ('d, policy list) io) \<Rightarrow> bool" where
  "policy_table rows repo find_active \<longleftrightarrow>
     (\<forall>i change d. \<exists>d'. update_policy_row repo i change d = (Inr (), d') \<and> rows d' = changed_rows i change (rows d)) \<and>
     (\<forall>i d. find_policy_by_id repo i d = (Inr (find (\<lambda>p. policy_id p = i) (rows d)), d)) \<and>
     (\<forall>a d. find_active a d = (Inr (filter (\<lambda>p. policy_agent_id p = a \<and> policy_is_active p) (rows d)), d))"

lemma update_policy_effect:
  assumes "policy_table rows repo find_active"
  shows "\<exists>d'. update_policy repo i change d = (Inr (find (\<lambda>p. policy_id p = i) (changed_rows i change (rows d))), d') \<and>
    rows d' = changed_rows i change (rows d)"
proof -
  from assms obtain d' where d': "update_policy_row repo i change d = (Inr (), d')" "rows d' = changed_rows i change (rows d)"
    unfolding policy_table_def by blast
  moreover have "find_policy_by_id repo i d' = (Inr (find (\<lambda>p. policy_id p = i) (rows d')), d')"
    using assms unfolding policy_table_def by blast
  ultimately show ?thesis by (simp add: update_policy_def find_one_policy_def io_bind_def)
qed

lemma allowed_iff:
  assumes "find_active a (outside w) = (Inr ps, d)"
  shows "fst (assert_allowed find_active a ctx w) = Inr () \<longleftrightarrow>
    (\<forall>p \<in> set ps. fst (evaluate_policy_access (rules_of p) ctx))"
  using assert_allowed_cases [of find_active a w ps d ctx, OF assms] by force

text \<open>
  Switching a policy takes effect with the next request. After an update of a policy the next
  request is judged by the table as it then is: with the policy's activity switched off, it passes
  exactly if every other active policy of the called agent allows it; the update of an id that is
  not in the table answers nothing and changes no outcome.
\<close>

theorem switched_policy_effective:
  assumes "policy_table rows repo find_active"
    and "on_outside (update_policy repo i (\<lambda>p. p\<lparr>policy_is_active := False\<rparr>)) w = (Inr answer, v)"
  shows "(fst (assert_allowed find_active a ctx v) = Inr ()) =
      (\<forall>p \<in> set (rows (outside w)). policy_agent_id p = a \<and> policy_is_active p \<and> policy_id p \<noteq> i \<longrightarrow>
         fst (evaluate_policy_access (rules_of p) ctx)) \<and>
    (answer = None) = (\<forall>p \<in> set (rows (outside w)). policy_id p \<noteq> i) \<and>
    (answer = None \<longrightarrow> rows (outside v) = rows (outside w))"
proof -
  let ?off = "\<lambda>p. p\<lparr>policy_is_active := False\<rparr>"
  obtain d' where d': "update_policy repo i ?off (outside w) =
      (Inr (find (\<lambda>p. policy_id p = i) (changed_rows i ?off (rows (outside w)))), d')"
    and rows: "rows d' = changed_rows i ?off (rows (outside w))"
    using update_policy_effect [OF assms(1)] by blast
  have v: "v = w\<lparr>outside := d'\<rparr>" and answer: "answer = find (\<lambda>p. policy_id p = i) (rows d')"
    using assms(2) d' rows by (auto simp: on_outside_def)
  have none: "answer = None \<longleftrightarrow> (\<forall>p \<in> set (rows (outside w)). policy_id p \<noteq> i)"
    by (auto simp: answer rows find_None_iff changed_rows_def)
  have "find_active a (outside v) = (Inr (filter (\<lambda>p. policy_agent_id p = a \<and> policy_is_active p) (rows d')), d')"
    using assms(1) unfolding policy_table_def by (simp add: v)
  from allowed_iff [of find_active a v _ d', OF this] have "(fst (assert_allowed find_active a ctx v) = Inr ()) =
      (\<forall>p \<in> set (rows (outside w)). policy_agent_id p = a \<and> policy_is_active p \<and> policy_id p \<noteq> i \<longrightarrow>
         fst (evaluate_policy_access (rules_of p) ctx))"
    by (auto simp: rows changed_rows_def)
  moreover have "rows (outside v) = rows (outside w)" if "answer = None"
    using that none by (auto simp: v rows changed_rows_def intro: map_idI)
  ultimately show ?thesis using none by blast
qed

definition list_policy_repo :: "(policy list, policy) policy_repo" where
  "list_policy_repo = \<lparr>save_policy = (\<lambda>p d. (Inr p, p # d)), find_policies = (\<lambda>d. (Inr d, d)),
     find_policy_by_id = (\<lambda>i d. (Inr (find (\<lambda>p. policy_id p = i) d), d)),
     update_policy_row = (\<lambda>i change d. (Inr (), changed_rows i change d))\<rparr>"

definition list_find_active :: "string \<Rightarrow> (policy list, policy list) io" where
  "list_find_active a d = (Inr (filter (\<lambda>p. policy_agent_id p = a \<and> policy_is_active p) d), d)"

lemma list_policy_table: "policy_table id list_policy_repo list_find_active"
  by (simp add: policy_table_def list_policy_repo_def list_find_active_def)

theorem switched_policy_effective_witness:
  "fst (assert_allowed list_find_active ''did:prom:b'' demo_context (new_app [demo_policy])) \<noteq> Inr () \<and>
   fst (assert_allowed list_find_active ''did:prom:b'' demo_context
     (snd (on_outside (update_policy list_policy_repo ''p1'' (\<lambda>p. p\<lparr>policy_is_active := False\<rparr>)) (new_app [demo_policy])))) = Inr ()"
proof
  let ?w = "new_app [demo_policy]"
  let ?m = "on_outside (update_policy list_policy_repo ''p1'' (\<lambda>p. p\<lparr>policy_is_active := False\<rparr>)) ?w"
  show "fst (assert_allowed list_find_active ''did:prom:b'' demo_context ?w) \<noteq> Inr ()" by code_simp
  have "?m = (Inr (Some (demo_policy\<lparr>policy_is_active := False\<rparr>)), snd ?m)" by code_simp
  from switched_policy_effective [OF list_policy_table this]
  show "fst (assert_allowed list_find_active ''did:prom:b'' demo_context (snd ?m)) = Inr ()"
    by (simp add: new_app_def demo_policy_def)
qed

end
