(* ===== verification/Retry.thy ===== *)
theory Retry
  imports Complex_Main Js_Regex
begin

text \<open>
  Retrying chain operations (\<open>src/src/common/blockchain/retry.util.ts\<close>): which errors count as
  transient, and the loop with its attempts, back-off and jitter. Delays are rational numbers
  of milliseconds; the random readings are an argument, and the loop returns the waits it made
  beside the result. The properties determine the outcome of the loop from the outcomes of the
  successive calls and bound what it waits.
\<close>

definition transient_patterns :: "rx list" where
  "transient_patterns =
     [RLit_ci ''timeout'', RLit_ci ''timed out'', RLit_ci ''network'', RLit ''ETIMEDOUT'', RLit ''ECONNRESET'',
      RLit ''ECONNREFUSED'', RLit_ci ''nonce too low'', RLit_ci ''replacement transaction underpriced'',
      RLit_ci ''could not detect network'']"

definition is_transient_error :: "exn \<Rightarrow> bool" where
  "is_transient_error e \<longleftrightarrow> list_ex (\<lambda>p. rx_search p (exn_message e)) transient_patterns"

text \<open>The options after the defaults were filled in.\<close>

record retry_options =
  max_attempts :: int
  initial_delay_ms :: rat
  max_delay_ms :: rat
  delay_factor :: rat
  jitter :: bool

definition retry_defaults :: retry_options where
  "retry_defaults = \<lparr>max_attempts = 5, initial_delay_ms = 200, max_delay_ms = 5000, delay_factor = 2, jitter = True\<rparr>"

definition retry_wait :: "retry_options \<Rightarrow> rat \<Rightarrow> rat \<Rightarrow> rat" where
  "retry_wait opts random delay = (if jitter opts then delay * (1 / 2 + random) else delay)"

text \<open>The loop from its \<open>attempt\<close>-th failure on; \<open>rnd i\<close> is the random reading after failure \<open>i\<close>.\<close>

function retry_loop ::
    "retry_options \<Rightarrow> (exn \<Rightarrow> bool) \<Rightarrow> (nat \<Rightarrow> rat) \<Rightarrow> ('w, 'a) io \<Rightarrow> nat \<Rightarrow> rat \<Rightarrow> exn \<Rightarrow> 'w \<Rightarrow>
     ((exn + 'a) \<times> 'w) \<times> rat list" where
  "retry_loop opts should_retry rnd operation attempt delay last_error w =
     (if \<not> int attempt < max_attempts opts then ((Inl last_error, w), [])
      else (case operation w of
              (Inr x, w') \<Rightarrow> ((Inr x, w'), [])
            | (Inl e, w') \<Rightarrow>
                if int (attempt + 1) \<ge> max_attempts opts \<or> \<not> should_retry e then ((Inl e, w'), [])
                else (let (r, waits) = retry_loop opts should_retry rnd operation (attempt + 1)
                            (min (delay * delay_factor opts) (max_delay_ms opts)) e w'
                      in (r, retry_wait opts (rnd (attempt + 1)) delay # waits))))"
  by pat_completeness auto
termination
  by (relation "measure (\<lambda>(opts, sr, rnd, m, attempt, d, e, w). nat (max_attempts opts - int attempt))") auto

declare retry_loop.simps [simp del]

definition with_retry ::
    "retry_options \<Rightarrow> (exn \<Rightarrow> bool) \<Rightarrow> (nat \<Rightarrow> rat) \<Rightarrow> ('w, 'a) io \<Rightarrow> 'w \<Rightarrow> ((exn + 'a) \<times> 'w) \<times> rat list" where
  "with_retry opts should_retry rnd operation w =
     retry_loop opts should_retry rnd operation 0 (initial_delay_ms opts) (Js_Value ''undefined'') w"

text \<open>The result of the \<open>n\<close>-th of successive calls, counted from 0.\<close>

fun nth_call :: "('w, 'a) io \<Rightarrow> nat \<Rightarrow> 'w \<Rightarrow> (exn + 'a) \<times> 'w" where
  "nth_call m 0 w = m w"
| "nth_call m (Suc n) w = nth_call m n (snd (m w))"

section \<open>The loop\<close>

text \<open>
  When the loop stops after call \<open>n\<close>: every earlier call failed with an error worth retrying,
  and call \<open>n\<close> succeeded, was the last one allowed or failed for good.
\<close>

definition stops_after ::
    "int \<Rightarrow> (exn \<Rightarrow> bool) \<Rightarrow> ('w, 'a) io \<Rightarrow> nat \<Rightarrow> nat \<Rightarrow> 'w \<Rightarrow> bool" where
  "stops_after limit should_retry m attempt n w \<longleftrightarrow>
     (\<forall>i < n. \<exists>e. fst (nth_call m i w) = Inl e \<and> should_retry e) \<and>
     int (attempt + n) < limit \<and>
     (case fst (nth_call m n w) of Inr x \<Rightarrow> True | Inl e \<Rightarrow> int (attempt + n + 1) = limit \<or> \<not> should_retry e)"

lemma stops_after_Suc:
  "m w = (Inl e, w') \<Longrightarrow> should_retry e \<Longrightarrow>
     stops_after limit should_retry m attempt (Suc n) w = stops_after limit should_retry m (Suc attempt) n w'"
  by (auto simp: stops_after_def All_less_Suc2 split: sum.split)

lemma retry_loop_stops:
  "int attempt < max_attempts opts \<Longrightarrow>
     \<exists>n. stops_after (max_attempts opts) sr m attempt n w \<and>
       fst (retry_loop opts sr rnd m attempt delay err0 w) = nth_call m n w \<and>
       length (snd (retry_loop opts sr rnd m attempt delay err0 w)) = n"
proof (induction opts sr rnd m attempt delay err0 w rule: retry_loop.induct)
  case (1 opts sr rnd m attempt delay err0 w)
  obtain r w' where mw: "m w = (r, w')" by (cases "m w")
  show ?case
  proof (cases r)
    case (Inr x)
    then show ?thesis using 1(2) mw
      by (intro exI [of _ 0]) (simp add: retry_loop.simps stops_after_def)
  next
    case (Inl e)
    show ?thesis
    proof (cases "int (attempt + 1) \<ge> max_attempts opts \<or> \<not> sr e")
      case True
      then show ?thesis using 1(2) mw Inl
        by (intro exI [of _ 0]) (auto simp: retry_loop.simps stops_after_def)
    next
      case False
      let ?d = "min (delay * delay_factor opts) (max_delay_ms opts)"
      obtain n where n: "stops_after (max_attempts opts) sr m (attempt + 1) n w'"
        "fst (retry_loop opts sr rnd m (attempt + 1) ?d e w') = nth_call m n w'"
        "length (snd (retry_loop opts sr rnd m (attempt + 1) ?d e w')) = n"
        using 1(1) [OF _ mw [symmetric] Inl False] False 1(2) mw Inl by auto
      have "retry_loop opts sr rnd m attempt delay err0 w =
          (let (r, waits) = retry_loop opts sr rnd m (attempt + 1) ?d e w'
           in (r, retry_wait opts (rnd (attempt + 1)) delay # waits))"
        using False 1(2) mw Inl by (subst retry_loop.simps) simp
      with n show ?thesis using mw Inl False
        by (intro exI [of _ "Suc n"]) (simp add: stops_after_Suc case_prod_beta Let_def)
    qed
  qed
qed

lemma stops_after_unique:
  assumes "stops_after limit sr m a n w" and "stops_after limit sr m a k w"
  shows "n = k"
proof -
  have "\<not> n < k" if "stops_after limit sr m a n w" "stops_after limit sr m a k w" for n k
  proof
    assume "n < k"
    with that(2) obtain e where "fst (nth_call m n w) = Inl e" "sr e" by (auto simp: stops_after_def)
    with that(1) have "int (a + n + 1) = limit" by (simp add: stops_after_def)
    with that(2) \<open>n < k\<close> show False by (simp add: stops_after_def)
  qed
  from this [OF assms] this [OF assms(2,1)] show ?thesis by simp
qed

lemma retry_wait_bounds:
  assumes "0 \<le> delay" and "0 \<le> random" and "random \<le> 1"
  shows "0 \<le> retry_wait opts random delay \<and> retry_wait opts random delay \<le> 3 / 2 * delay"
proof -
  have "delay * (1 / 2 + random) \<le> delay * (3 / 2)" using assms by (intro mult_left_mono) simp_all
  then show ?thesis using assms by (simp add: retry_wait_def mult.commute)
qed

lemma retry_loop_waits:
  assumes "0 \<le> delay_factor opts" and "\<And>i. 0 \<le> rnd i \<and> rnd i \<le> 1" and "0 \<le> max_delay_ms opts"
    and "0 \<le> delay" and "delay \<le> cap" and "max_delay_ms opts \<le> cap"
  shows "\<forall>x \<in> set (snd (retry_loop opts sr rnd m attempt delay err0 w)). 0 \<le> x \<and> x \<le> 3 / 2 * cap"
  using assms
proof (induction opts sr rnd m attempt delay err0 w rule: retry_loop.induct)
  case (1 opts sr rnd m attempt delay err0 w)
  let ?d = "min (delay * delay_factor opts) (max_delay_ms opts)"
  have d: "0 \<le> ?d" "?d \<le> cap" using "1.prems" by simp_all
  have here: "0 \<le> retry_wait opts (rnd (attempt + 1)) delay \<and>
      retry_wait opts (rnd (attempt + 1)) delay \<le> 3 / 2 * cap"
    using retry_wait_bounds [of delay "rnd (attempt + 1)" opts] "1.prems" by force
  show ?case
  proof (cases "\<exists>e w'. m w = (Inl e, w') \<and> int attempt < max_attempts opts \<and>
      \<not> (int (attempt + 1) \<ge> max_attempts opts \<or> \<not> sr e)")
    case True
    then obtain e w' where mw: "m w = (Inl e, w')" and less: "int attempt < max_attempts opts"
      and go: "\<not> (int (attempt + 1) \<ge> max_attempts opts \<or> \<not> sr e)" by blast
    have "\<forall>x \<in> set (snd (retry_loop opts sr rnd m (attempt + 1) ?d e w')). 0 \<le> x \<and> x \<le> 3 / 2 * cap"
      by (rule "1.IH" [OF _ mw [symmetric] refl go]) (use less "1.prems" d in auto)
    moreover have "snd (retry_loop opts sr rnd m attempt delay err0 w) =
        retry_wait opts (rnd (attempt + 1)) delay # snd (retry_loop opts sr rnd m (attempt + 1) ?d e w')"
      using mw less go by (subst retry_loop.simps) (simp add: case_prod_beta Let_def)
    ultimately show ?thesis using here by simp
  next
    case False
    then have "snd (retry_loop opts sr rnd m attempt delay err0 w) = []"
      by (subst retry_loop.simps) (auto split: prod.split sum.split)
    then show ?thesis by simp
  qed
qed

section \<open>Properties\<close>

text \<open>
  C25: The outcome of a retried operation. With at least one attempt allowed, the result and the
  final state are those of the call that follows the last wait: every call before it failed
  with an error the predicate retries, and it succeeded, or failed with another error, or was
  the last allowed. So the operation is called once more than waits were made and never more
  often than allowed, no call follows a success or an error of another kind, and the loop ends.
\<close>

theorem with_retry_outcome:
  assumes "0 < max_attempts opts"
  shows "let n = length (snd (with_retry opts should_retry rnd operation w))
    in fst (with_retry opts should_retry rnd operation w) = nth_call operation n w \<and>
       stops_after (max_attempts opts) should_retry operation 0 n w"
  using retry_loop_stops [of 0 opts should_retry operation w rnd] assms
  by (auto simp: with_retry_def Let_def)

text \<open>A node that times out twice and then answers; the state counts the calls.\<close>

definition flaky :: "(nat, string) io" where
  "flaky n = (if n < 2 then Inl (Js_Error ''Error'' ''Request Timeout'') else Inr ''receipt'', n + 1)"

theorem with_retry_outcome_witness:
  "fst (with_retry retry_defaults is_transient_error (\<lambda>i. 1 / 2) flaky 0) = (Inr ''receipt'', 3)"
proof -
  let ?n = "length (snd (with_retry retry_defaults is_transient_error (\<lambda>i. 1 / 2) flaky 0))"
  have out: "fst (with_retry retry_defaults is_transient_error (\<lambda>i. 1 / 2) flaky 0) = nth_call flaky ?n 0"
    and stops: "stops_after 5 is_transient_error flaky 0 ?n 0"
    using with_retry_outcome [of retry_defaults is_transient_error "\<lambda>i. 1 / 2" flaky 0]
    by (simp_all add: retry_defaults_def Let_def)
  have calls: "nth_call flaky 2 0 = (Inr ''receipt'', 3)"
    by (simp add: flaky_def numeral_2_eq_2)
  have "is_transient_error (Js_Error ''Error'' ''Request Timeout'')" by code_simp
  then have "stops_after 5 is_transient_error flaky 0 2 0"
    by (auto simp: stops_after_def calls flaky_def less_2_cases_iff)
  with stops have "?n = 2" by (rule stops_after_unique)
  with out calls show ?thesis by simp
qed

text \<open>
  What retrying costs. No wait is negative and none exceeds one and a half times the larger
  of the first delay and the maximal delay, and at most one wait fewer is made than attempts
  are allowed. With the defaults this is at most four waits of at most 7.5 seconds.
\<close>

theorem with_retry_waits_bounded:
  assumes "0 < max_attempts opts" and "0 \<le> delay_factor opts" and "0 \<le> max_delay_ms opts"
    and "0 \<le> initial_delay_ms opts" and "\<And>i. 0 \<le> rnd i \<and> rnd i \<le> 1"
  shows "int (length (snd (with_retry opts should_retry rnd operation w))) < max_attempts opts \<and>
    list_all (\<lambda>x. 0 \<le> x \<and> x \<le> 3 / 2 * max (initial_delay_ms opts) (max_delay_ms opts))
      (snd (with_retry opts should_retry rnd operation w))"
proof
  show "int (length (snd (with_retry opts should_retry rnd operation w))) < max_attempts opts"
    using retry_loop_stops [of 0 opts should_retry operation w rnd] assms(1)
    by (auto simp: with_retry_def stops_after_def)
  show "list_all (\<lambda>x. 0 \<le> x \<and> x \<le> 3 / 2 * max (initial_delay_ms opts) (max_delay_ms opts))
      (snd (with_retry opts should_retry rnd operation w))"
    unfolding with_retry_def list_all_iff by (rule retry_loop_waits) (use assms in auto)
qed

theorem with_retry_waits_bounded_witness:
  "list_all (\<lambda>x. 0 \<le> x \<and> x \<le> 7500) (snd (with_retry retry_defaults is_transient_error (\<lambda>i. 1 / 2) flaky 0))"
  using with_retry_waits_bounded [of retry_defaults "\<lambda>i. 1 / 2" is_transient_error flaky 0]
  by (simp add: retry_defaults_def)

end
