(* ===== verification/Chain.thy ===== *)
theory Chain
  imports Retry
begin

text \<open>
  The chain helpers under \<open>src/src/blockchain/\<close>: polling for a receipt with back-off and a
  timeout, waiting for finality, serialised nonce allocation and the contract addresses, with
  the network profile of \<open>src/src/config/networks.ts\<close>. The chain node is an effectful
  parameter. Loops that the code lets run for ever take fuel; for polling a bound is proved to
  be enough.
\<close>

record chain_receipt =
  block_number :: int
  receipt_status :: int

section \<open>Polling for a receipt\<close>

record poll_options =
  poll_timeout_ms :: int
  poll_base_ms :: int
  poll_max_ms :: int

definition poll_defaults :: poll_options where
  "poll_defaults = \<lparr>poll_timeout_ms = 120000, poll_base_ms = 500, poll_max_ms = 8000\<rparr>"

text \<open>
  Iteration \<open>i\<close>; \<open>clock i\<close> is the time read in it, \<open>started\<close> the time read before the loop. The
  second result lists the delays slept.
\<close>

fun poll_loop ::
    "nat \<Rightarrow> poll_options \<Rightarrow> int \<Rightarrow> (nat \<Rightarrow> int) \<Rightarrow> string \<Rightarrow> ('w, chain_receipt option) io \<Rightarrow> nat \<Rightarrow> int \<Rightarrow> 'w \<Rightarrow>
     ((exn + chain_receipt) \<times> 'w) option \<times> int list" where
  "poll_loop 0 opts started clock tx get_receipt i delay w = (None, [])"
| "poll_loop (Suc fuel) opts started clock tx get_receipt i delay w =
     (case get_receipt w of
        (Inl e, w') \<Rightarrow> (Some (Inl e, w'), [])
      | (Inr (Some r), w') \<Rightarrow> (Some (Inr r, w'), [])
      | (Inr None, w') \<Rightarrow>
          if clock i - started > poll_timeout_ms opts
          then (Some (Inl (Js_Error ''Error'' (''Receipt timeout for '' @ tx)), w'), [])
          else (let (r, slept) = poll_loop fuel opts started clock tx get_receipt (Suc i)
                      (min (poll_max_ms opts) (delay * 2)) w'
                in (r, delay # slept)))"

definition poll_receipt ::
    "nat \<Rightarrow> poll_options \<Rightarrow> int \<Rightarrow> (nat \<Rightarrow> int) \<Rightarrow> string \<Rightarrow> ('w, chain_receipt option) io \<Rightarrow> 'w \<Rightarrow>
     ((exn + chain_receipt) \<times> 'w) option \<times> int list" where
  "poll_receipt fuel opts started clock tx get_receipt w =
     poll_loop fuel opts started clock tx get_receipt 0 (poll_base_ms opts) w"

text \<open>The delay slept in iteration \<open>i\<close>.\<close>

fun poll_delay :: "poll_options \<Rightarrow> nat \<Rightarrow> int" where
  "poll_delay opts 0 = poll_base_ms opts"
| "poll_delay opts (Suc i) = min (poll_max_ms opts) (poll_delay opts i * 2)"

text \<open>A clock that moves on by at least what is slept.\<close>

definition sleeping_clock :: "poll_options \<Rightarrow> int \<Rightarrow> (nat \<Rightarrow> int) \<Rightarrow> bool" where
  "sleeping_clock opts started clock \<longleftrightarrow>
     started \<le> clock 0 \<and> (\<forall>i. clock i + poll_delay opts i \<le> clock (Suc i))"

text \<open>How polling ends after \<open>n\<close> polls that found nothing.\<close>

definition poll_ends ::
    "poll_options \<Rightarrow> int \<Rightarrow> (nat \<Rightarrow> int) \<Rightarrow> string \<Rightarrow> ('w, chain_receipt option) io \<Rightarrow> nat \<Rightarrow> nat \<Rightarrow> 'w \<Rightarrow>
     (exn + chain_receipt) \<times> 'w \<Rightarrow> bool" where
  "poll_ends opts started clock tx g i n w out \<longleftrightarrow>
     (\<forall>k < n. fst (nth_call g k w) = Inr None) \<and> snd out = snd (nth_call g n w) \<and>
     (case fst (nth_call g n w) of
        Inl e \<Rightarrow> fst out = Inl e
      | Inr (Some r) \<Rightarrow> fst out = Inr r
      | Inr None \<Rightarrow> clock (i + n) - started > poll_timeout_ms opts \<and>
          fst out = Inl (Js_Error ''Error'' (''Receipt timeout for '' @ tx)))"

lemma poll_ends_Suc:
  "g w = (Inr None, w') \<Longrightarrow>
     poll_ends opts started clock tx g (Suc i) n w' out \<Longrightarrow> poll_ends opts started clock tx g i (Suc n) w out"
  by (auto simp: poll_ends_def All_less_Suc2 split: sum.splits option.splits)

lemma poll_loop_ends:
  assumes "clock (i + k) - started > poll_timeout_ms opts" and "k < fuel" and "delay = poll_delay opts i"
  shows "\<exists>out n. fst (poll_loop fuel opts started clock tx g i delay w) = Some out \<and>
    poll_ends opts started clock tx g i n w out \<and> n \<le> k \<and>
    snd (poll_loop fuel opts started clock tx g i delay w) = map (poll_delay opts) [i ..< i + n]"
  using assms
proof (induction k arbitrary: fuel i delay w)
  case 0
  then obtain f where "fuel = Suc f" by (cases fuel) auto
  with 0 show ?case
    by (cases "g w"; cases "fst (g w)")
      (auto simp: poll_ends_def intro!: exI [of _ 0] split: option.split)
next
  case (Suc k)
  then obtain f where f: "fuel = Suc f" by (cases fuel) auto
  obtain r w' where g: "g w = (r, w')" by (cases "g w")
  show ?case
  proof (cases "r = Inr None \<and> \<not> clock i - started > poll_timeout_ms opts")
    case True
    obtain out n where out: "fst (poll_loop f opts started clock tx g (Suc i) (poll_delay opts (Suc i)) w') = Some out"
      "poll_ends opts started clock tx g (Suc i) n w' out" "n \<le> k"
      "snd (poll_loop f opts started clock tx g (Suc i) (poll_delay opts (Suc i)) w') = map (poll_delay opts) [Suc i ..< Suc i + n]"
      using Suc.IH [of "Suc i" f "poll_delay opts (Suc i)" w'] Suc.prems f by auto
    have "poll_loop fuel opts started clock tx g i delay w =
        (let (r, slept) = poll_loop f opts started clock tx g (Suc i) (poll_delay opts (Suc i)) w'
         in (r, delay # slept))"
      using True g f Suc.prems(3) by simp
    moreover have "poll_delay opts i # map (poll_delay opts) [Suc i ..< Suc i + n] = map (poll_delay opts) [i ..< i + Suc n]"
      using upt_conv_Cons [of i "i + Suc n"] by simp
    ultimately show ?thesis
      using out True g Suc.prems(3) poll_ends_Suc
      by (intro exI [of _ out] exI [of _ "Suc n"]) (simp add: case_prod_beta Let_def)
  next
    case False
    with g f show ?thesis
      by (intro exI [of _ "(case r of Inl e \<Rightarrow> Inl e | Inr None \<Rightarrow> Inl (Js_Error ''Error'' (''Receipt timeout for '' @ tx))
          | Inr (Some rc) \<Rightarrow> Inr rc, w')"] exI [of _ 0])
        (auto simp: poll_ends_def split: sum.split option.split)
  qed
qed

lemma poll_delay_positive:
  "1 \<le> poll_base_ms opts \<Longrightarrow> 1 \<le> poll_max_ms opts \<Longrightarrow> 1 \<le> poll_delay opts i"
  by (induction i) auto

lemma sleeping_clock_lower:
  "sleeping_clock opts started clock \<Longrightarrow> 1 \<le> poll_base_ms opts \<Longrightarrow> 1 \<le> poll_max_ms opts \<Longrightarrow>
     started + int i \<le> clock i"
proof (induction i)
  case (Suc i)
  then have "clock i + poll_delay opts i \<le> clock (Suc i)" and "1 \<le> poll_delay opts i"
    by (auto simp: sleeping_clock_def poll_delay_positive)
  with Suc show ?case by simp
qed (simp add: sleeping_clock_def)

section \<open>Waiting for finality\<close>

text \<open>
  \<open>need\<close> is \<open>None\<close> when the configured number of confirmations is not a number; no depth is
  then enough. \<open>pause\<close> is what happens in the world during the two seconds between rounds.
\<close>

fun await_final ::
    "nat \<Rightarrow> int option \<Rightarrow> ('w, chain_receipt option) io \<Rightarrow> ('w, int) io \<Rightarrow> ('w \<Rightarrow> 'w) \<Rightarrow> 'w \<Rightarrow>
     ((exn + unit) \<times> 'w) option" where
  "await_final 0 need get_receipt get_block_number pause w = None"
| "await_final (Suc fuel) need get_receipt get_block_number pause w =
     (let continue = (\<lambda>w. await_final fuel need get_receipt get_block_number pause (pause w))
      in case get_receipt w of
           (Inl e, w1) \<Rightarrow> Some (Inl e, w1)
         | (Inr None, w1) \<Rightarrow> continue w1
         | (Inr (Some r), w1) \<Rightarrow>
             if receipt_status r = 1 then
               (case get_block_number w1 of
                  (Inl e, w2) \<Rightarrow> Some (Inl e, w2)
                | (Inr head, w2) \<Rightarrow>
                    if (case need of None \<Rightarrow> False | Some k \<Rightarrow> head - block_number r \<ge> k) then
                      (case get_receipt w2 of
                         (Inl e, w3) \<Rightarrow> Some (Inl e, w3)
                       | (Inr None, w3) \<Rightarrow> continue w3
                       | (Inr (Some recheck), w3) \<Rightarrow>
                           if block_number recheck = block_number r then Some (Inr (), w3) else continue w3)
                    else continue w2)
             else continue w1)"

text \<open>A round that reports finality looked three times; any other round hands over to the next.\<close>

lemma await_final_round:
  "await_final (Suc fuel) need get_receipt get_block_number pause w = Some (Inr (), w') \<Longrightarrow>
     (\<exists>w0 w1 w2 r head k recheck. get_receipt w0 = (Inr (Some r), w1) \<and> receipt_status r = 1 \<and>
       get_block_number w1 = (Inr head, w2) \<and> need = Some k \<and> head - block_number r \<ge> k \<and>
       get_receipt w2 = (Inr (Some recheck), w') \<and> block_number recheck = block_number r) \<or>
     (\<exists>v. await_final fuel need get_receipt get_block_number pause v = Some (Inr (), w'))"
proof -
  let ?continue = "\<lambda>w. await_final fuel need get_receipt get_block_number pause (pause w)"
  assume "await_final (Suc fuel) need get_receipt get_block_number pause w = Some (Inr (), w')"
  then consider v where "?continue v = Some (Inr (), w')"
    | w1 w2 r head k recheck where "get_receipt w = (Inr (Some r), w1)" "receipt_status r = 1"
       "get_block_number w1 = (Inr head, w2)" "need = Some k" "head - block_number r \<ge> k"
       "get_receipt w2 = (Inr (Some recheck), w')" "block_number recheck = block_number r"
    by (simp only: await_final.simps Let_def)
      (auto simp del: await_final.simps split: prod.splits sum.splits option.splits if_splits)
  then show ?thesis by cases blast+
qed

section \<open>Nonce allocation\<close>

text \<open>
  The manager as its callers see it: the next nonce once one was fetched, the reservations in
  the order they were queued, the one whose function is running, and the nonces handed out so
  far with their reservations.
\<close>

record 'j nonce_manager =
  next_nonce :: "int option"
  queue :: "'j list"
  running :: "('j \<times> int) option"
  handed_out :: "('j \<times> int) list"

definition new_nonce_manager :: "'j nonce_manager" where
  "new_nonce_manager = \<lparr>next_nonce = None, queue = [], running = None, handed_out = []\<rparr>"

definition reserve :: "'j \<Rightarrow> 'j nonce_manager \<Rightarrow> 'j nonce_manager" where
  "reserve j m = m\<lparr>queue := queue m @ [j]\<rparr>"

text \<open>
  The head of the queue gets its turn when nothing runs. \<open>fetched\<close> is the outcome of
  \<open>fetchNonce\<close>, looked at only while no nonce is known; \<open>None\<close> is a failure, which rejects this
  reservation alone.
\<close>

definition begin_turn :: "int option \<Rightarrow> 'j nonce_manager \<Rightarrow> 'j nonce_manager" where
  "begin_turn fetched m =
     (case (running m, queue m) of
        (None, j # js) \<Rightarrow>
          (case (case next_nonce m of Some n \<Rightarrow> Some n | None \<Rightarrow> fetched) of
             None \<Rightarrow> m\<lparr>queue := js\<rparr>
           | Some n \<Rightarrow> m\<lparr>next_nonce := Some (n + 1), queue := js, running := Some (j, n),
               handed_out := handed_out m @ [(j, n)]\<rparr>)
      | _ \<Rightarrow> m)"

text \<open>The running function settles, with a value or an error: the chain goes on either way.\<close>

definition end_turn :: "'j nonce_manager \<Rightarrow> 'j nonce_manager" where
  "end_turn m = m\<lparr>running := None\<rparr>"

inductive manager_step :: "'j nonce_manager \<Rightarrow> 'j nonce_manager \<Rightarrow> bool" where
  reserves: "manager_step m (reserve j m)"
| begins: "manager_step m (begin_turn fetched m)"
| ends: "manager_step m (end_turn m)"

inductive reachable_manager :: "'j nonce_manager \<Rightarrow> bool" where
  start: "reachable_manager new_nonce_manager"
| step: "reachable_manager m \<Longrightarrow> manager_step m m' \<Longrightarrow> reachable_manager m'"

inductive_simps manager_step_simps: "manager_step m m'"

text \<open>What every step keeps: the nonces handed out are consecutive and end before the next one.\<close>

definition nonces_consecutive :: "'j nonce_manager \<Rightarrow> bool" where
  "nonces_consecutive m \<longleftrightarrow>
     (case next_nonce m of
        None \<Rightarrow> handed_out m = []
      | Some n \<Rightarrow> handed_out m \<noteq> [] \<and>
          map snd (handed_out m) = [n - int (length (handed_out m)) .. n - 1]) \<and>
     (\<forall>x. running m = Some x \<longrightarrow> handed_out m \<noteq> [] \<and> last (handed_out m) = x)"

lemma upto_snoc: "i \<le> n \<Longrightarrow> [i .. n] = [i .. n - 1] @ [n]"
  by (simp add: upto_rec2)

lemma begin_turn_consecutive: "nonces_consecutive m \<Longrightarrow> nonces_consecutive (begin_turn fetched m)"
proof (cases "running m = None \<and> queue m \<noteq> [] \<and> (next_nonce m \<noteq> None \<or> fetched \<noteq> None)")
  case False
  then have "begin_turn fetched m = m \<or> (\<exists>js. begin_turn fetched m = m\<lparr>queue := js\<rparr>)"
    by (auto simp: begin_turn_def split: option.split list.split)
  moreover have "nonces_consecutive (m\<lparr>queue := js\<rparr>) = nonces_consecutive m" for js
    by (simp add: nonces_consecutive_def split: option.split)
  ultimately show "nonces_consecutive m \<Longrightarrow> nonces_consecutive (begin_turn fetched m)" by metis
next
  case True
  then obtain j js where q: "queue m = j # js" and r: "running m = None" by (cases "queue m") auto
  assume inv: "nonces_consecutive m"
  show ?thesis
  proof (cases "next_nonce m")
    case None
    with True obtain f where "fetched = Some f" by auto
    with None q r inv show ?thesis by (simp add: begin_turn_def nonces_consecutive_def)
  next
    case (Some n)
    let ?k = "int (length (handed_out m))"
    have "[n - ?k .. n] = [n - ?k .. n - 1] @ [n]" by (rule upto_snoc) simp
    with Some q r inv show ?thesis by (simp add: begin_turn_def nonces_consecutive_def)
  qed
qed

lemma reserve_consecutive: "nonces_consecutive m \<Longrightarrow> nonces_consecutive (reserve j m)"
  by (simp add: nonces_consecutive_def reserve_def split: option.splits)

lemma end_turn_consecutive: "nonces_consecutive m \<Longrightarrow> nonces_consecutive (end_turn m)"
  by (simp add: nonces_consecutive_def end_turn_def split: option.splits)

lemma reachable_consecutive: "reachable_manager m \<Longrightarrow> nonces_consecutive m"
proof (induction rule: reachable_manager.induct)
  case start
  show ?case by (simp add: new_nonce_manager_def nonces_consecutive_def)
next
  case (step m m')
  from step(2) step(3) show ?case
    by (auto simp: manager_step_simps begin_turn_consecutive reserve_consecutive end_turn_consecutive)
qed

section \<open>Properties\<close>


text \<open>A node that knows the receipt from the third poll on.\<close>

definition slow_node :: "(nat, chain_receipt option) io" where
  "slow_node n = (Inr (if n < 2 then None else Some \<lparr>block_number = 7, receipt_status = 1\<rparr>), n + 1)"


text \<open>
  What finality means when it is reported. If \<open>awaitFinal\<close> returns, then in its last round the
  node had a receipt with status 1, the head was at least the required number of blocks beyond
  it, and a second look at the receipt, after that, found it in the same block; that look is
  the last thing that happened.
\<close>

theorem await_final_sound:
  assumes "await_final fuel need get_receipt get_block_number pause w = Some (Inr (), w')"
  shows "\<exists>w0 w1 w2 r head k recheck. get_receipt w0 = (Inr (Some r), w1) \<and> receipt_status r = 1 \<and>
       get_block_number w1 = (Inr head, w2) \<and> need = Some k \<and> head - block_number r \<ge> k \<and>
       get_receipt w2 = (Inr (Some recheck), w') \<and> block_number recheck = block_number r"
  using assms
proof (induction fuel arbitrary: w)
  case (Suc fuel)
  from await_final_round [OF Suc.prems] show ?case
  proof
    assume "\<exists>v. await_final fuel need get_receipt get_block_number pause v = Some (Inr (), w')"
    with Suc.IH show ?thesis by blast
  qed blast
qed simp

theorem await_final_sound_witness:
  "await_final 3 (Some 3) slow_node (\<lambda>n. (Inr (int n + 8), n)) (\<lambda>n. n + 1) 0 = Some (Inr (), 4) \<and>
   (\<exists>w0 w1 r. slow_node w0 = (Inr (Some r), w1) \<and> receipt_status r = 1)"
proof -
  have run: "await_final 3 (Some 3) slow_node (\<lambda>n. (Inr (int n + 8), n)) (\<lambda>n. n + 1) 0 = Some (Inr (), 4)"
    by (simp add: slow_node_def numeral_3_eq_3)
  from await_final_sound [OF run] run show ?thesis by blast
qed

text \<open>
  C37: A reverted transaction is waited for for ever. If the node reports, whenever it is asked,
  no receipt or one whose status is not 1, then no number of rounds makes \<open>awaitFinal\<close> return or
  fail.
\<close>

theorem await_final_reverted_never_ends:
  assumes "\<And>v. \<exists>r v'. get_receipt v = (Inr r, v') \<and> (case r of None \<Rightarrow> True | Some x \<Rightarrow> receipt_status x \<noteq> 1)"
  shows "await_final fuel need get_receipt get_block_number pause w = None"
proof (induction fuel arbitrary: w)
  case (Suc fuel)
  obtain r v' where "get_receipt w = (Inr r, v')" "case r of None \<Rightarrow> True | Some x \<Rightarrow> receipt_status x \<noteq> 1"
    using assms by blast
  with Suc show ?case by (cases r) (auto simp: Let_def)
qed simp

theorem await_final_reverted_never_ends_witness:
  "await_final 1000 (Some 3) (\<lambda>n. (Inr (Some \<lparr>block_number = 7, receipt_status = 0\<rparr>), n)) (\<lambda>n. (Inr 20, n)) id (0::nat) = None"
  by (rule await_final_reverted_never_ends) simp



end
