(* ===== verification/Catalog.thy ===== *)
theory Catalog
  imports Json
begin

text \<open>
  Pricing and catalog (\<open>src/src/modules/pricing/pricing.service.ts\<close>,
  \<open>src/src/modules/catalog/catalog.service.ts\<close> with their entities and the listing DTO): the
  batched tariff lookup, the listing with its filters and pages, and the escaping of search
  texts. The repositories are parameters. The catalog's use of pricing is proved from the
  contract of a batched lookup, a locale that the pricing service interprets.
\<close>

section \<open>Data\<close>

datatype tariff_type = PER_REQUEST | PER_TOKEN | PER_SECOND | FIXED_VARIABLE

record tariff =
  tariff_id :: string
  tariff_agent :: string
  tariff_service :: string
  tariff_type_of :: tariff_type
  base_price :: string
  variable_price :: "string option"
  currency :: string
  metadata_uri :: "string option"
  metadata_hash :: "string option"
  tariff_created_at :: int

record service =
  service_id :: string
  service_agent :: string
  service_name :: string
  service_description :: string
  input_schema :: "json option"
  output_schema :: "json option"
  sla_hints :: "json option"
  service_created_at :: int

section \<open>Pricing\<close>

text \<open>
  The tariff repository: \<open>save_tariff\<close> on created data, \<open>find_tariffs filter\<close> (newest first, for one
  service or all), \<open>find_tariffs_in ids\<close> (newest first, the services of a list).
\<close>

record ('d, 'draft) tariff_repo =
  save_tariff :: "'draft \<Rightarrow> ('d, tariff) io"
  find_tariffs :: "string option \<Rightarrow> ('d, tariff list) io"
  find_tariff_by_id :: "string \<Rightarrow> ('d, tariff option) io"
  find_tariffs_in :: "string list \<Rightarrow> ('d, tariff list) io"

definition create_tariff :: "('d, 'draft) tariff_repo \<Rightarrow> 'draft \<Rightarrow> ('d, tariff) io" where
  "create_tariff repo d = save_tariff repo d"

definition find_all_tariffs :: "('d, 'draft) tariff_repo \<Rightarrow> string option \<Rightarrow> ('d, tariff list) io" where
  "find_all_tariffs repo service_id_filter =
     find_tariffs repo (case service_id_filter of None \<Rightarrow> None | Some s \<Rightarrow> if s = [] then None else Some s)"

definition find_one_tariff :: "('d, 'draft) tariff_repo \<Rightarrow> string \<Rightarrow> ('d, tariff option) io" where
  "find_one_tariff repo i = find_tariff_by_id repo i"

text \<open>The grouping loop over a \<open>Map\<close>: push to the bucket of the service, or open one.\<close>

definition group_tariffs :: "tariff list \<Rightarrow> (string, tariff list) jsmap" where
  "group_tariffs ts = foldl (\<lambda>m t. case jsmap_get m (tariff_service t) of
       Some bucket \<Rightarrow> jsmap_set (tariff_service t) (bucket @ [t]) m
     | None \<Rightarrow> jsmap_set (tariff_service t) [t] m) [] ts"

text \<open>\<open>Array.from(new Set(xs))\<close>: the first occurrences in order.\<close>

definition unique_ids :: "string list \<Rightarrow> string list" where
  "unique_ids xs = foldl (\<lambda>seen x. if x \<in> set seen then seen else seen @ [x]) [] xs"

definition find_by_service_ids ::
    "('d, 'draft) tariff_repo \<Rightarrow> string list \<Rightarrow> ('d, (string, tariff list) jsmap) io" where
  "find_by_service_ids repo service_ids =
     (let ids = unique_ids service_ids
      in if length ids = 0 then io_return []
         else io_bind (find_tariffs_in repo ids) (\<lambda>ts. io_return (group_tariffs ts)))"

section \<open>Catalog\<close>

record list_services_dto =
  list_agent_id :: "string option"
  list_q :: "string option"
  list_include :: "string option"
  list_page :: "nat option"
  list_limit :: "nat option"

definition max_catalog_page_size :: nat where
  "max_catalog_page_size = 200"

text \<open>\<open>is_uuid\<close> is the validation library's test.\<close>

definition list_services_valid :: "(string \<Rightarrow> bool) \<Rightarrow> list_services_dto \<Rightarrow> bool" where
  "list_services_valid is_uuid q \<longleftrightarrow>
     (case list_agent_id q of None \<Rightarrow> True | Some a \<Rightarrow> is_uuid a) \<and>
     (case list_q q of None \<Rightarrow> True | Some s \<Rightarrow> length s \<le> 100) \<and>
     (case list_include q of None \<Rightarrow> True | Some s \<Rightarrow> s = ''tariffs'') \<and>
     (case list_page q of None \<Rightarrow> True | Some p \<Rightarrow> 1 \<le> p) \<and>
     (case list_limit q of None \<Rightarrow> True | Some l \<Rightarrow> 1 \<le> l \<and> l \<le> max_catalog_page_size)"

text \<open>\<open>value.replace(/[\\%_]/g, (char) => `\\${char}`)\<close>.\<close>

definition is_like_meta :: "char \<Rightarrow> bool" where
  "is_like_meta c \<longleftrightarrow> c = CHR 0x5C \<or> c = CHR ''%'' \<or> c = CHR ''_''"

definition escape_like :: "string \<Rightarrow> string" where
  "escape_like s = concat (map (\<lambda>c. if is_like_meta c then [CHR 0x5C, c] else [c]) s)"

text \<open>The query the builder assembles: conditions, newest first, and \<open>take\<close> with \<open>skip\<close>.\<close>

record service_query =
  where_agent :: "string option"
  where_like :: "string option"
  take_skip :: "(nat \<times> nat) option"

definition truthy_text :: "string option \<Rightarrow> string option" where
  "truthy_text s = (case s of None \<Rightarrow> None | Some t \<Rightarrow> if t = [] then None else Some t)"

definition build_query :: "list_services_dto \<Rightarrow> service_query" where
  "build_query q =
     \<lparr>where_agent = truthy_text (list_agent_id q),
      where_like = map_option (\<lambda>t. ''%'' @ escape_like t @ ''%'') (truthy_text (map_option js_trim (list_q q))),
      take_skip = (case list_limit q of
          None \<Rightarrow> None
        | Some l \<Rightarrow> if l = 0 then None
            else Some (l, ((case list_page q of None \<Rightarrow> 1 | Some p \<Rightarrow> p) - 1) * l))\<rparr>"

record ('d, 'draft) service_repo =
  save_service :: "'draft \<Rightarrow> ('d, service) io"
  query_services :: "service_query \<Rightarrow> ('d, service list) io"
  find_service_by_id :: "string \<Rightarrow> ('d, service option) io"

definition create_service :: "('d, 'draft) service_repo \<Rightarrow> 'draft \<Rightarrow> ('d, service) io" where
  "create_service repo d = save_service repo d"

definition find_one_service :: "('d, 'draft) service_repo \<Rightarrow> string \<Rightarrow> ('d, service option) io" where
  "find_one_service repo i = find_service_by_id repo i"

text \<open>A listed service, with its tariffs when they were asked for.\<close>

type_synonym listed_service = "service \<times> tariff list option"

text \<open>\<open>lookup\<close> is the pricing service's batched lookup.\<close>

definition list_services ::
    "('d, 'draft) service_repo \<Rightarrow> (string list \<Rightarrow> ('d, (string, tariff list) jsmap) io) \<Rightarrow> list_services_dto \<Rightarrow>
     ('d, listed_service list) io" where
  "list_services repo lookup q =
     io_bind (query_services repo (build_query q)) (\<lambda>services.
       if list_include q \<noteq> Some ''tariffs'' then io_return (map (\<lambda>s. (s, None)) services)
       else io_bind (lookup (map service_id services)) (\<lambda>tariffs.
         io_return (map (\<lambda>s. (s, Some (case jsmap_get tariffs (service_id s) of
             None \<Rightarrow> [] | Some ts \<Rightarrow> ts))) services)))"

section \<open>Grouping\<close>

lemma group_tariffs_get:
  "jsmap_get (group_tariffs ts) i =
     (case filter (\<lambda>t. tariff_service t = i) ts of [] \<Rightarrow> None | xs \<Rightarrow> Some xs)"
proof (induction ts rule: rev_induct)
  case Nil
  show ?case by (simp add: group_tariffs_def)
next
  case (snoc t ts)
  have "group_tariffs (ts @ [t]) = (case jsmap_get (group_tariffs ts) (tariff_service t) of
       Some bucket \<Rightarrow> jsmap_set (tariff_service t) (bucket @ [t]) (group_tariffs ts)
     | None \<Rightarrow> jsmap_set (tariff_service t) [t] (group_tariffs ts))"
    by (simp only: group_tariffs_def foldl_append foldl.simps)
  with snoc show ?case
    by (cases "tariff_service t = i") (auto simp: jsmap_get_set split: list.splits option.splits)
qed

lemma set_unique_ids [simp]: "set (unique_ids xs) = set xs"
  by (induction xs rule: rev_induct) (auto simp: unique_ids_def)

lemma distinct_unique_ids [simp]: "distinct (unique_ids xs)"
  by (induction xs rule: rev_induct) (auto simp: unique_ids_def)

lemma unique_ids_Nil [simp]: "unique_ids xs = [] \<longleftrightarrow> xs = []"
  using set_unique_ids by (metis set_empty)

section \<open>The contract of a batched lookup\<close>

text \<open>
  \<open>table\<close> is the truth the lookup reads, one list of tariffs per service. The lookup changes
  nothing and answers every requested service correctly, absence meaning no tariffs.
\<close>

locale batched_lookup =
  fixes lookup :: "string list \<Rightarrow> ('d, (string, tariff list) jsmap) io"
    and table :: "'d \<Rightarrow> string \<Rightarrow> tariff list"
  assumes lookup_returns: "\<exists>m. lookup ids d = (Inr m, d) \<and>
      (\<forall>i \<in> set ids. (case jsmap_get m i of None \<Rightarrow> [] | Some ts \<Rightarrow> ts) = table d i)"
begin

lemma list_services_priced:
  assumes "query_services repo (build_query q) d = (Inr services, d')" and "list_include q = Some ''tariffs''"
  shows "list_services repo lookup q d = (Inr (map (\<lambda>s. (s, Some (table d' (service_id s)))) services), d')"
proof -
  obtain m where m: "lookup (map service_id services) d' = (Inr m, d')"
    "\<And>s. s \<in> set services \<Longrightarrow> (case jsmap_get m (service_id s) of None \<Rightarrow> [] | Some ts \<Rightarrow> ts) = table d' (service_id s)"
    using lookup_returns [of "map service_id services" d'] by auto
  then show ?thesis using assms by (simp add: list_services_def io_bind_def)
qed

end

text \<open>
  The documented behaviour of the tariff query on a database whose tariffs, newest first, are
  \<open>tariffs_of d\<close>: it changes nothing and returns those whose service is in the list.
\<close>

definition tariff_query_ok :: "('d \<Rightarrow> tariff list) \<Rightarrow> ('d, 'draft) tariff_repo \<Rightarrow> bool" where
  "tariff_query_ok tariffs_of repo \<longleftrightarrow>
     (\<forall>ids d. find_tariffs_in repo ids d = (Inr (filter (\<lambda>t. tariff_service t \<in> set ids) (tariffs_of d)), d))"

text \<open>The reference: the tariffs of one service, newest first.\<close>

definition tariffs_of_service :: "('d \<Rightarrow> tariff list) \<Rightarrow> 'd \<Rightarrow> string \<Rightarrow> tariff list" where
  "tariffs_of_service tariffs_of d i = filter (\<lambda>t. tariff_service t = i) (tariffs_of d)"

lemma find_by_service_ids_batched:
  assumes "tariff_query_ok tariffs_of repo"
  shows "batched_lookup (find_by_service_ids repo) (tariffs_of_service tariffs_of)"
proof
  fix ids d
  show "\<exists>m. find_by_service_ids repo ids d = (Inr m, d) \<and>
    (\<forall>i \<in> set ids. (case jsmap_get m i of None \<Rightarrow> [] | Some ts \<Rightarrow> ts) = tariffs_of_service tariffs_of d i)"
  proof (cases "ids = []")
    case True
    then show ?thesis by (simp add: find_by_service_ids_def)
  next
    case False
    let ?ts = "filter (\<lambda>t. tariff_service t \<in> set ids) (tariffs_of d)"
    have "find_by_service_ids repo ids d = (Inr (group_tariffs ?ts), d)"
      using False assms by (simp add: find_by_service_ids_def Let_def io_bind_def tariff_query_ok_def)
    moreover have "(case jsmap_get (group_tariffs ?ts) i of None \<Rightarrow> [] | Some ts \<Rightarrow> ts) = tariffs_of_service tariffs_of d i"
      if "i \<in> set ids" for i
    proof -
      have "filter (\<lambda>t. tariff_service t = i) ?ts = filter (\<lambda>t. tariff_service t = i) (tariffs_of d)"
        using that by (auto intro: filter_cong)
      then show ?thesis by (simp add: group_tariffs_get tariffs_of_service_def split: list.split)
    qed
    ultimately show ?thesis by blast
  qed
qed

text \<open>A database that is the list of its tariffs, newest first.\<close>

definition list_tariff_repo :: "(tariff list, tariff) tariff_repo" where
  "list_tariff_repo = \<lparr>save_tariff = (\<lambda>t d. (Inr t, t # d)),
     find_tariffs = (\<lambda>s d. (Inr (case s of None \<Rightarrow> d | Some i \<Rightarrow> filter (\<lambda>t. tariff_service t = i) d), d)),
     find_tariff_by_id = (\<lambda>i d. (Inr (find (\<lambda>t. tariff_id t = i) d), d)),
     find_tariffs_in = (\<lambda>ids d. (Inr (filter (\<lambda>t. tariff_service t \<in> set ids) d), d))\<rparr>"

lemma list_tariff_repo_ok: "tariff_query_ok id list_tariff_repo"
  by (simp add: tariff_query_ok_def list_tariff_repo_def)

interpretation pricing: batched_lookup "find_by_service_ids list_tariff_repo" "tariffs_of_service id"
  by (rule find_by_service_ids_batched [OF list_tariff_repo_ok])

section \<open>Search texts\<close>

text \<open>
  The documented meaning of \<open>ILIKE\<close> with the backslash as escape character: a percent sign stands
  for any text, an underscore for any character, both literal after a backslash, and letters
  match in either case. A pattern that ends in a lone backslash is an error, here \<open>None\<close>.
\<close>

fun ilike :: "string \<Rightarrow> string \<Rightarrow> bool option" where
  "ilike [] v = Some (v = [])"
| "ilike (p # ps) v =
     (if p = CHR 0x5C then
        (case ps of
           [] \<Rightarrow> None
         | q # qs \<Rightarrow> (case v of [] \<Rightarrow> Some False
                       | c # cs \<Rightarrow> if char_lower c = char_lower q then ilike qs cs else Some False))
      else if p = CHR ''%'' then
        (case v of
           [] \<Rightarrow> ilike ps []
         | c # cs \<Rightarrow> (case ilike ps (c # cs) of Some True \<Rightarrow> Some True | _ \<Rightarrow> ilike (p # ps) cs))
      else (case v of [] \<Rightarrow> Some False
              | c # cs \<Rightarrow> if p = CHR ''_'' \<or> char_lower c = char_lower p then ilike ps cs else Some False))"

lemma escape_like_Cons:
  "escape_like (c # s) = (if is_like_meta c then [CHR 0x5C, c] else [c]) @ escape_like s"
  by (simp add: escape_like_def)

lemma ilike_percent_step:
  "ilike (CHR ''%'' # ps) [] = ilike ps []"
  "ilike (CHR ''%'' # ps) (c # cs) =
     (case ilike ps (c # cs) of Some True \<Rightarrow> Some True | _ \<Rightarrow> ilike (CHR ''%'' # ps) cs)"
  by (subst ilike.simps, simp)+

lemma ilike_escaped_step:
  "ilike (CHR 0x5C # q # qs) v =
     (case v of [] \<Rightarrow> Some False | c # cs \<Rightarrow> if char_lower c = char_lower q then ilike qs cs else Some False)"
  by (subst ilike.simps) (simp cong: list.case_cong)

lemma ilike_literal_step:
  "\<not> is_like_meta p \<Longrightarrow> ilike (p # ps) v =
     (case v of [] \<Rightarrow> Some False | c # cs \<Rightarrow> if char_lower c = char_lower p then ilike ps cs else Some False)"
  by (subst ilike.simps) (simp add: is_like_meta_def cong: list.case_cong)

declare ilike.simps(2) [simp del]

lemma ilike_percent: "ilike ''%'' v = Some True"
  by (induction v) (simp_all add: ilike_percent_step)

lemma ilike_escaped_prefix:
  "ilike (escape_like s @ ''%'') v = Some (js_lower (take (length s) v) = js_lower s \<and> length s \<le> length v)"
proof (induction s arbitrary: v)
  case Nil
  show ?case by (simp add: escape_like_def ilike_percent js_lower_def)
next
  case (Cons c s)
  then show ?case
    by (cases v; cases "is_like_meta c")
      (auto simp: escape_like_Cons ilike_escaped_step ilike_literal_step js_lower_def)
qed

lemma ilike_contains:
  "ilike (CHR ''%'' # escape_like s @ ''%'') v = Some (\<exists>u m w. v = u @ m @ w \<and> js_lower m = js_lower s)"
proof (induction v)
  case Nil
  then show ?case using ilike_escaped_prefix [of s "[]"] by (auto simp: ilike_percent_step js_lower_def)
next
  case (Cons c cs)
  let ?here = "js_lower (take (length s) (c # cs)) = js_lower s \<and> length s \<le> length (c # cs)"
  let ?there = "\<exists>u m w. cs = u @ m @ w \<and> js_lower m = js_lower s"
  have here: "?here \<longleftrightarrow> (\<exists>m w. c # cs = m @ w \<and> js_lower m = js_lower s)"
  proof
    show "?here \<Longrightarrow> \<exists>m w. c # cs = m @ w \<and> js_lower m = js_lower s" by (metis append_take_drop_id)
    assume "\<exists>m w. c # cs = m @ w \<and> js_lower m = js_lower s"
    then obtain m w where m: "c # cs = m @ w" "js_lower m = js_lower s" by blast
    then have "length m = length s" by (metis js_lower_def length_map)
    with m show ?here by simp
  qed
  have "(\<exists>u m w. c # cs = u @ m @ w \<and> js_lower m = js_lower s) \<longleftrightarrow> ?here \<or> ?there"
    unfolding here by (metis append_Cons append_Nil Cons_eq_append_conv)
  moreover have "ilike (CHR ''%'' # escape_like s @ ''%'') (c # cs) = Some (?here \<or> ?there)"
    unfolding ilike_percent_step Cons ilike_escaped_prefix by (simp split: bool.split) blast
  ultimately show ?case by simp
qed

section \<open>Pages\<close>

text \<open>What \<open>take\<close> and \<open>skip\<close> select of a result.\<close>

definition page_of :: "(nat \<times> nat) option \<Rightarrow> 'a list \<Rightarrow> 'a list" where
  "page_of ts xs = (case ts of None \<Rightarrow> xs | Some (t, s) \<Rightarrow> take t (drop s xs))"

lemma pages_cover_prefix:
  "concat (map (\<lambda>p. take l (drop (p * l) xs)) [0 ..< n]) = take (n * l) xs"
  by (induction n) (simp_all add: take_add [symmetric] add.commute)

section \<open>Properties\<close>

text \<open>
  C20: The batched lookup is a faithful replacement for one lookup per row. On a database that
  answers the tariff query as documented, a listing with tariffs gives every listed service
  exactly its own tariffs, newest first, and an empty list where there are none, as asking for
  the tariffs of each service one by one would, in the order of the listing.
\<close>

theorem listing_with_tariffs:
  assumes "tariff_query_ok tariffs_of repo" and "list_include q = Some ''tariffs''"
    and "query_services services_repo (build_query q) d = (Inr services, d')"
  shows "list_services services_repo (find_by_service_ids repo) q d =
     (Inr (map (\<lambda>s. (s, Some (tariffs_of_service tariffs_of d' (service_id s)))) services), d')"
  by (rule batched_lookup.list_services_priced [OF find_by_service_ids_batched [OF assms(1)] assms(3,2)])

definition demo_service :: "string \<Rightarrow> service" where
  "demo_service i = \<lparr>service_id = i, service_agent = ''a'', service_name = i, service_description = [],
     input_schema = None, output_schema = None, sla_hints = None, service_created_at = 0\<rparr>"

definition demo_tariff :: "string \<Rightarrow> string \<Rightarrow> tariff" where
  "demo_tariff i s = \<lparr>tariff_id = i, tariff_agent = ''a'', tariff_service = s, tariff_type_of = PER_TOKEN,
     base_price = ''1'', variable_price = None, currency = ''PROM'', metadata_uri = None, metadata_hash = None,
     tariff_created_at = 0\<rparr>"

definition demo_service_repo :: "('d, service) service_repo" where
  "demo_service_repo = \<lparr>save_service = (\<lambda>s d. (Inr s, d)),
     query_services = (\<lambda>q d. (Inr [demo_service ''s1'', demo_service ''s2''], d)),
     find_service_by_id = (\<lambda>i d. (Inr None, d))\<rparr>"

definition demo_listing :: list_services_dto where
  "demo_listing = \<lparr>list_agent_id = None, list_q = None, list_include = Some ''tariffs'', list_page = None, list_limit = None\<rparr>"

theorem listing_with_tariffs_witness:
  "fst (list_services demo_service_repo (find_by_service_ids list_tariff_repo) demo_listing
     [demo_tariff ''t3'' ''s2'', demo_tariff ''t2'' ''s9'', demo_tariff ''t1'' ''s2'']) =
   Inr [(demo_service ''s1'', Some []), (demo_service ''s2'', Some [demo_tariff ''t3'' ''s2'', demo_tariff ''t1'' ''s2''])]"
proof -
  let ?d = "[demo_tariff ''t3'' ''s2'', demo_tariff ''t2'' ''s9'', demo_tariff ''t1'' ''s2'']"
  have "query_services demo_service_repo (build_query demo_listing) ?d = (Inr [demo_service ''s1'', demo_service ''s2''], ?d)"
    by (simp add: demo_service_repo_def)
  from listing_with_tariffs [OF list_tariff_repo_ok _ this]
  show ?thesis by (simp add: demo_listing_def tariffs_of_service_def demo_service_def demo_tariff_def)
qed

text \<open>
  A search text is taken literally. Whatever characters it has, percent signs, underscores and
  backslashes included, the pattern built from it is well formed and matches, as \<open>ILIKE\<close> reads
  it, exactly the texts that contain the search text, letters in either case.
\<close>

theorem search_text_literal:
  "ilike (''%'' @ escape_like s @ ''%'') v = Some (\<exists>u m w. v = u @ m @ w \<and> js_lower m = js_lower s)"
  using ilike_contains [of s v] by simp

text \<open>
  Pages neither lose nor repeat a service. For every page size, the pages one to \<open>n\<close> of a
  result, as the query asks for them, are together its first \<open>n\<close> times that many entries in
  order; without a limit the query asks for everything.
\<close>

theorem pages_partition_listing:
  assumes "0 < l"
  shows "concat (map (\<lambda>p. page_of (take_skip (build_query (q\<lparr>list_page := Some p, list_limit := Some l\<rparr>))) xs) [1 ..< n + 1]) =
    take (n * l) xs"
proof -
  have "map (\<lambda>p. page_of (take_skip (build_query (q\<lparr>list_page := Some p, list_limit := Some l\<rparr>))) xs) [1 ..< n + 1] =
      map (\<lambda>p. take l (drop (p * l) xs)) [0 ..< n]"
    using assms
    by (simp add: map_Suc_upt [symmetric] build_query_def page_of_def del: upt_Suc)
  then show ?thesis by (simp only: pages_cover_prefix)
qed

theorem pages_partition_listing_witness:
  "concat (map (\<lambda>p. page_of (take_skip (build_query (demo_listing\<lparr>list_page := Some p, list_limit := Some 2\<rparr>))) [1, 2, 3, 4, 5 :: int]) [1 ..< 2 + 1]) =
    [1, 2, 3, 4]"
  by (subst pages_partition_listing) simp_all

end
