(* ===== verification/Canonical.thy ===== *)
theory Canonical
  imports Json
begin

text \<open>
  The canonical form of a signed request (\<open>src/src/common/crypto/request-canonicalization.ts\<close>):
  \<open>sortKeysDeep\<close>, \<open>canonicalizeSignedRequest\<close> and \<open>hashCanonicalRequest\<close>. The lemmas relate
  the canonical form to an equivalence of payloads that ignores the order of object members
  (\<open>json_equiv\<close>): the form is the same for equivalent payloads, and only for those.
\<close>

section \<open>sortKeysDeep\<close>

text \<open>
  The reduction over the sorted keys, \<open>acc[key] = sortKeysDeep(record[key])\<close>. The values are
  canonical already when it runs, since \<open>sort_keys_deep\<close> maps itself over the members first.
\<close>

definition assign_sorted :: "(string \<times> 'v) list \<Rightarrow> (string \<times> 'v) list" where
  "assign_sorted ps =
     foldl (\<lambda>acc key. obj_assign key (the (map_of ps key)) acc) [] (sort (map fst ps))"

fun sort_keys_deep :: "json \<Rightarrow> json" where
  "sort_keys_deep (JArr xs) = JArr (map sort_keys_deep xs)"
| "sort_keys_deep (JObj ps) = JObj (assign_sorted (map (\<lambda>p. (fst p, sort_keys_deep (snd p))) ps))"
| "sort_keys_deep v = v"

section \<open>The envelope and its canonical text\<close>

record envelope =
  agent_from_id :: string
  agent_to_id :: string
  session_id :: string
  request_payload :: json
  max_budget :: js_number
  policy_digest :: "string option"
  nonce :: "string option"

definition optional_member :: "string \<Rightarrow> string option \<Rightarrow> (string \<times> json) list" where
  "optional_member k v = (case v of None \<Rightarrow> [] | Some s \<Rightarrow> [(k, JStr s)])"

definition normalized_request :: "envelope \<Rightarrow> json" where
  "normalized_request e = JObj
     ([(''agentFromId'', JStr (agent_from_id e)),
       (''agentToId'', JStr (agent_to_id e)),
       (''sessionId'', JStr (session_id e)),
       (''requestPayload'', sort_keys_deep (request_payload e)),
       (''maxBudget'', JNum (max_budget e))]
      @ optional_member ''policyDigest'' (policy_digest e)
      @ optional_member ''nonce'' (nonce e))"

definition canonicalize_signed_request :: "envelope \<Rightarrow> string" where
  "canonicalize_signed_request e = stringify (normalized_request e)"

text \<open>The hash function of the runtime, SHA-256 in hexadecimal, is the parameter \<open>sha256\<close>.\<close>

definition hash_canonical_request :: "(string \<Rightarrow> string) \<Rightarrow> envelope \<Rightarrow> string" where
  "hash_canonical_request sha256 e = sha256 (canonicalize_signed_request e)"

section \<open>Equivalence of payloads\<close>

text \<open>
  Two payloads are equivalent when they differ at most in the order of object members, at any
  depth. No member is called \<open>__proto__\<close> in the payloads the equivalence speaks about.
\<close>

fun json_equiv :: "json \<Rightarrow> json \<Rightarrow> bool" where
  "json_equiv (JArr xs) w =
     (case w of JArr ys \<Rightarrow> list_all2 json_equiv xs ys | _ \<Rightarrow> False)"
| "json_equiv (JObj ps) w =
     (case w of
        JObj qs \<Rightarrow> set (map fst ps) = set (map fst qs) \<and>
          list_all (\<lambda>p. case map_of qs (fst p) of None \<Rightarrow> False | Some x \<Rightarrow> json_equiv (snd p) x) ps
      | _ \<Rightarrow> False)"
| "json_equiv v w = (v = w)"

fun no_proto :: "json \<Rightarrow> bool" where
  "no_proto (JArr xs) = list_all no_proto xs"
| "no_proto (JObj ps) = list_all (\<lambda>p. fst p \<noteq> proto_key \<and> no_proto (snd p)) ps"
| "no_proto v = True"

section \<open>What assign_sorted builds\<close>

lemma foldl_obj_assign_map_of:
  "map_of (foldl (\<lambda>acc k. obj_assign k (f k) acc) acc ks) x =
     (if x \<in> set ks \<and> x \<noteq> proto_key then Some (f x) else map_of acc x)"
  by (induction ks arbitrary: acc) (auto simp: obj_assign_def map_of_own_set)

lemma foldl_obj_assign_distinct:
  "distinct (map fst acc) \<Longrightarrow> distinct (map fst (foldl (\<lambda>acc k. obj_assign k (f k) acc) acc ks))"
  by (induction ks arbitrary: acc) (auto simp: obj_assign_def distinct_own_set)

lemma map_of_assign_sorted:
  "map_of (assign_sorted ps) k = (if k = proto_key then None else map_of ps k)"
  by (auto simp: assign_sorted_def foldl_obj_assign_map_of map_of_eq_None_iff)
    (metis domIff dom_map_of_conv_image_fst option.exhaust_sel)

lemma distinct_assign_sorted [simp]: "distinct (map fst (assign_sorted ps))"
  by (simp add: assign_sorted_def foldl_obj_assign_distinct)

lemma keys_assign_sorted: "set (map fst (assign_sorted ps)) = set (map fst ps) - {proto_key}"
  by (auto simp: keys_conv_map_of map_of_assign_sorted split: if_splits)

text \<open>The result depends on the members alone, not on their order.\<close>

lemma foldl_obj_assign_filter:
  "foldl (\<lambda>acc k. obj_assign k (f k) acc) acc ks =
     foldl (\<lambda>acc k. own_set k (f k) acc) acc (filter (\<lambda>k. k \<noteq> proto_key) ks)"
  by (induction ks arbitrary: acc) (auto simp: obj_assign_def)

lemma sort_keys_unique:
  assumes "distinct ks" and "distinct ls"
    and "set (filter P ks) = set (filter P ls)"
  shows "filter P (sort ks) = filter P (sort (ls :: string list))"
  using assms by (intro sorted_distinct_set_unique) (auto intro: sorted_wrt_filter)

lemma assign_sorted_cong:
  assumes "distinct (map fst ps)" and "distinct (map fst qs)"
    and "\<And>k. k \<noteq> proto_key \<Longrightarrow> map_of ps k = map_of qs k"
  shows "assign_sorted ps = assign_sorted qs"
proof -
  have keys: "k \<in> set (map fst ps) \<longleftrightarrow> k \<in> set (map fst qs)" if "k \<noteq> proto_key" for k
    using assms(3) [OF that] by (metis map_of_eq_None_iff list.set_map)
  have "filter (\<lambda>k. k \<noteq> proto_key) (sort (map fst ps)) = filter (\<lambda>k. k \<noteq> proto_key) (sort (map fst qs))"
    by (rule sort_keys_unique) (use assms(1,2) keys in auto)
  then show ?thesis
    unfolding assign_sorted_def foldl_obj_assign_filter
    by (intro foldl_cong) (auto simp: assms(3))
qed

section \<open>The canonical form characterises equivalence\<close>

text \<open>An object's canonical form, as its members.\<close>

lemma map_of_sort_keys_deep:
  "k \<noteq> proto_key \<Longrightarrow>
     map_of (assign_sorted (map (\<lambda>p. (fst p, sort_keys_deep (snd p))) ps)) k =
     map_option sort_keys_deep (map_of ps k)"
  by (simp add: map_of_assign_sorted map_of_snd_map)

lemma json_wf_sort_keys_deep: "json_wf v \<Longrightarrow> json_wf (sort_keys_deep v)"
proof (induction v)
  case (JObj ps)
  let ?qs = "map (\<lambda>p. (fst p, sort_keys_deep (snd p))) ps"
  have "json_wf x" if x: "(k, x) \<in> set (assign_sorted ?qs)" for k x
  proof -
    from x have "map_of (assign_sorted ?qs) k = Some x" by simp
    then obtain y where "map_of ps k = Some y" and "x = sort_keys_deep y"
      by (auto simp: map_of_assign_sorted map_of_snd_map split: if_splits)
    with JObj show ?thesis by (auto dest!: map_of_SomeD simp: list_all_iff snds.simps)
  qed
  then show ?case by (auto simp: list_all_iff)
qed (auto simp: list_all_iff)

lemma json_equiv_canonical:
  "json_wf v \<Longrightarrow> json_wf w \<Longrightarrow> json_equiv v w \<Longrightarrow> sort_keys_deep v = sort_keys_deep w"
proof (induction v arbitrary: w)
  case (JArr xs)
  then obtain ys where ys: "w = JArr ys" and all2: "list_all2 json_equiv xs ys"
    by (auto split: json.splits)
  have "list_all2 (\<lambda>x y. sort_keys_deep x = sort_keys_deep y) xs ys"
    using all2 JArr ys by (auto intro!: list.rel_mono_strong [OF all2] simp: list_all_iff)
  then show ?case
    by (simp add: ys list_all2_conv_all_nth list_eq_iff_nth_eq)
next
  case (JObj ps)
  then obtain qs where qs: "w = JObj qs" and keys: "fst ` set ps = fst ` set qs"
    and mem: "\<And>p. p \<in> set ps \<Longrightarrow> \<exists>y. map_of qs (fst p) = Some y \<and> json_equiv (snd p) y"
    by (auto simp: list_all_iff split: json.splits option.splits) force
  have "map_option sort_keys_deep (map_of ps k) = map_option sort_keys_deep (map_of qs k)" for k
  proof (cases "map_of ps k")
    case None
    with keys have "map_of qs k = None" by (simp add: map_of_eq_None_iff)
    with None show ?thesis by simp
  next
    case (Some x)
    then have p: "(k, x) \<in> set ps" by (rule map_of_SomeD)
    with mem [of "(k, x)"] obtain y where y: "map_of qs k = Some y" "json_equiv x y" by auto
    have "sort_keys_deep x = sort_keys_deep y"
      by (rule JObj.IH [OF p, of x]) (use p y JObj.prems qs in \<open>auto simp: list_all_iff dest!: map_of_SomeD\<close>)
    with Some y show ?thesis by simp
  qed
  then show ?case using JObj.prems
    by (simp add: qs) (rule assign_sorted_cong, simp_all add: map_of_snd_map)
qed auto

lemma canonical_json_equiv:
  "json_wf v \<Longrightarrow> json_wf w \<Longrightarrow> no_proto v \<Longrightarrow> no_proto w \<Longrightarrow>
     sort_keys_deep v = sort_keys_deep w \<Longrightarrow> json_equiv v w"
proof (induction v arbitrary: w)
  case (JArr xs)
  then obtain ys where ys: "w = JArr ys" by (cases w) auto
  with JArr show ?case
    by (auto simp: list_all_iff list_all2_conv_all_nth list_eq_iff_nth_eq)
next
  case (JObj ps)
  then obtain qs where qs: "w = JObj qs" by (cases w) auto
  let ?canon = "\<lambda>xs. assign_sorted (map (\<lambda>p. (fst p, sort_keys_deep (snd p))) xs)"
  from JObj.prems(5) qs have eq: "?canon ps = ?canon qs" by simp
  have np: "proto_key \<notin> fst ` set ps" "proto_key \<notin> fst ` set qs"
    using JObj.prems(3,4) qs by (auto simp: list_all_iff)
  have keys: "set (map fst ps) = set (map fst qs)"
    using arg_cong [OF eq, of "\<lambda>xs. set (map fst xs)"] np by (simp only: keys_assign_sorted) auto
  have "\<exists>y. map_of qs (fst p) = Some y \<and> json_equiv (snd p) y" if p: "p \<in> set ps" for p
  proof -
    have k: "fst p \<noteq> proto_key" using np(1) p by (metis image_eqI)
    have px: "map_of ps (fst p) = Some (snd p)" using JObj.prems(1) p by simp
    with k arg_cong [OF eq [symmetric], of "\<lambda>xs. map_of xs (fst p)"]
    obtain y where y: "map_of qs (fst p) = Some y" "sort_keys_deep (snd p) = sort_keys_deep y"
      by (auto simp: map_of_sort_keys_deep)
    have "json_equiv (snd p) y"
      by (rule JObj.IH [OF p, of "snd p"])
        (use p y JObj.prems qs in \<open>auto simp: list_all_iff snds.simps dest!: map_of_SomeD\<close>)
    with y show ?thesis by blast
  qed
  then have "list_all (\<lambda>p. case map_of qs (fst p) of None \<Rightarrow> False | Some x \<Rightarrow> json_equiv (snd p) x) ps"
    unfolding list_all_iff by (metis option.simps(5))
  with keys show ?case by (simp add: qs)
qed (case_tac [!] w, auto)

lemma sort_keys_deep_idem: "json_wf v \<Longrightarrow> sort_keys_deep (sort_keys_deep v) = sort_keys_deep v"
proof (induction v)
  case (JObj ps)
  let ?canon = "\<lambda>xs. assign_sorted (map (\<lambda>p. (fst p, sort_keys_deep (snd p))) xs)"
  have "map_option sort_keys_deep (map_option sort_keys_deep (map_of ps k)) =
      map_option sort_keys_deep (map_of ps k)" for k
  proof (cases "map_of ps k")
    case (Some x)
    then have "(k, x) \<in> set ps" by (rule map_of_SomeD)
    with JObj have "sort_keys_deep (sort_keys_deep x) = sort_keys_deep x"
      by (auto simp: list_all_iff snds.simps)
    with Some show ?thesis by simp
  qed simp
  then have "?canon (?canon ps) = ?canon ps"
    using JObj.prems
    by (intro assign_sorted_cong) (simp_all add: map_of_snd_map map_of_assign_sorted)
  then show ?case by simp
qed (auto simp: list_all_iff)

section \<open>Envelopes\<close>

text \<open>
  An envelope as the validated request carries it: the budget is a number, and the payload is
  a JSON value whose objects have no member named \<open>__proto__\<close>.
\<close>

definition envelope_wf :: "envelope \<Rightarrow> bool" where
  "envelope_wf e \<longleftrightarrow> number_wf (max_budget e) \<and> json_wf (request_payload e) \<and> no_proto (request_payload e)"

definition envelope_equiv :: "envelope \<Rightarrow> envelope \<Rightarrow> bool" where
  "envelope_equiv e f \<longleftrightarrow>
     agent_from_id e = agent_from_id f \<and> agent_to_id e = agent_to_id f \<and> session_id e = session_id f \<and>
     json_equiv (request_payload e) (request_payload f) \<and> max_budget e = max_budget f \<and>
     policy_digest e = policy_digest f \<and> nonce e = nonce f"

lemma json_wf_normalized: "envelope_wf e \<Longrightarrow> json_wf (normalized_request e)"
  by (auto simp: normalized_request_def envelope_wf_def optional_member_def json_wf_sort_keys_deep
      split: option.split)

lemma normalized_request_eq_iff:
  "normalized_request e = normalized_request f \<longleftrightarrow>
     agent_from_id e = agent_from_id f \<and> agent_to_id e = agent_to_id f \<and> session_id e = session_id f \<and>
     sort_keys_deep (request_payload e) = sort_keys_deep (request_payload f) \<and>
     max_budget e = max_budget f \<and> policy_digest e = policy_digest f \<and> nonce e = nonce f"
  by (auto simp: normalized_request_def optional_member_def split: option.splits)

lemma sort_keys_deep_eq_iff:
  "envelope_wf e \<Longrightarrow> envelope_wf f \<Longrightarrow>
     sort_keys_deep (request_payload e) = sort_keys_deep (request_payload f) \<longleftrightarrow>
     json_equiv (request_payload e) (request_payload f)"
  unfolding envelope_wf_def using json_equiv_canonical canonical_json_equiv by blast

text \<open>
  C5: The canonical string of a request identifies the request. Two envelopes with numeric
  budgets and payloads without a \<open>__proto__\<close> member have the same canonical string exactly when
  they agree in every field, the payloads up to the order of object members at any depth. So
  the order in which a client serialises its payload does not change what is hashed, and no two
  different requests are hashed from the same string.
\<close>

theorem canonical_request_identifies:
  assumes "envelope_wf e" and "envelope_wf f"
  shows "canonicalize_signed_request e = canonicalize_signed_request f \<longleftrightarrow> envelope_equiv e f"
proof -
  have "canonicalize_signed_request e = canonicalize_signed_request f \<longleftrightarrow>
      normalized_request e = normalized_request f"
    unfolding canonicalize_signed_request_def
    using stringify_inj [OF json_wf_normalized [OF assms(1)] json_wf_normalized [OF assms(2)]] by metis
  then show ?thesis
    by (simp only: normalized_request_eq_iff envelope_equiv_def sort_keys_deep_eq_iff [OF assms])
qed

text \<open>The envelope of the repository's fixture \<open>nested-key-order-independent\<close>, with a payload to fill in.\<close>

definition fixture_envelope :: "json \<Rightarrow> envelope" where
  "fixture_envelope p = \<lparr>agent_from_id = ''agent-x'', agent_to_id = ''agent-y'', session_id = ''sess-002'',
     request_payload = p, max_budget = ''0.5'', policy_digest = None, nonce = Some ''n-abc''\<rparr>"

theorem canonical_request_identifies_witness:
  "canonicalize_signed_request (fixture_envelope
      (JObj [(''z'', JNum ''1''), (''a'', JObj [(''nested'', JBool True), (''id'', JNum ''42'')])])) =
   canonicalize_signed_request (fixture_envelope
      (JObj [(''a'', JObj [(''id'', JNum ''42''), (''nested'', JBool True)]), (''z'', JNum ''1'')]))"
proof -
  let ?e = "fixture_envelope
      (JObj [(''z'', JNum ''1''), (''a'', JObj [(''nested'', JBool True), (''id'', JNum ''42'')])])"
  let ?f = "fixture_envelope
      (JObj [(''a'', JObj [(''id'', JNum ''42''), (''nested'', JBool True)]), (''z'', JNum ''1'')])"
  have "envelope_wf ?e" and "envelope_wf ?f" by code_simp+
  moreover have "envelope_equiv ?e ?f" by code_simp
  ultimately show ?thesis using canonical_request_identifies [of ?e ?f] by blast
qed

text \<open>
  What the canonical form leaves out. A payload member called \<open>__proto__\<close> never reaches the
  canonical string, whatever its value and at whatever position, because \<open>sortKeysDeep\<close> assigns
  it to the prototype of a fresh object: a request with the member and the request without it
  have the same canonical string, hence the same hash.
\<close>

theorem proto_member_not_hashed:
  "hash_canonical_request sha256 (e\<lparr>request_payload := JObj (ps @ (''__proto__'', v) # qs)\<rparr>) =
   hash_canonical_request sha256 (e\<lparr>request_payload := JObj (ps @ qs)\<rparr>)"
proof -
  have "assign_sorted (xs @ (proto_key, x) # ys) = assign_sorted (xs @ ys)" for xs ys and x :: json
  proof -
    have "filter (\<lambda>k. k \<noteq> proto_key) (sort (map fst (xs @ (proto_key, x) # ys))) =
        filter (\<lambda>k. k \<noteq> proto_key) (sort (map fst (xs @ ys)))"
      by (simp add: filter_sort)
    moreover have "map_of (xs @ (proto_key, x) # ys) k = map_of (xs @ ys) k" if "k \<noteq> proto_key" for k
      using that by (simp add: map_add_def split: option.split)
    ultimately show ?thesis
      unfolding assign_sorted_def foldl_obj_assign_filter by (intro foldl_cong) auto
  qed
  then show ?thesis
    by (simp add: hash_canonical_request_def canonicalize_signed_request_def normalized_request_def
        proto_key_def)
qed

end
