(* ===== verification/Metering.thy ===== *)
theory Metering
  imports App_State Json
begin

text \<open>
  Metering: usage records and signed receipts
  (\<open>src/src/modules/metering/metering.service.ts\<close>) and the hourly rollup
  (\<open>src/src/modules/metering/metering-rollup.job.ts\<close>) with their entities. The repositories and
  the wallet's signature are parameters; what the rollup relies on of the database is a named
  hypothesis. The properties show that a receipt's signature covers all of its fields, that a
  rollup run writes the exact sums of its hour, and which records no scheduled run ever counts.
\<close>

section \<open>Usage and receipts\<close>

text \<open>The columns of a usage record; big integers are carried as the numbers their text denotes.\<close>

record usage_draft =
  usage_session :: string
  usage_agent :: string
  usage_tokens :: int
  usage_cpu_ms :: int
  usage_bytes_in :: int
  usage_bytes_out :: int
  usage_model :: "string option"
  usage_tool_calls :: int

record usage_record = usage_draft +
  usage_id :: string
  usage_created_at :: int

record receipt_draft =
  receipt_session :: string
  receipt_request_hash :: string
  receipt_result_hash :: "string option"
  receipt_metrics :: json
  receipt_price :: string
  receipt_nonce :: string
  receipt_signature :: string

record receipt = receipt_draft +
  receipt_id :: string
  receipt_created_at :: int

record 'd metering_repo =
  save_usage :: "usage_draft \<Rightarrow> ('d, usage_record) io"
  usage_by_session :: "string \<Rightarrow> ('d, usage_record list) io"
  save_receipt :: "receipt_draft \<Rightarrow> ('d, receipt) io"
  receipts_by_session :: "string \<Rightarrow> ('d, receipt list) io"
  sign_message :: "string \<Rightarrow> ('d, string) io"

definition record_usage :: "'d metering_repo \<Rightarrow> usage_draft \<Rightarrow> ('d, usage_record) io" where
  "record_usage repo d = save_usage repo d"

definition get_usage_by_session :: "'d metering_repo \<Rightarrow> string \<Rightarrow> ('d, usage_record list) io" where
  "get_usage_by_session repo s = usage_by_session repo s"

text \<open>The parameters of \<open>createSignedReceipt\<close>.\<close>

record receipt_params =
  param_session :: string
  param_request_hash :: string
  param_result_hash :: "string option"
  param_metrics :: json
  param_price :: string

definition hash_or_null :: "string option \<Rightarrow> json" where
  "hash_or_null h = (case h of None \<Rightarrow> JNull | Some s \<Rightarrow> JStr s)"

definition receipt_json :: "receipt_params \<Rightarrow> string \<Rightarrow> json" where
  "receipt_json p nonce = JObj
     [(''sessionId'', JStr (param_session p)),
      (''requestHash'', JStr (param_request_hash p)),
      (''resultHash'', hash_or_null (param_result_hash p)),
      (''usageMetrics'', param_metrics p),
      (''priceComputed'', JStr (param_price p)),
      (''nonce'', JStr nonce)]"

definition receipt_message :: "receipt_params \<Rightarrow> string \<Rightarrow> string" where
  "receipt_message p nonce = stringify (receipt_json p nonce)"

definition receipt_of :: "receipt_params \<Rightarrow> string \<Rightarrow> string \<Rightarrow> receipt_draft" where
  "receipt_of p nonce signature = \<lparr>receipt_session = param_session p, receipt_request_hash = param_request_hash p,
     receipt_result_hash = param_result_hash p, receipt_metrics = param_metrics p, receipt_price = param_price p,
     receipt_nonce = nonce, receipt_signature = signature\<rparr>"

text \<open>\<open>uuid\<close> is the random UUID drawn for the receipt.\<close>

definition create_signed_receipt :: "'d metering_repo \<Rightarrow> string \<Rightarrow> receipt_params \<Rightarrow> ('d, receipt) io" where
  "create_signed_receipt repo uuid p =
     io_bind (sign_message repo (receipt_message p uuid)) (\<lambda>signature.
       save_receipt repo (receipt_of p uuid signature))"

definition create_receipt :: "'d metering_repo \<Rightarrow> receipt_draft \<Rightarrow> ('d, receipt) io" where
  "create_receipt repo d = save_receipt repo d"

definition get_receipts_by_session :: "'d metering_repo \<Rightarrow> string \<Rightarrow> ('d, receipt list) io" where
  "get_receipts_by_session repo s = receipts_by_session repo s"

section \<open>The hourly rollup\<close>

definition hour_ms :: int where
  "hour_ms = 3600000"

definition truncate_to_hour :: "int \<Rightarrow> int" where
  "truncate_to_hour t = t - t mod hour_ms"

text \<open>The bounds of the query: \<open>createdAt >= hourBucket AND createdAt < hourEnd\<close>.\<close>

definition rollup_window :: "int \<Rightarrow> int \<times> int" where
  "rollup_window reference = (let b = truncate_to_hour reference in (b, b + hour_ms))"

record usage_aggregate =
  agg_agent :: string
  agg_requests :: int
  agg_tokens :: int
  agg_bytes_in :: int
  agg_bytes_out :: int
  agg_cpu_ms :: int

text \<open>The grouped query over a time range, and the insert that updates on a conflicting agent and hour.\<close>

record 'd rollup_repo =
  aggregate_usage :: "int \<Rightarrow> int \<Rightarrow> ('d, usage_aggregate list) io"
  upsert_rollup :: "int \<Rightarrow> usage_aggregate \<Rightarrow> ('d, unit) io"

fun upsert_all :: "'d rollup_repo \<Rightarrow> int \<Rightarrow> usage_aggregate list \<Rightarrow> ('d, unit) io" where
  "upsert_all repo bucket [] = io_return ()"
| "upsert_all repo bucket (r # rs) = io_bind (upsert_rollup repo bucket r) (\<lambda>_. upsert_all repo bucket rs)"

definition rollup :: "'d rollup_repo \<Rightarrow> int \<Rightarrow> ('d, nat) io" where
  "rollup repo reference =
     (let (bucket, bucket_end) = rollup_window reference
      in io_bind (aggregate_usage repo bucket bucket_end) (\<lambda>rows.
           if length rows = 0 then io_return 0
           else io_bind (upsert_all repo bucket rows) (\<lambda>_. io_return (length rows))))"

text \<open>\<open>now\<close> is the clock reading of the success gauge.\<close>

definition run_hourly_rollup :: "'d rollup_repo \<Rightarrow> int \<Rightarrow> int \<Rightarrow> ('d app, nat) io" where
  "run_hourly_rollup repo now reference =
     io_catch
       (io_bind (on_outside (rollup repo reference)) (\<lambda>buckets.
        io_bind (on_metrics (record_rollup_run ''success'' buckets now)) (\<lambda>_.
        io_return buckets)))
       (\<lambda>e. io_bind (on_metrics (record_rollup_run ''failure'' 0 now)) (\<lambda>_. io_throw e))"

section \<open>What the database does\<close>

text \<open>The reference: one row per agent that has records, with the sums of that agent's records.\<close>

definition agent_sum :: "string \<Rightarrow> usage_record list \<Rightarrow> usage_aggregate" where
  "agent_sum a us = (let mine = filter (\<lambda>u. usage_agent u = a) us
     in \<lparr>agg_agent = a, agg_requests = int (length mine), agg_tokens = sum_list (map usage_tokens mine),
         agg_bytes_in = sum_list (map usage_bytes_in mine), agg_bytes_out = sum_list (map usage_bytes_out mine),
         agg_cpu_ms = sum_list (map usage_cpu_ms mine)\<rparr>)"

definition in_window :: "int \<Rightarrow> int \<Rightarrow> usage_record list \<Rightarrow> usage_record list" where
  "in_window from to us = filter (\<lambda>u. from \<le> usage_created_at u \<and> usage_created_at u < to) us"

text \<open>
  The documented behaviour the job relies on, for a view of the database as its usage records and
  its rollups by agent and hour: the grouped query changes nothing and returns each agent with
  records in the range once, and the upsert sets one entry of the rollups.
\<close>

definition rollup_db ::
    "('d \<Rightarrow> usage_record list) \<Rightarrow> ('d \<Rightarrow> string \<times> int \<Rightarrow> usage_aggregate option) \<Rightarrow> 'd rollup_repo \<Rightarrow> bool" where
  "rollup_db usages rollups repo \<longleftrightarrow>
     (\<forall>from to d. \<exists>as. aggregate_usage repo from to d =
        (Inr (map (\<lambda>a. agent_sum a (in_window from to (usages d))) as), d) \<and>
        distinct as \<and> set as = usage_agent ` set (in_window from to (usages d))) \<and>
     (\<forall>b r d. \<exists>d'. upsert_rollup repo b r d = (Inr (), d') \<and> usages d' = usages d \<and>
        rollups d' = (rollups d)((agg_agent r, b) \<mapsto> r))"

lemma upsert_all_effect:
  assumes "rollup_db usages rollups repo"
  shows "\<exists>d'. upsert_all repo b rs d = (Inr (), d') \<and> usages d' = usages d \<and>
    rollups d' = rollups d ++ map_of (rev (map (\<lambda>r. ((agg_agent r, b), r)) rs))"
proof (induction rs arbitrary: d)
  case (Cons r rs)
  obtain d1 where d1: "upsert_rollup repo b r d = (Inr (), d1)" "usages d1 = usages d"
    "rollups d1 = (rollups d)((agg_agent r, b) \<mapsto> r)"
    using assms unfolding rollup_db_def by blast
  with Cons.IH [of d1] show ?case
    by (auto simp: io_bind_def map_add_def fun_upd_def intro!: ext split: option.split)
qed simp

lemma agent_sum_agent [simp]: "agg_agent (agent_sum a us) = a"
  by (simp add: agent_sum_def Let_def)

lemma map_of_agent_rows:
  "map_of (rev (map (\<lambda>a. ((a, b), f a)) as)) (a, b') = (if b' = b \<and> a \<in> set as then Some (f a) else None)"
  by (induction as) (auto simp: map_add_def split: option.split)

text \<open>The effect of one rollup on the database.\<close>

lemma rollup_effect:
  fixes reference :: int
  defines "b \<equiv> truncate_to_hour reference"
  assumes "rollup_db usages rollups repo"
  shows "\<exists>d'. rollup repo reference d =
       (Inr (card (usage_agent ` set (in_window b (b + hour_ms) (usages d)))), d') \<and>
     usages d' = usages d \<and>
     (\<forall>a h. rollups d' (a, h) =
        (if h = b \<and> a \<in> usage_agent ` set (in_window b (b + hour_ms) (usages d))
         then Some (agent_sum a (in_window b (b + hour_ms) (usages d))) else rollups d (a, h)))"
proof -
  let ?us = "in_window b (b + hour_ms) (usages d)"
  obtain as where rows: "aggregate_usage repo b (b + hour_ms) d = (Inr (map (\<lambda>a. agent_sum a ?us) as), d)"
    and as: "distinct as" "set as = usage_agent ` set ?us"
    using assms(2) unfolding rollup_db_def by blast
  obtain d' where d': "upsert_all repo b (map (\<lambda>a. agent_sum a ?us) as) d = (Inr (), d')" "usages d' = usages d"
    "rollups d' = rollups d ++ map_of (rev (map (\<lambda>a. ((a, b), agent_sum a ?us)) as))"
    using upsert_all_effect [OF assms(2), of b "map (\<lambda>a. agent_sum a ?us) as" d] by (auto simp: comp_def)
  have len: "length as = card (usage_agent ` set ?us)" using as distinct_card by metis
  have "rollup repo reference d = (Inr (length as), d')"
  proof (cases as)
    case Nil
    with rows d' show ?thesis by (simp add: rollup_def rollup_window_def Let_def io_bind_def flip: b_def)
  next
    case (Cons x xs)
    with rows d' show ?thesis by (simp add: rollup_def rollup_window_def Let_def io_bind_def flip: b_def)
  qed
  moreover have "rollups d' (a, h) = (if h = b \<and> a \<in> set as then Some (agent_sum a ?us) else rollups d (a, h))" for a h
    using map_of_agent_rows [of b "\<lambda>a. agent_sum a ?us" as a h] by (simp add: d'(3) map_add_def)
  ultimately show ?thesis using d'(2) len as(2) by auto
qed

section \<open>Properties\<close>

definition params_wf :: "receipt_params \<Rightarrow> bool" where
  "params_wf p \<longleftrightarrow> json_wf (param_metrics p)"

text \<open>
  C17: A receipt's signature covers everything in it. The signed text determines the session, both
  hashes, the metrics, the price and the nonce: two receipts with the same signed text agree in
  all of these, the metrics down to the order of their members, and an absent result hash is
  told from every present one.
\<close>

theorem receipt_message_covers:
  assumes "params_wf p" and "params_wf q"
  shows "receipt_message p n = receipt_message q m \<longleftrightarrow> receipt_of p n s = receipt_of q m s"
proof -
  have wf: "json_wf (receipt_json x k)" if "params_wf x" for x k
    using that by (simp add: receipt_json_def params_wf_def hash_or_null_def split: option.split)
  have null: "hash_or_null a = hash_or_null b \<longleftrightarrow> a = b" for a b
    by (simp add: hash_or_null_def split: option.split)
  have "receipt_message p n = receipt_message q m \<longleftrightarrow> receipt_json p n = receipt_json q m"
    unfolding receipt_message_def using stringify_inj [OF wf [OF assms(1)] wf [OF assms(2)]] by metis
  then show ?thesis by (auto simp: receipt_json_def null receipt_of_def)
qed

definition demo_params :: "string option \<Rightarrow> receipt_params" where
  "demo_params h = \<lparr>param_session = ''s1'', param_request_hash = ''aa'', param_result_hash = h,
     param_metrics = JObj [(''tokensUsed'', JNum ''7'')], param_price = ''0.00070000''\<rparr>"

theorem receipt_message_covers_witness:
  "receipt_message (demo_params None) ''n'' \<noteq> receipt_message (demo_params (Some ''null'')) ''n''"
proof -
  have "params_wf (demo_params None)" "params_wf (demo_params (Some ''null''))" by code_simp+
  then show ?thesis
    using receipt_message_covers [of "demo_params None" "demo_params (Some ''null'')" "''n''" "''n''" "[]"]
    by (simp add: receipt_of_def demo_params_def)
qed


text \<open>A database as two lists, queried and updated as documented.\<close>

type_synonym demo_db = "usage_record list \<times> (string \<times> int \<Rightarrow> usage_aggregate option)"

definition demo_rollup_repo :: "demo_db rollup_repo" where
  "demo_rollup_repo = \<lparr>
     aggregate_usage = (\<lambda>from to d. (Inr (map (\<lambda>a. agent_sum a (in_window from to (fst d)))
        (remdups (map usage_agent (in_window from to (fst d))))), d)),
     upsert_rollup = (\<lambda>b r d. (Inr (), (fst d, (snd d)((agg_agent r, b) \<mapsto> r))))\<rparr>"

lemma demo_rollup_db: "rollup_db fst snd demo_rollup_repo"
  by (auto simp: rollup_db_def demo_rollup_repo_def intro!: exI [of _ "remdups (map usage_agent (in_window _ _ _))"])

definition demo_usage :: "int \<Rightarrow> usage_record" where
  "demo_usage t = \<lparr>usage_session = ''s1'', usage_agent = ''did:prom:b'', usage_tokens = 7, usage_cpu_ms = 1,
     usage_bytes_in = 28, usage_bytes_out = 90, usage_model = None, usage_tool_calls = 1,
     usage_id = ''u'', usage_created_at = t\<rparr>"


text \<open>
  A failed run is reported and counted. Whatever the query or an upsert throws, the run throws
  the same, one failure is counted, and the gauges of the last successful run keep their values.
\<close>

theorem failed_rollup_counted:
  assumes "rollup repo reference (outside w) = (Inl e, d')"
  shows "run_hourly_rollup repo now reference w =
     (Inl e, w\<lparr>outside := d', metrics := (metrics w)\<lparr>run_incs := run_incs (metrics w) @ [''failure'']\<rparr>\<rparr>)"
  using assms
  by (simp add: run_hourly_rollup_def io_catch_def io_bind_def on_outside_def record_rollup_run_def Let_def)

theorem failed_rollup_counted_witness:
  "fst (run_hourly_rollup \<lparr>aggregate_usage = (\<lambda>from to d. (Inl (Typeorm_Error ''down''), d)),
     upsert_rollup = (\<lambda>b r d. (Inr (), d))\<rparr> 5 5 (new_app ())) = Inl (Typeorm_Error ''down'')"
  by (subst failed_rollup_counted [where e = "Typeorm_Error ''down''" and d' = "()"])
    (simp_all add: rollup_def rollup_window_def Let_def io_bind_def new_app_def)

text \<open>
  What the schedule misses. With a run every hour from a first run on, each for the hour that
  contains its own time, a record created later within its hour than the runs come is counted
  by no run: every run whose window contains it takes place before it exists.
\<close>

theorem late_usage_never_rolled_up:
  assumes "created mod hour_ms > first_run mod hour_ms"
  shows "\<not> (\<exists>k :: nat. let run = first_run + int k * hour_ms
     in created \<le> run \<and> fst (rollup_window run) \<le> created \<and> created < snd (rollup_window run))"
proof
  assume "\<exists>k :: nat. let run = first_run + int k * hour_ms
     in created \<le> run \<and> fst (rollup_window run) \<le> created \<and> created < snd (rollup_window run)"
  then obtain k :: nat where k: "let run = first_run + int k * hour_ms
     in created \<le> run \<and> fst (rollup_window run) \<le> created \<and> created < snd (rollup_window run)" by blast
  define run where "run = first_run + int k * hour_ms"
  have run: "run mod hour_ms = first_run mod hour_ms" "created \<le> run"
    "run - run mod hour_ms \<le> created" "created < run - run mod hour_ms + hour_ms"
    using k by (simp_all add: Let_def rollup_window_def truncate_to_hour_def run_def)
  have "run div hour_ms * hour_ms \<le> created" "created < run div hour_ms * hour_ms + hour_ms"
    using run(3,4) unfolding minus_mod_eq_div_mult .
  then have "created div hour_ms = run div hour_ms"
    by (simp add: hour_ms_def)
  then have "created mod hour_ms \<le> run mod hour_ms"
    using run(2) by (metis add_le_cancel_left div_mult_mod_eq)
  with assms run(1) show False by simp
qed

theorem late_usage_never_rolled_up_witness:
  "\<not> (\<exists>k :: nat. let run = 1800000 + int k * hour_ms
     in 2000000 \<le> run \<and> fst (rollup_window run) \<le> 2000000 \<and> 2000000 < snd (rollup_window run))"
  by (rule late_usage_never_rolled_up) (simp add: hour_ms_def)

end
