(* ===== verification/Protocol.thy ===== *)
theory Protocol
  imports Canonical Policy Metering
begin

text \<open>
  The request handler of the agent-to-agent protocol
  (\<open>src/src/modules/protocol/protocol.service.ts\<close>, with its DTO): canonical hash, replay
  protection, policy check, processing, usage record and signed receipt, in the code's order
  over the shared state. The properties say what a completed request has passed, what a refused
  one leaves behind, and which fields of a request have no influence.
\<close>

record a2a_request = envelope +
  claimed_hash :: string
  request_signature :: string

text \<open>
  The runtime and the services' parameters: the two hash functions, the query for active
  policies and the metering repository.
\<close>

record 'd protocol_env =
  sha256 :: "string \<Rightarrow> string"
  keccak256 :: "string \<Rightarrow> string"
  find_active :: "string \<Rightarrow> ('d, policy list) io"
  metering :: "'d metering_repo"
  nonce_window_ms :: int

text \<open>What one request reads from clock and random source, in the order it reads them.\<close>

record request_readings =
  nonce_evict_ms :: int
  nonce_seen_ms :: int
  start_ms :: int
  iso_timestamp :: string
  end_ms :: int
  receipt_uuid :: string

record a2a_response =
  response_status :: string
  response_session :: string
  response_result_hash :: string
  response_receipt :: receipt

definition request_hash :: "'d protocol_env \<Rightarrow> a2a_request \<Rightarrow> string" where
  "request_hash env dto = hash_canonical_request (sha256 env) (envelope.truncate dto)"

definition nonce_given :: "a2a_request \<Rightarrow> bool" where
  "nonce_given dto \<longleftrightarrow> nonce dto \<noteq> None \<and> nonce dto \<noteq> Some []"

definition check_nonce :: "'d protocol_env \<Rightarrow> request_readings \<Rightarrow> a2a_request \<Rightarrow> ('d app, unit) io" where
  "check_nonce env rd dto =
     (if nonce_given dto
      then on_nonces (assert_fresh (nonce_window_ms env) (nonce_evict_ms rd) (nonce_seen_ms rd)
             (agent_from_id dto) (the (nonce dto)))
      else io_return ())"

definition policy_context_of :: "a2a_request \<Rightarrow> policy_context" where
  "policy_context_of dto = \<lparr>ctx_subject = agent_from_id dto, ctx_action = ''invoke'', ctx_resource = session_id dto\<rparr>"

definition result_payload :: "request_readings \<Rightarrow> a2a_request \<Rightarrow> json" where
  "result_payload rd dto = JObj
     [(''agentFrom'', JStr (agent_to_id dto)),
      (''agentTo'', JStr (agent_from_id dto)),
      (''sessionId'', JStr (session_id dto)),
      (''result'', JStr (''Processed request from '' @ agent_from_id dto)),
      (''timestamp'', JStr (iso_timestamp rd))]"

record usage_metrics =
  tokens_used :: nat
  cpu_ms :: int
  bytes_in :: nat
  bytes_out :: nat
  tool_calls_count :: nat

text \<open>\<open>Math.ceil(n / 4)\<close>.\<close>

definition tokens_of_length :: "nat \<Rightarrow> nat" where
  "tokens_of_length n = (n + 3) div 4"

definition metrics_of :: "request_readings \<Rightarrow> a2a_request \<Rightarrow> usage_metrics" where
  "metrics_of rd dto =
     (let payload_str = stringify (request_payload dto); result_str = stringify (result_payload rd dto)
      in \<lparr>tokens_used = tokens_of_length (length payload_str), cpu_ms = end_ms rd - start_ms rd,
          bytes_in = length payload_str, bytes_out = length result_str, tool_calls_count = 1\<rparr>)"

definition metrics_json :: "usage_metrics \<Rightarrow> json" where
  "metrics_json m = JObj
     [(''tokensUsed'', JNum (nat_str (tokens_used m))),
      (''cpuMs'', JNum (int_str (cpu_ms m))),
      (''bytesIn'', JNum (nat_str (bytes_in m))),
      (''bytesOut'', JNum (nat_str (bytes_out m))),
      (''toolCallsCount'', JNum (nat_str (tool_calls_count m)))]"

definition usage_of :: "usage_metrics \<Rightarrow> a2a_request \<Rightarrow> usage_draft" where
  "usage_of m dto = \<lparr>usage_session = session_id dto, usage_agent = agent_to_id dto,
     usage_tokens = int (tokens_used m), usage_cpu_ms = cpu_ms m, usage_bytes_in = int (bytes_in m),
     usage_bytes_out = int (bytes_out m), usage_model = None, usage_tool_calls = int (tool_calls_count m)\<rparr>"

text \<open>
  \<open>(tokens * 0.0001).toFixed(8)\<close>. For every count a string can have the double product is closer
  to the exact multiple of 0.0001 than half of the last printed place, so the exact value is
  printed: four decimals and four zeros.
\<close>

definition four_digits :: "nat \<Rightarrow> string" where
  "four_digits n = nat_str (n div 1000 mod 10) @ nat_str (n div 100 mod 10) @ nat_str (n div 10 mod 10) @ nat_str (n mod 10)"

definition price_computed :: "nat \<Rightarrow> string" where
  "price_computed tokens = nat_str (tokens div 10000) @ ''.'' @ four_digits (tokens mod 10000) @ ''0000''"

definition result_hash :: "'d protocol_env \<Rightarrow> request_readings \<Rightarrow> a2a_request \<Rightarrow> string" where
  "result_hash env rd dto = keccak256 env (stringify (result_payload rd dto))"

definition receipt_params_of :: "'d protocol_env \<Rightarrow> request_readings \<Rightarrow> a2a_request \<Rightarrow> receipt_params" where
  "receipt_params_of env rd dto =
     (let m = metrics_of rd dto
      in \<lparr>param_session = session_id dto, param_request_hash = request_hash env dto,
          param_result_hash = Some (result_hash env rd dto), param_metrics = metrics_json m,
          param_price = price_computed (tokens_used m)\<rparr>)"

text \<open>What follows the two checks: the usage record, then the receipt.\<close>

definition complete_request :: "'d protocol_env \<Rightarrow> request_readings \<Rightarrow> a2a_request \<Rightarrow> ('d, a2a_response) io" where
  "complete_request env rd dto =
     io_bind (record_usage (metering env) (usage_of (metrics_of rd dto) dto)) (\<lambda>_.
     io_bind (create_signed_receipt (metering env) (receipt_uuid rd) (receipt_params_of env rd dto)) (\<lambda>receipt.
     io_return \<lparr>response_status = ''completed'', response_session = session_id dto,
       response_result_hash = result_hash env rd dto, response_receipt = receipt\<rparr>))"

text \<open>
  The handler. A claimed hash that differs from the computed one is logged and has no other
  effect; the log is not part of the state.
\<close>

definition handle_request :: "'d protocol_env \<Rightarrow> request_readings \<Rightarrow> a2a_request \<Rightarrow> ('d app, a2a_response) io" where
  "handle_request env rd dto =
     io_bind (check_nonce env rd dto) (\<lambda>_.
     io_bind (assert_allowed (find_active env) (agent_to_id dto) (policy_context_of dto)) (\<lambda>_.
     on_outside (complete_request env rd dto)))"

text \<open>The receipt as the response shows it: \<open>receipt.resultHash ?? ''\<close>.\<close>

definition shown_result_hash :: "a2a_response \<Rightarrow> string" where
  "shown_result_hash r = (case receipt_result_hash (response_receipt r) of None \<Rightarrow> [] | Some h \<Rightarrow> h)"

section \<open>The stages\<close>

lemma check_nonce_outside: "outside (snd (check_nonce env rd dto w)) = outside w"
  and check_nonce_metrics: "metrics (snd (check_nonce env rd dto w)) = metrics w"
  by (simp_all add: check_nonce_def)

lemma check_nonce_result:
  "nonce_given dto \<Longrightarrow> fst (check_nonce env rd dto w) =
     fst (assert_fresh (nonce_window_ms env) (nonce_evict_ms rd) (nonce_seen_ms rd)
       (agent_from_id dto) (the (nonce dto)) (seen_nonces w))"
  by (simp add: check_nonce_def on_nonces_def split: prod.split)

lemma check_nonce_store:
  "nonce_given dto \<Longrightarrow> seen_nonces (snd (check_nonce env rd dto w)) =
     snd (assert_fresh (nonce_window_ms env) (nonce_evict_ms rd) (nonce_seen_ms rd)
       (agent_from_id dto) (the (nonce dto)) (seen_nonces w))"
  by (simp add: check_nonce_def on_nonces_def split: prod.split)

text \<open>Only the nonce stage touches the nonce store.\<close>

lemma io_bind_frame:
  assumes "f (snd (m w)) = f w" and "\<And>x w'. f (snd (k x w')) = f w'"
  shows "f (snd (io_bind m k w)) = f w"
  using assms by (cases "m w"; cases "fst (m w)") (auto simp: io_bind_def)

lemma assert_allowed_nonces: "seen_nonces (snd (assert_allowed fa a ctx w)) = seen_nonces w"
  unfolding assert_allowed_def
  by (intro io_bind_frame) (auto intro!: io_bind_frame split: sum.split)

lemma after_nonce_keeps_nonces:
  "seen_nonces (snd (handle_request env rd dto w)) = seen_nonces (snd (check_nonce env rd dto w))"
proof -
  have rest: "seen_nonces (snd (io_bind (assert_allowed (find_active env) (agent_to_id dto) (policy_context_of dto))
      (\<lambda>_. on_outside (complete_request env rd dto)) v)) = seen_nonces v" for v
    by (intro io_bind_frame) (simp_all add: assert_allowed_nonces)
  obtain r v where v: "check_nonce env rd dto w = (r, v)" by (metis surj_pair)
  show ?thesis
  proof (cases r)
    case (Inl e)
    with v show ?thesis by (simp add: handle_request_def io_bind_Inl)
  next
    case (Inr u)
    with v have "handle_request env rd dto w = io_bind (assert_allowed (find_active env) (agent_to_id dto) (policy_context_of dto))
      (\<lambda>_. on_outside (complete_request env rd dto)) v" by (simp add: handle_request_def io_bind_Inr)
    with v show ?thesis by (simp add: rest)
  qed
qed

text \<open>A request that fails the nonce stage.\<close>

lemma handle_request_replayed:
  assumes "check_nonce env rd dto w = (Inl e, w')"
  shows "handle_request env rd dto w = (Inl e, w')"
  using assms by (simp add: handle_request_def io_bind_Inl)

lemma check_nonce_error:
  "check_nonce env rd dto w = (Inl e, w') \<Longrightarrow>
     e = Conflict ''Request nonce already used within replay window'' \<and>
     outside w' = outside w \<and> metrics w' = metrics w"
  using check_nonce_outside [of env rd dto w] check_nonce_metrics [of env rd dto w]
  by (auto simp: check_nonce_def on_nonces_def assert_fresh_def Let_def split: if_splits)

text \<open>A sequence of requests, and what it does to the entry of an accepted nonce.\<close>

fun run_requests :: "'d protocol_env \<Rightarrow> (request_readings \<times> a2a_request) list \<Rightarrow> 'd app \<Rightarrow> 'd app" where
  "run_requests env [] w = w"
| "run_requests env ((rd, dto) # rs) w = run_requests env rs (snd (handle_request env rd dto w))"

lemma handle_request_evolves:
  assumes "jsmap_wf (seen_nonces w)" and "jsmap_get (seen_nonces w) k = Some t"
    and "T - nonce_window_ms env \<le> t" and "nonce_evict_ms rd \<le> T"
  shows "nonces.evolves (nonce_window_ms env) k T (seen_nonces w) (seen_nonces (snd (handle_request env rd dto w)))"
proof (cases "nonce_given dto")
  case True
  then show ?thesis
    using assert_fresh_evolves [OF assms, of "nonce_seen_ms rd" "agent_from_id dto" "the (nonce dto)"]
    by (simp add: after_nonce_keeps_nonces check_nonce_store)
next
  case False
  then show ?thesis by (simp add: after_nonce_keeps_nonces check_nonce_def nonces.evolves.stays)
qed

lemma run_requests_evolves:
  assumes "jsmap_wf (seen_nonces w)" and "jsmap_get (seen_nonces w) k = Some t"
    and "T - nonce_window_ms env \<le> t" and "list_all (\<lambda>x. nonce_evict_ms (fst x) \<le> T) rs"
  shows "nonces.evolves (nonce_window_ms env) k T (seen_nonces w) (seen_nonces (run_requests env rs w))"
  using assms
proof (induction rs arbitrary: w)
  case Nil
  show ?case by (simp add: nonces.evolves.stays)
next
  case (Cons x rs)
  let ?w = "snd (handle_request env (fst x) (snd x) w)"
  have step: "nonces.evolves (nonce_window_ms env) k T (seen_nonces w) (seen_nonces ?w)"
    using Cons.prems by (intro handle_request_evolves) auto
  have "nonces.evolves (nonce_window_ms env) k T (seen_nonces ?w) (seen_nonces (run_requests env rs ?w))"
  proof (rule Cons.IH)
    show "jsmap_wf (seen_nonces ?w)" using step Cons.prems(1) by (rule nonces.evolves_inv)
    show "jsmap_get (seen_nonces ?w) k = Some t" using step Cons.prems(1-3) by (rule nonces.evolves_keeps)
  qed (use Cons.prems in auto)
  with step show ?case by (cases x) (simp add: nonces.evolves_trans)
qed

lemma accepted_nonce_entry:
  assumes "jsmap_wf (seen_nonces w)" and "nonce_given dto" and "fst (check_nonce env rd dto w) = Inr ()"
  shows "jsmap_wf (seen_nonces (snd (handle_request env rd dto w))) \<and>
    jsmap_get (seen_nonces (snd (handle_request env rd dto w))) (nonce_key (agent_from_id dto) (the (nonce dto))) =
      Some (nonce_seen_ms rd)"
  using assms by (simp add: after_nonce_keeps_nonces check_nonce_store check_nonce_result get_assert_fresh)

text \<open>The stages a completed request went through.\<close>

lemma completed_request_stages:
  assumes "handle_request env rd dto w = (Inr response, w')"
  shows "\<exists>w1 ps d1 d2 d3 u s.
     check_nonce env rd dto w = (Inr (), w1) \<and>
     find_active env (agent_to_id dto) (outside w) = (Inr ps, d1) \<and>
     (\<forall>p \<in> set ps. fst (evaluate_policy_access (rules_of p) (policy_context_of dto))) \<and>
     save_usage (metering env) (usage_of (metrics_of rd dto) dto) d1 = (Inr u, d2) \<and>
     sign_message (metering env) (receipt_message (receipt_params_of env rd dto) (receipt_uuid rd)) d2 = (Inr s, d3) \<and>
     save_receipt (metering env) (receipt_of (receipt_params_of env rd dto) (receipt_uuid rd) s) d3 =
       (Inr (response_receipt response), outside w') \<and>
     param_request_hash (receipt_params_of env rd dto) = sha256 env (canonicalize_signed_request (envelope.truncate dto))"
proof -
  obtain w1 w2 where nonce: "check_nonce env rd dto w = (Inr (), w1)"
    and policy: "assert_allowed (find_active env) (agent_to_id dto) (policy_context_of dto) w1 = (Inr (), w2)"
    and finish: "on_outside (complete_request env rd dto) w2 = (Inr response, w')"
    using assms unfolding handle_request_def by (auto elim!: io_bind_InrE)
  have out: "outside w1 = outside w" using check_nonce_outside [of env rd dto w] nonce by simp
  obtain r d1 where read: "find_active env (agent_to_id dto) (outside w1) = (r, d1)" by (metis surj_pair)
  then obtain ps where r: "r = Inr ps"
    using policy assert_allowed_unread [of "find_active env" "agent_to_id dto" w1 _ d1 "policy_context_of dto"]
    by (cases r) auto
  have allowed: "\<forall>p \<in> set ps. fst (evaluate_policy_access (rules_of p) (policy_context_of dto))" and w2: "outside w2 = d1"
    using assert_allowed_cases [of "find_active env" "agent_to_id dto" w1 ps d1 "policy_context_of dto"] policy read r
    by auto
  obtain d' where "complete_request env rd dto (outside w2) = (Inr response, d')" "outside w' = d'"
    using finish by (auto simp: on_outside_def split: prod.splits)
  then obtain u d2 receipt where "save_usage (metering env) (usage_of (metrics_of rd dto) dto) d1 = (Inr u, d2)"
    and "create_signed_receipt (metering env) (receipt_uuid rd) (receipt_params_of env rd dto) d2 = (Inr receipt, outside w')"
    and "response_receipt response = receipt"
    unfolding complete_request_def record_usage_def w2 by (auto elim!: io_bind_InrE)
  then show ?thesis
    using nonce allowed read r out
    by (auto simp: create_signed_receipt_def receipt_params_of_def request_hash_def hash_canonical_request_def Let_def
        elim!: io_bind_InrE)
qed

section \<open>Properties\<close>

text \<open>
  C1: What a completed request has passed. If the handler returns a response, then the request's
  nonce, where it carries one, was accepted as fresh; the active policies of the called agent
  were read and every one of them allows the caller to invoke the session; the usage of this
  request was recorded; and the receipt was stored for a text the wallet signed, in which the
  request hash is the server's own hash of the canonical request.
\<close>

theorem completed_request_was_checked:
  assumes "handle_request env rd dto w = (Inr response, w')"
  shows "\<exists>w1 ps d1 d2 d3 u s.
     check_nonce env rd dto w = (Inr (), w1) \<and>
     find_active env (agent_to_id dto) (outside w) = (Inr ps, d1) \<and>
     (\<forall>p \<in> set ps. fst (evaluate_policy_access (rules_of p) (policy_context_of dto))) \<and>
     save_usage (metering env) (usage_of (metrics_of rd dto) dto) d1 = (Inr u, d2) \<and>
     sign_message (metering env) (receipt_message (receipt_params_of env rd dto) (receipt_uuid rd)) d2 = (Inr s, d3) \<and>
     save_receipt (metering env) (receipt_of (receipt_params_of env rd dto) (receipt_uuid rd) s) d3 =
       (Inr (response_receipt response), outside w') \<and>
     param_request_hash (receipt_params_of env rd dto) = sha256 env (canonicalize_signed_request (envelope.truncate dto))"
  using assms by (rule completed_request_stages)


text \<open>
  C10: An accepted nonce is used up. Once a request with a nonce has passed the freshness test,
  whatever became of it afterwards, every later request of the same agent with the same nonce
  is refused with 409 up to the window after the first one, through any sequence of other
  requests. This holds as well when the first request was then denied or failed, so its sender
  cannot repeat it unchanged.
\<close>

theorem accepted_nonce_used_up:
  assumes "jsmap_wf (seen_nonces w)" and "nonce_given dto" and "fst (check_nonce env rd dto w) = Inr ()"
    and "agent_from_id dto' = agent_from_id dto" and "nonce dto' = nonce dto"
    and "list_all (\<lambda>x. nonce_evict_ms (fst x) \<le> nonce_evict_ms rd') between"
    and "nonce_evict_ms rd' - nonce_window_ms env \<le> nonce_seen_ms rd"
  shows "fst (handle_request env rd' dto' (run_requests env between (snd (handle_request env rd dto w)))) =
    Inl (Conflict ''Request nonce already used within replay window'')"
proof -
  let ?k = "nonce_key (agent_from_id dto) (the (nonce dto))"
  let ?w1 = "snd (handle_request env rd dto w)"
  let ?w2 = "run_requests env between ?w1"
  have w1: "jsmap_wf (seen_nonces ?w1)" "jsmap_get (seen_nonces ?w1) ?k = Some (nonce_seen_ms rd)"
    using accepted_nonce_entry [OF assms(1-3)] by auto
  have ev: "nonces.evolves (nonce_window_ms env) ?k (nonce_evict_ms rd') (seen_nonces ?w1) (seen_nonces ?w2)"
    using w1 assms(6,7) by (intro run_requests_evolves)
  have "jsmap_get (seen_nonces ?w2) ?k = Some (nonce_seen_ms rd)"
    using ev w1 assms(7) by (rule nonces.evolves_keeps)
  moreover have "jsmap_wf (seen_nonces ?w2)" using ev w1(1) by (rule nonces.evolves_inv)
  moreover have given: "nonce_given dto'" using assms(2,5) by (simp add: nonce_given_def)
  ultimately have "fst (check_nonce env rd' dto' ?w2) \<noteq> Inr ()"
    using assms(4,5,7) by (simp add: check_nonce_result rejected_iff)
  then obtain e w3 where e: "check_nonce env rd' dto' ?w2 = (Inl e, w3)"
    by (cases "check_nonce env rd' dto' ?w2"; cases "fst (check_nonce env rd' dto' ?w2)") auto
  then show ?thesis using handle_request_replayed [OF e] check_nonce_error [OF e] by simp
qed

text \<open>An environment with one policy; its world is the list of stored receipts.\<close>

definition demo_metering :: "receipt_draft list metering_repo" where
  "demo_metering = \<lparr>
     save_usage = (\<lambda>u d. (Inr (usage_draft.extend u (usage_record.fields ''u1'' 0)), d)),
     usage_by_session = (\<lambda>s d. (Inr [], d)),
     save_receipt = (\<lambda>r d. (Inr (receipt_draft.extend r (receipt.fields ''r1'' 0)), d @ [r])),
     receipts_by_session = (\<lambda>s d. (Inr [], d)),
     sign_message = (\<lambda>m d. (Inr ''0xsig'', d))\<rparr>"

definition demo_env :: "receipt_draft list protocol_env" where
  "demo_env = \<lparr>sha256 = id, keccak256 = id, find_active = (\<lambda>a d. (Inr [demo_policy], d)),
     metering = demo_metering, nonce_window_ms = default_window_ms\<rparr>"

definition demo_dto :: "string \<Rightarrow> a2a_request" where
  "demo_dto from = \<lparr>agent_from_id = from, agent_to_id = ''did:prom:b'', session_id = ''s1'',
     request_payload = JStr ''hi'', max_budget = ''1'', policy_digest = None, nonce = Some ''n1'',
     claimed_hash = ''00'', request_signature = ''forged''\<rparr>"

definition demo_readings :: "int \<Rightarrow> request_readings" where
  "demo_readings t = \<lparr>nonce_evict_ms = t, nonce_seen_ms = t, start_ms = t,
     iso_timestamp = ''2026-01-01T00:00:00.000Z'', end_ms = t + 2, receipt_uuid = ''uuid''\<rparr>"

text \<open>The demonstration policy denies one agent and has no permission for the others.\<close>

definition open_env :: "receipt_draft list protocol_env" where
  "open_env = demo_env\<lparr>find_active := (\<lambda>a d. (Inr [], d))\<rparr>"

lemma open_env_completes:
  "\<exists>response w'. handle_request open_env (demo_readings 1000) (demo_dto ''did:prom:a'') (new_app []) = (Inr response, w')"
proof -
  have "check_nonce open_env (demo_readings 1000) (demo_dto ''did:prom:a'') (new_app []) =
      (Inr (), (new_app [])\<lparr>seen_nonces := [(nonce_key ''did:prom:a'' ''n1'', 1000)]\<rparr>)"
    by (simp add: check_nonce_def nonce_given_def demo_dto_def on_nonces_def assert_fresh_def evict_expired_def
        jsmap_filter_def jsmap_has_def new_app_def demo_readings_def Let_def)
  then show ?thesis
    by (simp add: handle_request_def io_bind_def assert_allowed_def on_outside_def open_env_def demo_env_def
        complete_request_def record_usage_def create_signed_receipt_def demo_metering_def new_app_def)
qed

theorem completed_request_was_checked_witness:
  "\<exists>response w1. handle_request open_env (demo_readings 1000) (demo_dto ''did:prom:a'') (new_app []) = (Inr response, w1) \<and>
     (\<exists>w2. check_nonce open_env (demo_readings 1000) (demo_dto ''did:prom:a'') (new_app []) = (Inr (), w2))"
proof -
  obtain response w1 where finished: "handle_request open_env (demo_readings 1000) (demo_dto ''did:prom:a'') (new_app []) = (Inr response, w1)"
    using open_env_completes by blast
  from completed_request_was_checked [OF finished] finished show ?thesis by blast
qed


theorem accepted_nonce_used_up_witness:
  "fst (handle_request open_env (demo_readings 300999) (demo_dto ''did:prom:a'')
     (run_requests open_env [(demo_readings 2000, demo_dto ''did:prom:c'')]
       (snd (handle_request open_env (demo_readings 1000) (demo_dto ''did:prom:a'') (new_app []))))) =
   Inl (Conflict ''Request nonce already used within replay window'')"
proof (rule accepted_nonce_used_up)
  obtain response w' where "handle_request open_env (demo_readings 1000) (demo_dto ''did:prom:a'') (new_app []) = (Inr response, w')"
    using open_env_completes by blast
  then show "fst (check_nonce open_env (demo_readings 1000) (demo_dto ''did:prom:a'') (new_app [])) = Inr ()"
    unfolding handle_request_def by (auto elim!: io_bind_InrE)
qed (simp_all add: new_app_def nonce_given_def demo_dto_def demo_readings_def open_env_def demo_env_def default_window_ms_def)

text \<open>
  Nobody checks what the caller signed. The claimed request hash and the signature of a request
  have no influence on anything: with any other hash and any other signature the handler takes
  the same decisions, leaves the same state and returns the same response.
\<close>

theorem claimed_hash_and_signature_ignored:
  "handle_request env rd (dto\<lparr>claimed_hash := h, request_signature := s\<rparr>) = handle_request env rd dto"
  by (simp add: handle_request_def check_nonce_def nonce_given_def policy_context_of_def complete_request_def
      usage_of_def metrics_of_def result_payload_def receipt_params_of_def request_hash_def result_hash_def
      envelope.truncate_def)

end
