(* ===== verification/Identity.thy ===== *)
theory Identity
  imports Retry Validators
begin

text \<open>
  Agent identities: the proof of control (\<open>src/src/modules/identity/did-controller.ts\<close>) and the
  service that registers, changes and deactivates agents
  (\<open>src/src/modules/identity/identity.service.ts\<close>, with its DTOs and entity). The repository,
  the registry contract and the recovery of a signer are parameters. The properties show what a
  registration proves, when two claims share a message, and that the chain never decides the
  outcome of a request.
\<close>

section \<open>Data\<close>

datatype agent_status = ACTIVE | INACTIVE

record register_dto =
  reg_agent_did :: string
  reg_owner :: string
  reg_public_key :: string
  reg_endpoint :: string
  reg_owner_signature :: string
  reg_status :: "agent_status option"

record update_dto =
  upd_public_key :: "string option"
  upd_endpoint :: "string option"
  upd_status :: "agent_status option"

text \<open>An entity before its first save (no status means the column's default) and after it.\<close>

record agent_draft =
  draft_did :: string
  draft_owner :: string
  draft_public_key :: string
  draft_endpoint :: string
  draft_status :: "agent_status option"

record agent =
  agent_id :: string
  agent_did :: string
  agent_owner :: string
  agent_public_key :: string
  agent_endpoint :: string
  status_of :: agent_status

text \<open>The validators of the DTOs, as far as they are the repository's own or plain type tests.\<close>

definition register_dto_valid :: "register_dto \<Rightarrow> bool" where
  "register_dto_valid d \<longleftrightarrow> is_did (JStr (reg_agent_did d)) \<and> is_eth_address (JStr (reg_owner d)) \<and>
     reg_public_key d \<noteq> [] \<and> is_http_url (JStr (reg_endpoint d)) \<and> reg_owner_signature d \<noteq> []"

definition update_dto_valid :: "update_dto \<Rightarrow> bool" where
  "update_dto_valid d \<longleftrightarrow> (case upd_endpoint d of None \<Rightarrow> True | Some e \<Rightarrow> is_http_url (JStr e))"

section \<open>Proof of control\<close>

record registration_claim =
  claim_did :: string
  claim_owner :: string
  claim_public_key :: string
  claim_endpoint :: string

abbreviation newline :: char where
  "newline \<equiv> CHR 0x0A"

definition build_registration_message :: "registration_claim \<Rightarrow> string" where
  "build_registration_message c = js_join [newline]
     [''PROM agent registration'',
      ''did: '' @ claim_did c,
      ''owner: '' @ js_lower (claim_owner c),
      ''publicKey: '' @ claim_public_key c,
      ''endpoint: '' @ claim_endpoint c]"

text \<open>\<open>recover message signature\<close> is the address that signed the message, or what the library throws.\<close>

definition verify_did_controller ::
    "(string \<Rightarrow> string \<Rightarrow> exn + string) \<Rightarrow> registration_claim \<Rightarrow> string \<Rightarrow> bool" where
  "verify_did_controller recover claim signature =
     (case recover (build_registration_message claim) signature of
        Inl e \<Rightarrow> False
      | Inr recovered \<Rightarrow> js_lower recovered = js_lower (claim_owner claim))"

section \<open>The service\<close>

text \<open>\<open>insert_agent\<close> and \<open>save_agent\<close> are the repository's \<open>save\<close> on a new and on a loaded entity.\<close>

record 'd agent_repo =
  find_by_did :: "string \<Rightarrow> ('d, agent option) io"
  find_by_id :: "string \<Rightarrow> ('d, agent option) io"
  find_agents :: "('d, agent list) io"
  insert_agent :: "agent_draft \<Rightarrow> ('d, agent) io"
  save_agent :: "agent \<Rightarrow> ('d, agent) io"

text \<open>
  The registry contract: its configured address, the construction of the handle, and the three
  transactions with the wait for their receipts.
\<close>

record 'd registry =
  registry_address :: string
  get_contract :: "('d, unit) io"
  register_on_chain :: "string \<Rightarrow> string \<Rightarrow> string \<Rightarrow> ('d, string) io"
  update_on_chain :: "string \<Rightarrow> string \<Rightarrow> string \<Rightarrow> ('d, string) io"
  deactivate_on_chain :: "string \<Rightarrow> ('d, string) io"

text \<open>
  A chain transaction as all three handlers make it: skipped without an address, retried with
  the default options, and every error logged and dropped. \<open>rnd\<close> are the random readings of the
  back-off.
\<close>

definition on_chain :: "'d registry \<Rightarrow> (nat \<Rightarrow> rat) \<Rightarrow> ('d, string) io \<Rightarrow> ('d, unit) io" where
  "on_chain reg rnd transaction =
     (if registry_address reg = [] then io_return ()
      else io_catch
        (io_bind (get_contract reg) (\<lambda>_.
         io_bind (\<lambda>w. fst (with_retry retry_defaults is_transient_error rnd transaction w)) (\<lambda>_.
         io_return ())))
        (\<lambda>_. io_return ()))"

definition claim_of :: "register_dto \<Rightarrow> registration_claim" where
  "claim_of d = \<lparr>claim_did = reg_agent_did d, claim_owner = reg_owner d,
     claim_public_key = reg_public_key d, claim_endpoint = reg_endpoint d\<rparr>"

definition draft_of :: "register_dto \<Rightarrow> agent_draft" where
  "draft_of d = \<lparr>draft_did = reg_agent_did d, draft_owner = js_lower (reg_owner d),
     draft_public_key = reg_public_key d, draft_endpoint = reg_endpoint d, draft_status = reg_status d\<rparr>"

definition register_agent ::
    "(string \<Rightarrow> string \<Rightarrow> exn + string) \<Rightarrow> 'd agent_repo \<Rightarrow> 'd registry \<Rightarrow> (nat \<Rightarrow> rat) \<Rightarrow> register_dto \<Rightarrow>
     ('d, agent) io" where
  "register_agent recover repo reg rnd d =
     (if \<not> verify_did_controller recover (claim_of d) (reg_owner_signature d)
      then io_throw (Forbidden ''ownerSignature does not prove control of the claimed owner address'')
      else io_bind (find_by_did repo (reg_agent_did d)) (\<lambda>existing.
        if existing \<noteq> None
        then io_throw (Conflict (''Agent '' @ reg_agent_did d @ '' is already registered''))
        else io_bind (insert_agent repo (draft_of d)) (\<lambda>saved.
          io_bind (on_chain reg rnd
              (register_on_chain reg (agent_did saved) (agent_public_key saved) (agent_endpoint saved)))
            (\<lambda>_. io_return saved))))"

definition find_all_agents :: "'d agent_repo \<Rightarrow> ('d, agent list) io" where
  "find_all_agents repo = find_agents repo"

definition find_one_agent :: "'d agent_repo \<Rightarrow> string \<Rightarrow> ('d, agent) io" where
  "find_one_agent repo i =
     io_bind (find_by_id repo i) (\<lambda>a.
       case a of None \<Rightarrow> io_throw (Not_Found (''Agent '' @ i @ '' not found'')) | Some x \<Rightarrow> io_return x)"

definition find_agent_by_did :: "'d agent_repo \<Rightarrow> string \<Rightarrow> ('d, agent) io" where
  "find_agent_by_did repo d =
     io_bind (find_by_did repo d) (\<lambda>a.
       case a of None \<Rightarrow> io_throw (Not_Found (''Agent with DID '' @ d @ '' not found'')) | Some x \<Rightarrow> io_return x)"

text \<open>\<open>Object.assign(agent, data)\<close>.\<close>

definition assign_update :: "update_dto \<Rightarrow> agent \<Rightarrow> agent" where
  "assign_update d a = a\<lparr>
     agent_public_key := (case upd_public_key d of None \<Rightarrow> agent_public_key a | Some k \<Rightarrow> k),
     agent_endpoint := (case upd_endpoint d of None \<Rightarrow> agent_endpoint a | Some e \<Rightarrow> e),
     status_of := (case upd_status d of None \<Rightarrow> status_of a | Some s \<Rightarrow> s)\<rparr>"

definition truthy :: "string option \<Rightarrow> bool" where
  "truthy x \<longleftrightarrow> x \<noteq> None \<and> x \<noteq> Some []"

definition update_agent ::
    "'d agent_repo \<Rightarrow> 'd registry \<Rightarrow> (nat \<Rightarrow> rat) \<Rightarrow> string \<Rightarrow> update_dto \<Rightarrow> ('d, agent) io" where
  "update_agent repo reg rnd i d =
     io_bind (find_one_agent repo i) (\<lambda>a.
     io_bind (save_agent repo (assign_update d a)) (\<lambda>saved.
       if truthy (upd_public_key d) \<or> truthy (upd_endpoint d)
       then io_bind (on_chain reg rnd
              (update_on_chain reg (agent_did saved) (agent_public_key saved) (agent_endpoint saved)))
            (\<lambda>_. io_return saved)
       else io_return saved))"

definition deactivate_agent ::
    "'d agent_repo \<Rightarrow> 'd registry \<Rightarrow> (nat \<Rightarrow> rat) \<Rightarrow> string \<Rightarrow> ('d, agent) io" where
  "deactivate_agent repo reg rnd i =
     io_bind (find_one_agent repo i) (\<lambda>a.
     io_bind (save_agent repo (a\<lparr>status_of := INACTIVE\<rparr>)) (\<lambda>saved.
     io_bind (on_chain reg rnd (deactivate_on_chain reg (agent_did saved)))
       (\<lambda>_. io_return saved)))"

section \<open>Messages\<close>

lemma build_registration_message_eq:
  "build_registration_message c =
     ''PROM agent registration'' @ newline # ''did: '' @ claim_did c @ newline # ''owner: '' @ js_lower (claim_owner c) @
     newline # ''publicKey: '' @ claim_public_key c @ newline # ''endpoint: '' @ claim_endpoint c"
  by (simp add: build_registration_message_def)

lemma append_newline_eq:
  "newline \<notin> set a \<Longrightarrow> newline \<notin> set b \<Longrightarrow> a @ newline # s = b @ newline # t \<longleftrightarrow> a = b \<and> s = t"
  using js_split_append [of newline a s] js_split_append [of newline b t]
  by (metis append_same_eq js_join_split list.inject same_append_eq)

lemma did_no_newline: "is_did (JStr d) \<Longrightarrow> newline \<notin> set d"
proof -
  assume "is_did (JStr d)"
  then obtain m i where d: "d = ''did:'' @ m @ '':'' @ i" "list_all did_method_char m" "list_all did_id_char i"
    by (auto simp only: is_did_def string_matching_def json.simps did_pattern_iff)
  have "\<not> did_method_char newline" "\<not> did_id_char newline"
    by (simp_all add: did_method_char_def did_id_char_def is_lower_def is_upper_def is_digit_def char_in_def)
  with d show ?thesis by (auto simp: list_all_iff)
qed

lemma eth_address_no_newline: "is_eth_address (JStr a) \<Longrightarrow> newline \<notin> set (js_lower a)"
proof -
  assume "is_eth_address (JStr a)"
  then obtain h where a: "a = ''0x'' @ h" "list_all is_hex h"
    by (auto simp only: is_eth_address_def string_matching_def json.simps eth_address_pattern_iff)
  have "\<not> is_hex newline" by (simp add: is_hex_def is_digit_def char_in_def)
  moreover have "list_all is_hex (js_lower h)"
    using a(2) by (auto simp: js_lower_def list_all_iff is_hex_char_lower)
  moreover have "js_lower ''0x'' = ''0x''" by code_simp
  then have "js_lower a = ''0x'' @ js_lower h" by (simp only: a(1) js_lower_append)
  ultimately show ?thesis by (auto simp: list_all_iff)
qed

section \<open>The chain decides nothing\<close>

lemma on_chain_returns: "\<exists>w'. on_chain reg rnd transaction w = (Inr (), w')"
  unfolding on_chain_def
  using io_catch_never_throws [of "\<lambda>_. io_return ()"] by (cases "registry_address reg = []") auto

lemma after_chain: "fst (io_bind (on_chain reg rnd transaction) (\<lambda>_. io_return saved) w) = Inr saved"
  using on_chain_returns [of reg rnd transaction w] by (auto simp: io_bind_def)

lemma fst_io_bind_cong:
  assumes "\<And>x w'. m w = (Inr x, w') \<Longrightarrow> fst (k x w') = fst (k' x w')"
  shows "fst (io_bind m k w) = fst (io_bind m k' w)"
  using assms by (auto simp: io_bind_def split: prod.split sum.split)

section \<open>Properties\<close>

lemma verify_did_controller_iff:
  "verify_did_controller recover (claim_of d) signature \<longleftrightarrow>
     (\<exists>a. recover (build_registration_message (claim_of d)) signature = Inr a \<and> js_lower a = js_lower (reg_owner d))"
  by (simp add: verify_did_controller_def claim_of_def split: sum.split)

lemma register_stages:
  "case register_agent recover repo reg rnd d w of
     (Inr saved, w') \<Rightarrow> verify_did_controller recover (claim_of d) (reg_owner_signature d) \<and>
       (\<exists>w1 w2. find_by_did repo (reg_agent_did d) w = (Inr None, w1) \<and>
          insert_agent repo (draft_of d) w1 = (Inr saved, w2) \<and> draft_owner (draft_of d) = js_lower (reg_owner d))
   | (Inl e, w') \<Rightarrow> verify_did_controller recover (claim_of d) (reg_owner_signature d) \<or>
       (w' = w \<and> e = Forbidden ''ownerSignature does not prove control of the claimed owner address'')"
proof (cases "verify_did_controller recover (claim_of d) (reg_owner_signature d)")
  case False
  then show ?thesis by (simp add: register_agent_def)
next
  case True
  show ?thesis
  proof (cases "register_agent recover repo reg rnd d w")
    case (Pair r w')
    show ?thesis
    proof (cases r)
      case (Inl e)
      with True Pair show ?thesis by simp
    next
      case (Inr saved)
      with Pair True obtain existing w1 where found: "find_by_did repo (reg_agent_did d) w = (Inr existing, w1)"
        and rest: "(if existing \<noteq> None then io_throw (Conflict (''Agent '' @ reg_agent_did d @ '' is already registered''))
          else io_bind (insert_agent repo (draft_of d)) (\<lambda>saved.
            io_bind (on_chain reg rnd (register_on_chain reg (agent_did saved) (agent_public_key saved) (agent_endpoint saved)))
              (\<lambda>_. io_return saved))) w1 = (Inr saved, w')"
        unfolding register_agent_def by (auto elim!: io_bind_InrE)
      from rest have "existing = None" by (auto split: if_splits)
      with rest obtain w2 where ins: "insert_agent repo (draft_of d) w1 = (Inr saved, w2)"
        by (auto elim!: io_bind_InrE)
      with True Pair Inr found ins \<open>existing = None\<close> show ?thesis by (auto simp: draft_of_def)
    qed
  qed
qed


text \<open>
  The signed message identifies the claim, as long as the public key has no line break: for
  valid DIDs and owner addresses two claims with the same message agree in every field, the
  owner up to the case of its letters. So a signature for one endpoint or key cannot be used
  for another.
\<close>

theorem registration_message_binds:
  assumes "is_did (JStr (claim_did c))" and "is_did (JStr (claim_did c'))"
    and "is_eth_address (JStr (claim_owner c))" and "is_eth_address (JStr (claim_owner c'))"
    and "newline \<notin> set (claim_public_key c)" and "newline \<notin> set (claim_public_key c')"
  shows "build_registration_message c = build_registration_message c' \<longleftrightarrow>
     claim_did c = claim_did c' \<and> js_lower (claim_owner c) = js_lower (claim_owner c') \<and>
     claim_public_key c = claim_public_key c' \<and> claim_endpoint c = claim_endpoint c'"
  using assms
  by (simp add: build_registration_message_eq append_newline_eq did_no_newline eth_address_no_newline)

definition demo_claim :: "string \<Rightarrow> string \<Rightarrow> registration_claim" where
  "demo_claim k e = \<lparr>claim_did = ''did:prom:agent-1'', claim_owner = ''0xf39Fd6e51aad88F6F4ce6aB8827279cffFb92266'',
     claim_public_key = k, claim_endpoint = e\<rparr>"

theorem registration_message_binds_witness:
  "build_registration_message (demo_claim ''k'' ''http://a'') \<noteq> build_registration_message (demo_claim ''k'' ''http://b'')"
proof -
  have "is_did (JStr ''did:prom:agent-1'')" "is_eth_address (JStr ''0xf39Fd6e51aad88F6F4ce6aB8827279cffFb92266'')"
    by code_simp+
  then show ?thesis
    using registration_message_binds [of "demo_claim ''k'' ''http://a''" "demo_claim ''k'' ''http://b''"]
    by (simp add: demo_claim_def)
qed

text \<open>
  With line breaks the message is ambiguous. Two requests that pass validation differ in key
  and endpoint and yet have the same message, because the validators accept a line break in the
  key and after the start of an endpoint: the owner's signature for the one registers the other.
\<close>

theorem registration_message_ambiguous:
  "\<exists>d d'. register_dto_valid d \<and> register_dto_valid d' \<and>
     reg_public_key d \<noteq> reg_public_key d' \<and> reg_endpoint d \<noteq> reg_endpoint d' \<and>
     (\<forall>recover signature. verify_did_controller recover (claim_of d) signature =
        verify_did_controller recover (claim_of d') signature)"
proof -
  let ?d = "\<lambda>k e. \<lparr>reg_agent_did = ''did:prom:agent-1'', reg_owner = ''0xf39Fd6e51aad88F6F4ce6aB8827279cffFb92266'',
     reg_public_key = k, reg_endpoint = e, reg_owner_signature = ''0x1'', reg_status = None\<rparr>"
  let ?tail = "newline # ''endpoint: http://b''"
  let ?k' = "''k'' @ newline # ''endpoint: http://a''"
  let ?a = "?d ''k'' (''http://a'' @ ?tail)"
  let ?b = "?d ?k' ''http://b''"
  have "register_dto_valid ?a" "register_dto_valid ?b" by code_simp+
  moreover have msg: "build_registration_message (claim_of ?a) = build_registration_message (claim_of ?b)"
    and owner: "claim_owner (claim_of ?a) = claim_owner (claim_of ?b)"
    by (simp_all add: build_registration_message_eq claim_of_def)
  have "verify_did_controller recover (claim_of ?a) signature =
      verify_did_controller recover (claim_of ?b) signature" for recover signature
    by (simp only: verify_did_controller_def msg owner)
  ultimately show ?thesis
    by (intro exI [of _ ?a] exI [of _ ?b]) simp
qed

text \<open>
  The chain never decides. Registering, changing and deactivating an agent return what they
  return when no registry is configured, whatever the contract does: transient errors are
  retried, every other error is dropped, and no chain failure undoes or reports the stored
  change.
\<close>

theorem chain_never_decides:
  "fst (register_agent recover repo reg rnd d w) =
     fst (register_agent recover repo (reg\<lparr>registry_address := []\<rparr>) rnd d w) \<and>
   fst (update_agent repo reg rnd i u w) = fst (update_agent repo (reg\<lparr>registry_address := []\<rparr>) rnd i u w) \<and>
   fst (deactivate_agent repo reg rnd i w) = fst (deactivate_agent repo (reg\<lparr>registry_address := []\<rparr>) rnd i w)"
proof (intro conjI)
  show "fst (register_agent recover repo reg rnd d w) =
     fst (register_agent recover repo (reg\<lparr>registry_address := []\<rparr>) rnd d w)"
    unfolding register_agent_def
    by (cases "verify_did_controller recover (claim_of d) (reg_owner_signature d)")
      (auto intro!: fst_io_bind_cong simp: after_chain)
  show "fst (update_agent repo reg rnd i u w) = fst (update_agent repo (reg\<lparr>registry_address := []\<rparr>) rnd i u w)"
    unfolding update_agent_def by (intro fst_io_bind_cong) (simp add: after_chain)
  show "fst (deactivate_agent repo reg rnd i w) = fst (deactivate_agent repo (reg\<lparr>registry_address := []\<rparr>) rnd i w)"
    unfolding deactivate_agent_def by (intro fst_io_bind_cong) (simp add: after_chain)
qed

text \<open>
  What reaches the chain. A change that names neither a non-empty key nor a non-empty
  endpoint is stored and stays off the chain: a new status, or a key that is cleared, is
  visible in the database only.
\<close>

theorem update_without_key_stays_off_chain:
  assumes "\<not> truthy (upd_public_key u)" and "\<not> truthy (upd_endpoint u)"
    and "find_by_id repo i w = (Inr (Some a), w1)" and "save_agent repo (assign_update u a) w1 = (r, w2)"
  shows "update_agent repo reg rnd i u w = (r, w2)"
  using assms by (cases r) (simp_all add: update_agent_def find_one_agent_def io_bind_def)

definition demo_agent :: agent where
  "demo_agent = \<lparr>agent_id = ''1'', agent_did = ''did:prom:agent-1'', agent_owner = ''0x1'',
     agent_public_key = ''k'', agent_endpoint = ''http://a'', status_of = ACTIVE\<rparr>"

text \<open>A repository of one agent; the world is that agent and a count of chain transactions.\<close>

definition demo_repo :: "(agent \<times> nat) agent_repo" where
  "demo_repo = \<lparr>find_by_did = (\<lambda>d w. (Inr (if agent_did (fst w) = d then Some (fst w) else None), w)),
     find_by_id = (\<lambda>i w. (Inr (Some (fst w)), w)), find_agents = (\<lambda>w. (Inr [fst w], w)),
     insert_agent = (\<lambda>d w. (Inr (fst w), w)), save_agent = (\<lambda>a w. (Inr a, (a, snd w)))\<rparr>"

definition demo_registry :: "(agent \<times> nat) registry" where
  "demo_registry = \<lparr>registry_address = ''0xR'', get_contract = io_return (),
     register_on_chain = (\<lambda>d k e w. (Inr ''tx'', (fst w, snd w + 1))),
     update_on_chain = (\<lambda>d k e w. (Inr ''tx'', (fst w, snd w + 1))),
     deactivate_on_chain = (\<lambda>d w. (Inr ''tx'', (fst w, snd w + 1)))\<rparr>"

theorem update_without_key_stays_off_chain_witness:
  "update_agent demo_repo demo_registry (\<lambda>i. 0) ''1''
     \<lparr>upd_public_key = Some [], upd_endpoint = None, upd_status = Some INACTIVE\<rparr> (demo_agent, 0) =
   (Inr (demo_agent\<lparr>agent_public_key := [], status_of := INACTIVE\<rparr>),
    (demo_agent\<lparr>agent_public_key := [], status_of := INACTIVE\<rparr>, 0))"
  by (rule update_without_key_stays_off_chain [where a = demo_agent and ?w1.0 = "(demo_agent, 0)"])
    (simp_all add: truthy_def demo_repo_def assign_update_def)

end
