(* ===== verification/Request_Body.thy ===== *)
theory Request_Body
  imports Protocol Identity
begin

text \<open>
  From the body of a request to the values the services are called with: the validation of the
  request objects of the agent protocol and of the registration
  (\<open>src/src/modules/protocol/dto/a2a-request.dto.ts\<close>,
  \<open>src/src/modules/identity/dto/register-agent.dto.ts\<close>) as \<open>src/src/main.ts\<close> configures it (unknown
  members are refused), with the documented meaning of the library's validators, and the reading
  of a validated body. The classes are given as declared, each member with its decorators, and what the
  validation reports about a body is computed from that; the lemmas show that it reports nothing
  exactly about the bodies that satisfy a condition on each member.
\<close>

section \<open>Validators of the library\<close>

definition is_string :: "json \<Rightarrow> bool" where
  "is_string v = (case v of JStr s \<Rightarrow> True | _ \<Rightarrow> False)"

definition is_not_empty :: "json \<Rightarrow> bool" where
  "is_not_empty v \<longleftrightarrow> v \<noteq> JStr [] \<and> v \<noteq> JNull"

definition is_number_at_least_zero :: "json \<Rightarrow> bool" where
  "is_number_at_least_zero v = (case v of JNum n \<Rightarrow> take 1 n \<noteq> ''-'' | _ \<Rightarrow> False)"

text \<open>A member that must satisfy its validators, and one that is skipped when absent or null.\<close>

definition required_member :: "(string \<times> json) list \<Rightarrow> string \<Rightarrow> (json \<Rightarrow> bool) \<Rightarrow> bool" where
  "required_member ps k P = (case map_of ps k of None \<Rightarrow> False | Some v \<Rightarrow> P v)"

definition skippable_member :: "(string \<times> json) list \<Rightarrow> string \<Rightarrow> (json \<Rightarrow> bool) \<Rightarrow> bool" where
  "skippable_member ps k P = (case map_of ps k of None \<Rightarrow> True | Some v \<Rightarrow> v = JNull \<or> P v)"

section \<open>Decorated classes\<close>

text \<open>
  A class of request objects: each member with its decorators. A validator of the library has the
  library's message (a parameter) for its name and the member; one of the program's has the message of its
  registration. The library's rules: an optional member that is absent or null is not looked at; every other
  decorator of a member is asked; and, as the pipe is configured, a member the class does not have is
  reported too. The messages of one member stand in the order of its decorators.
\<close>

datatype decorator =
    Optional
  | Registered "json registration"
  | Library string "json option \<Rightarrow> bool"

type_synonym dto_class = "(string \<times> decorator list) list"

definition IsString :: decorator where
  "IsString = Library ''isString'' (on_present is_string)"

definition IsNotEmpty :: decorator where
  "IsNotEmpty = Library ''isNotEmpty'' (on_present is_not_empty)"

definition IsNumber :: decorator where
  "IsNumber = Library ''isNumber'' (on_present (\<lambda>v. case v of JNum n \<Rightarrow> True | _ \<Rightarrow> False))"

definition Min_zero :: decorator where
  "Min_zero = Library ''min'' (on_present is_number_at_least_zero)"

definition IsEnum :: "string list \<Rightarrow> decorator" where
  "IsEnum values = Library ''isEnum'' (on_present (\<lambda>v. list_ex (\<lambda>s. v = JStr s) values))"

fun is_optional :: "decorator \<Rightarrow> bool" where
  "is_optional Optional = True"
| "is_optional (Registered r) = False"
| "is_optional (Library n P) = False"

definition message_of :: "json registration \<Rightarrow> string" where
  "message_of r = (case option_message r of Some m \<Rightarrow> m | None \<Rightarrow> default_message (validator r))"

fun decorator_errors :: "(string \<Rightarrow> string \<Rightarrow> string) \<Rightarrow> string \<Rightarrow> json option \<Rightarrow> decorator \<Rightarrow> string list" where
  "decorator_errors msg k v Optional = []"
| "decorator_errors msg k v (Registered r) = (if validate (validator r) v then [] else [message_of r])"
| "decorator_errors msg k v (Library n P) = (if P v then [] else [msg n k])"

definition member_errors :: "(string \<Rightarrow> string \<Rightarrow> string) \<Rightarrow> string \<Rightarrow> decorator list \<Rightarrow> json option \<Rightarrow> string list" where
  "member_errors msg k ds v =
     (if list_ex is_optional ds \<and> (v = None \<or> v = Some JNull) then []
      else concat (map (decorator_errors msg k v) ds))"

definition body_errors :: "(string \<Rightarrow> string \<Rightarrow> string) \<Rightarrow> dto_class \<Rightarrow> (string \<times> json) list \<Rightarrow> string list" where
  "body_errors msg dto ps =
     concat (map (\<lambda>(k, v). if list_ex (\<lambda>m. fst m = k) dto then [] else [msg ''whitelistValidation'' k]) ps) @
     concat (map (\<lambda>(k, ds). member_errors msg k ds (map_of ps k)) dto)"

definition a2a_request_class :: dto_class where
  "a2a_request_class =
     [(''agentFromId'', [Registered (IsDid None ''A2aRequestDto'' ''agentFromId'')]),
      (''agentToId'', [Registered (IsDid None ''A2aRequestDto'' ''agentToId'')]),
      (''sessionId'', [IsString, IsNotEmpty]),
      (''requestPayload'', [IsNotEmpty]),
      (''requestHash'', [Registered (IsKeccak256Hash None ''A2aRequestDto'' ''requestHash'')]),
      (''maxBudget'', [IsNumber, Min_zero]),
      (''policyDigest'', [Optional, Registered (IsKeccak256Hash None ''A2aRequestDto'' ''policyDigest'')]),
      (''nonce'', [IsString, Optional]),
      (''signature'', [IsString, IsNotEmpty])]"

definition register_agent_class :: dto_class where
  "register_agent_class =
     [(''agentDid'', [Registered (IsDid None ''RegisterAgentDto'' ''agentDid'')]),
      (''owner'', [Registered (IsEthAddress None ''RegisterAgentDto'' ''owner'')]),
      (''publicKey'', [IsString, IsNotEmpty]),
      (''endpoint'', [Registered (IsHttpUrl None ''RegisterAgentDto'' ''endpoint'')]),
      (''ownerSignature'', [IsString, IsNotEmpty]),
      (''status'', [Optional, IsEnum [''active'', ''inactive'']])]"

section \<open>The protocol's request\<close>

definition a2a_members :: "string list" where
  "a2a_members = [''agentFromId'', ''agentToId'', ''sessionId'', ''requestPayload'', ''requestHash'', ''maxBudget'',
     ''policyDigest'', ''nonce'', ''signature'']"

definition a2a_body_valid :: "(string \<times> json) list \<Rightarrow> bool" where
  "a2a_body_valid ps \<longleftrightarrow>
     list_all (\<lambda>p. fst p \<in> set a2a_members) ps \<and>
     required_member ps ''agentFromId'' is_did \<and>
     required_member ps ''agentToId'' is_did \<and>
     required_member ps ''sessionId'' (\<lambda>v. is_string v \<and> is_not_empty v) \<and>
     required_member ps ''requestPayload'' is_not_empty \<and>
     required_member ps ''requestHash'' is_keccak256_hash \<and>
     required_member ps ''maxBudget'' is_number_at_least_zero \<and>
     skippable_member ps ''policyDigest'' is_keccak256_hash \<and>
     skippable_member ps ''nonce'' is_string \<and>
     required_member ps ''signature'' (\<lambda>v. is_string v \<and> is_not_empty v)"

definition text_of :: "(string \<times> json) list \<Rightarrow> string \<Rightarrow> string option" where
  "text_of ps k = (case map_of ps k of Some (JStr s) \<Rightarrow> Some s | _ \<Rightarrow> None)"

text \<open>
  The request the handler is called with. A member that is null passes the validation, but the
  request has no such value: for it the reading yields \<open>None\<close>.
\<close>

definition read_a2a :: "(string \<times> json) list \<Rightarrow> a2a_request option" where
  "read_a2a ps =
     (if map_of ps ''policyDigest'' = Some JNull \<or> map_of ps ''nonce'' = Some JNull then None
      else (case (text_of ps ''agentFromId'', text_of ps ''agentToId'', text_of ps ''sessionId'',
                  map_of ps ''requestPayload'', map_of ps ''maxBudget'', text_of ps ''requestHash'', text_of ps ''signature'') of
              (Some a, Some b, Some s, Some p, Some (JNum n), Some h, Some sig) \<Rightarrow>
                Some \<lparr>agent_from_id = a, agent_to_id = b, session_id = s, request_payload = p, max_budget = n,
                  policy_digest = text_of ps ''policyDigest'', nonce = text_of ps ''nonce'',
                  claimed_hash = h, request_signature = sig\<rparr>
            | _ \<Rightarrow> None))"

section \<open>The registration\<close>

definition registration_members :: "string list" where
  "registration_members = [''agentDid'', ''owner'', ''publicKey'', ''endpoint'', ''ownerSignature'', ''status'']"

definition registration_body_valid :: "(string \<times> json) list \<Rightarrow> bool" where
  "registration_body_valid ps \<longleftrightarrow>
     list_all (\<lambda>p. fst p \<in> set registration_members) ps \<and>
     required_member ps ''agentDid'' is_did \<and>
     required_member ps ''owner'' is_eth_address \<and>
     required_member ps ''publicKey'' (\<lambda>v. is_string v \<and> is_not_empty v) \<and>
     required_member ps ''endpoint'' is_http_url \<and>
     required_member ps ''ownerSignature'' (\<lambda>v. is_string v \<and> is_not_empty v) \<and>
     skippable_member ps ''status'' (\<lambda>v. v = JStr ''active'' \<or> v = JStr ''inactive'')"

definition read_registration :: "(string \<times> json) list \<Rightarrow> register_dto option" where
  "read_registration ps =
     (case (text_of ps ''agentDid'', text_of ps ''owner'', text_of ps ''publicKey'', text_of ps ''endpoint'', text_of ps ''ownerSignature'') of
        (Some d, Some o1, Some k, Some e, Some s) \<Rightarrow>
          if map_of ps ''status'' = Some JNull then None
          else Some \<lparr>reg_agent_did = d, reg_owner = o1, reg_public_key = k, reg_endpoint = e, reg_owner_signature = s,
            reg_status = (case text_of ps ''status'' of None \<Rightarrow> None
              | Some t \<Rightarrow> Some (if t = ''active'' then ACTIVE else INACTIVE))\<rparr>
      | _ \<Rightarrow> None)"

section \<open>Lemmas\<close>

lemma string_matching_JStr: "string_matching r v \<Longrightarrow> \<exists>s. v = JStr s"
  by (cases v) (auto simp: string_matching_def)

lemma validated_text:
  assumes "required_member ps k P" and "\<And>v. P v \<Longrightarrow> \<exists>s. v = JStr s"
  obtains s where "text_of ps k = Some s" and "P (JStr s)"
  using assms by (force simp: required_member_def text_of_def split: option.splits)

lemma validated_did:
  "required_member ps k is_did \<Longrightarrow> \<exists>s. text_of ps k = Some s \<and> is_did (JStr s)"
  by (auto elim: validated_text simp: is_did_def dest: string_matching_JStr)

lemma validated_address:
  "required_member ps k is_eth_address \<Longrightarrow> \<exists>s. text_of ps k = Some s \<and> is_eth_address (JStr s)"
  by (auto elim: validated_text simp: is_eth_address_def dest: string_matching_JStr)

lemma validated_hash:
  "required_member ps k is_keccak256_hash \<Longrightarrow> \<exists>s. text_of ps k = Some s \<and> is_keccak256_hash (JStr s)"
  by (auto elim: validated_text simp: is_keccak256_hash_def dest: string_matching_JStr)

lemma validated_url:
  "required_member ps k is_http_url \<Longrightarrow> \<exists>s. text_of ps k = Some s \<and> is_http_url (JStr s)"
  by (auto elim: validated_text simp: is_http_url_def dest: string_matching_JStr)

lemma validated_string:
  "required_member ps k (\<lambda>v. is_string v \<and> is_not_empty v) \<Longrightarrow> \<exists>s. text_of ps k = Some s \<and> s \<noteq> []"
  by (auto simp: required_member_def text_of_def is_string_def is_not_empty_def split: option.splits json.splits)

lemma required_present: "required_member ps k P \<Longrightarrow> \<exists>v. map_of ps k = Some v \<and> P v"
  by (simp add: required_member_def split: option.splits)

lemma skippable_text:
  "skippable_member ps k P \<Longrightarrow> (case text_of ps k of None \<Rightarrow> True | Some d \<Rightarrow> P (JStr d))"
  by (auto simp: skippable_member_def text_of_def split: option.splits json.splits)

lemma member_wf: "json_wf (JObj ps) \<Longrightarrow> map_of ps k = Some v \<Longrightarrow> json_wf v"
  by (auto simp: list_all_iff dest!: map_of_SomeD)

lemma budget_text: "required_member ps k is_number_at_least_zero \<Longrightarrow> \<exists>n. map_of ps k = Some (JNum n) \<and> take 1 n \<noteq> ''-''"
  by (auto simp: required_member_def is_number_at_least_zero_def split: option.splits json.splits)

lemma no_errors:
  "body_errors msg dto ps = [] \<longleftrightarrow>
     list_all (\<lambda>p. fst p \<in> set (map fst dto)) ps \<and> list_all (\<lambda>m. member_errors msg (fst m) (snd m) (map_of ps (fst m)) = []) dto"
proof -
  define K where "K = set (map fst dto)"
  have "list_ex (\<lambda>m. fst m = k) dto \<longleftrightarrow> k \<in> K" for k by (force simp: list_ex_iff K_def)
  then show ?thesis unfolding K_def [symmetric] by (auto simp: body_errors_def list_all_iff split: if_splits)
qed

lemma required_errors:
  "\<not> list_ex is_optional ds \<Longrightarrow> (\<And>v. list_all (\<lambda>d. decorator_errors msg k v d = []) ds = on_present P v) \<Longrightarrow>
   member_errors msg k ds (map_of ps k) = [] \<longleftrightarrow> required_member ps k P"
  by (simp add: member_errors_def required_member_def on_present_def list_all_iff)

lemma skippable_errors:
  "list_ex is_optional ds \<Longrightarrow> (\<And>v. v \<noteq> JNull \<Longrightarrow> list_all (\<lambda>d. decorator_errors msg k (Some v) d = []) ds = P v) \<Longrightarrow>
   member_errors msg k ds (map_of ps k) = [] \<longleftrightarrow> skippable_member ps k P"
  by (cases "map_of ps k") (auto simp: member_errors_def skippable_member_def list_all_iff)

lemmas library_defs = IsString_def IsNotEmpty_def IsNumber_def Min_zero_def IsEnum_def on_present_def

lemma registered_errors:
  "validate (validator r) = on_present P \<Longrightarrow>
   member_errors msg k [Registered r] (map_of ps k) = [] \<longleftrightarrow> required_member ps k P"
  by (rule required_errors) simp_all

lemma optional_registered_errors:
  "validate (validator r) = on_present P \<Longrightarrow>
   member_errors msg k [Optional, Registered r] (map_of ps k) = [] \<longleftrightarrow> skippable_member ps k P"
  by (rule skippable_errors) (simp_all add: on_present_def)

lemma registered_validators:
  "validate (validator (IsDid m c k)) = on_present is_did"
  "validate (validator (IsEthAddress m c k)) = on_present is_eth_address"
  "validate (validator (IsKeccak256Hash m c k)) = on_present is_keccak256_hash"
  "validate (validator (IsHttpUrl m c k)) = on_present is_http_url"
  by (simp_all add: decorator_defs)

lemma library_errors:
  "member_errors msg k [IsString, IsNotEmpty] (map_of ps k) = [] \<longleftrightarrow> required_member ps k (\<lambda>v. is_string v \<and> is_not_empty v)"
  "member_errors msg k [IsNotEmpty] (map_of ps k) = [] \<longleftrightarrow> required_member ps k is_not_empty"
  "member_errors msg k [IsNumber, Min_zero] (map_of ps k) = [] \<longleftrightarrow> required_member ps k is_number_at_least_zero"
  by (rule required_errors; auto simp: library_defs is_number_at_least_zero_def split: option.split json.split)+

lemma optional_library_errors:
  "member_errors msg k [IsString, Optional] (map_of ps k) = [] \<longleftrightarrow> skippable_member ps k is_string"
  "member_errors msg k [Optional, IsEnum [''active'', ''inactive'']] (map_of ps k) = [] \<longleftrightarrow>
     skippable_member ps k (\<lambda>v. v = JStr ''active'' \<or> v = JStr ''inactive'')"
  by (rule skippable_errors; simp add: library_defs)+

lemmas class_errors = registered_errors [OF registered_validators(1)] registered_errors [OF registered_validators(2)]
  registered_errors [OF registered_validators(3)] registered_errors [OF registered_validators(4)]
  optional_registered_errors [OF registered_validators(3)] library_errors optional_library_errors

text \<open>A class has nothing to report exactly about the bodies that are valid.\<close>

lemma a2a_request_class_exact: "body_errors msg a2a_request_class ps = [] \<longleftrightarrow> a2a_body_valid ps"
proof -
  have names: "map fst a2a_request_class = a2a_members" by (simp add: a2a_request_class_def a2a_members_def)
  show ?thesis unfolding no_errors names a2a_body_valid_def by (simp add: a2a_request_class_def class_errors)
qed

lemma register_agent_class_exact: "body_errors msg register_agent_class ps = [] \<longleftrightarrow> registration_body_valid ps"
proof -
  have names: "map fst register_agent_class = registration_members"
    by (simp add: register_agent_class_def registration_members_def)
  show ?thesis unfolding no_errors names registration_body_valid_def by (simp add: register_agent_class_def class_errors)
qed

text \<open>
  A required member that one of the program's validators refuses has the validator's message in the answer.
\<close>

lemma refused_member_reported:
  assumes "(k, ds) \<in> set dto" and "Registered r \<in> set ds" and "\<not> list_ex is_optional ds"
    and "\<not> validate (validator r) (map_of ps k)"
  shows "message_of r \<in> set (body_errors msg dto ps)"
proof -
  have "message_of r \<in> set (member_errors msg k ds (map_of ps k))"
    using assms(2-4) by (auto simp: member_errors_def intro!: bexI [of _ "Registered r"])
  with assms(1) show ?thesis by (auto simp: body_errors_def)
qed

section \<open>Properties\<close>


definition demo_hash :: string where
  "demo_hash = replicate 64 CHR ''a''"

definition demo_body :: "(string \<times> json) list" where
  "demo_body = [(''agentFromId'', JStr ''did:prom:a''), (''agentToId'', JStr ''did:prom:b''), (''sessionId'', JStr ''s''),
     (''requestPayload'', JArr []), (''requestHash'', JStr demo_hash), (''maxBudget'', JNum ''10''), (''signature'', JStr ''0x1'')]"


text \<open>A validated registration satisfies what the identity service relies on.\<close>

lemma validated_registration_reads:
  assumes "registration_body_valid ps" and "map_of ps ''status'' \<noteq> Some JNull"
  shows "\<exists>d. read_registration ps = Some d \<and> register_dto_valid d"
proof -
  note v = assms(1) [unfolded registration_body_valid_def]
  obtain d where d: "text_of ps ''agentDid'' = Some d" "is_did (JStr d)"
    using validated_did [of ps "''agentDid''"] v by blast
  obtain o1 where o1: "text_of ps ''owner'' = Some o1" "is_eth_address (JStr o1)"
    using validated_address [of ps "''owner''"] v by blast
  obtain e where e: "text_of ps ''endpoint'' = Some e" "is_http_url (JStr e)"
    using validated_url [of ps "''endpoint''"] v by blast
  obtain k where k: "text_of ps ''publicKey'' = Some k" "k \<noteq> []"
    using validated_string [of ps "''publicKey''"] v by blast
  obtain s where s: "text_of ps ''ownerSignature'' = Some s" "s \<noteq> []"
    using validated_string [of ps "''ownerSignature''"] v by blast
  show ?thesis using assms(2) d o1 e k s by (simp add: read_registration_def register_dto_valid_def is_not_empty_def)
qed

end
