(* ===== verification/Sanitize.thy ===== *)
theory Sanitize
  imports Js_Regex Canonical "HOL-Library.Sublist"
begin

text \<open>
  The pipe that strips markup from request bodies (\<open>src/src/common/pipes/sanitize.pipe.ts\<close>):
  six global replacements on every string, in the code's order, and the recursion over arrays
  and objects. The properties say what is guaranteed (texts without an ampersand come out
  without a tag) and what is not (escaped markup is restored, a removed scheme can reappear).
\<close>

definition tag_pattern :: rx where
  "tag_pattern = RSeq (RChr CHR ''<'') (RSeq (RStar (RSet (\<lambda>c. c \<noteq> CHR ''>''))) (RChr CHR ''>''))"

definition js_scheme_pattern :: rx where
  "js_scheme_pattern = RLit_ci ''javascript:''"

definition handler_pattern :: rx where
  "handler_pattern = RSeq (RLit_ci ''on'') (RSeq (RPlus (RSet is_word))
     (RSeq (RStar (RSet is_space)) (RChr CHR ''='')))"

definition strip_html :: "string \<Rightarrow> string" where
  "strip_html input =
     rx_replace handler_pattern []
       (rx_replace js_scheme_pattern []
         (rx_replace (RLit ''&amp;'') ''&''
           (rx_replace (RLit ''&gt;'') ''>''
             (rx_replace (RLit ''&lt;'') ''<''
               (rx_replace tag_pattern [] input)))))"

fun sanitize :: "json \<Rightarrow> json" where
  "sanitize (JStr s) = JStr (js_trim (strip_html s))"
| "sanitize (JArr xs) = JArr (map sanitize xs)"
| "sanitize (JObj ps) =
     JObj (foldl (\<lambda>acc p. obj_assign (fst p) (snd p) acc) [] (map (\<lambda>p. (fst p, sanitize (snd p))) ps))"
| "sanitize v = v"

text \<open>The pipe looks at bodies only; \<open>metadata_type\<close> is Nest's parameter type.\<close>

definition sanitize_transform :: "string \<Rightarrow> json \<Rightarrow> json" where
  "sanitize_transform metadata_type v = (if metadata_type \<noteq> ''body'' then v else sanitize v)"

section \<open>Replacements\<close>

lemma rx_replace_Nil [simp]: "rx_replace r rep [] = []"
  by simp

lemma rx_replace_subseq: "subseq (rx_replace r [] s) s"
proof (induction s rule: length_induct)
  case (1 s)
  show ?case
  proof (cases s)
    case (Cons c cs)
    have "subseq (rx_replace r [] cs) cs" using 1 by (simp add: Cons)
    moreover have "subseq (rx_replace r [] (drop n cs)) (c # cs)" for n
    proof -
      have "subseq (rx_replace r [] (drop n cs)) (drop n cs)"
        using 1 by (simp add: Cons less_Suc_eq_le)
      moreover have "subseq (drop n cs) (c # cs)"
        by (metis append_take_drop_id list_emb_append2 subseq_Cons' subseq_order.order_refl list_emb_Cons)
      ultimately show ?thesis by (rule subseq_order.trans)
    qed
    ultimately show ?thesis
      by (auto simp: Cons simp del: rx_longest.simps split: option.split nat.split)
  qed simp
qed

lemma rx_replace_set: "set (rx_replace r [] s) \<subseteq> set s"
proof
  fix x
  assume "x \<in> set (rx_replace r [] s)"
  then have "subseq [x] (rx_replace r [] s)" unfolding subseq_singleton_left .
  then have "subseq [x] s" using rx_replace_subseq by (rule subseq_order.trans)
  then show "x \<in> set s" unfolding subseq_singleton_left .
qed

text \<open>Literals: what starts the text, and what cannot.\<close>

lemma rx_longest_REps [simp]: "rx_longest REps s = Some 0"
  by (cases s) (auto)

lemma rx_longest_RLit:
  "rx_longest (RLit l) s = (if take (length l) s = l then Some (length l) else None)"
proof (induction l arbitrary: s)
  case (Cons x l)
  then show ?case
    by (cases s) (auto simp: RChr_def split: option.split)
qed simp

lemma rx_replace_RLit_hit:
  "rx_replace (RLit (x # l)) rep (x # l @ t) = rep @ rx_replace (RLit (x # l)) rep t"
  by (subst rx_replace.simps) (simp add: rx_longest_RLit del: rx_replace.simps RLit.simps rx_longest.simps)

lemma rx_replace_RLit_miss:
  "take (length l) s \<noteq> l \<Longrightarrow> s = c # cs \<Longrightarrow> rx_replace (RLit l) rep s = c # rx_replace (RLit l) rep cs"
  by (simp add: rx_longest_RLit del: rx_longest.simps)

lemma rx_replace_absent:
  assumes "x \<notin> set s"
  shows "rx_replace (RLit (x # l)) rep s = s"
proof (rule rx_replace_no_match)
  fix u v w
  assume "s = u @ v @ w"
  with assms show "\<not> rx_in (RLit (x # l)) v" by (auto simp: rx_in_RLit simp del: RLit.simps)
qed

text \<open>A tag is an opening bracket with a closing one after it.\<close>

definition has_tag :: "string \<Rightarrow> bool" where
  "has_tag s \<longleftrightarrow> subseq ''<>'' s"

lemma has_tag_Cons: "has_tag (c # s) \<longleftrightarrow> has_tag s \<or> (c = CHR ''<'' \<and> CHR ''>'' \<in> set s)"
proof -
  have gt: "subseq ''>'' s \<longleftrightarrow> CHR ''>'' \<in> set s"
    by (simp add: subseq_singleton_left)
  have "subseq ''<>'' s \<Longrightarrow> subseq ''>'' s" by (rule subseq_Cons')
  then have down: "subseq ''<>'' s \<Longrightarrow> CHR ''>'' \<in> set s" by (simp only: gt)
  show ?thesis
  proof (cases "c = CHR ''<''")
    case True
    then have "has_tag (c # s) \<longleftrightarrow> subseq ''>'' s" by (simp only: has_tag_def subseq_Cons2_iff if_True simp_thms)
    with down True show ?thesis unfolding gt has_tag_def by blast
  next
    case False
    then have neq: "CHR ''<'' \<noteq> c" by blast
    have "has_tag (c # s) \<longleftrightarrow> has_tag s" unfolding has_tag_def subseq_Cons2_iff if_not_P [OF neq] ..
    with False show ?thesis by blast
  qed
qed

lemma rx_in_tag_pattern: "rx_in tag_pattern s \<longleftrightarrow> (\<exists>t. s = CHR ''<'' # t @ ''>'' \<and> CHR ''>'' \<notin> set t)"
proof -
  have "rx_in tag_pattern s \<longleftrightarrow>
      (\<exists>t. s = CHR ''<'' # t @ [CHR ''>''] \<and> list_all (\<lambda>c. c \<noteq> CHR ''>'') t)"
    unfolding tag_pattern_def RChr_def rx_in_RSeq_RSet
    by (simp add: rx_in_simps(4) rx_in_RStar_RSet rx_in_simps(3)) blast
  then show ?thesis by (auto simp: list_all_iff)
qed

lemma has_tag_iff_pattern: "has_tag s \<longleftrightarrow> rx_search tag_pattern s"
proof
  show "has_tag s \<Longrightarrow> rx_search tag_pattern s"
  proof (induction s)
    case (Cons c s)
    show ?case
    proof (cases "has_tag s")
      case True
      with Cons show ?thesis by simp
    next
      case False
      with Cons.prems have c: "c = CHR ''<''" and "CHR ''>'' \<in> set s" by (auto simp: has_tag_Cons)
      then obtain t w where s: "s = t @ CHR ''>'' # w" "CHR ''>'' \<notin> set t" by (meson split_list_first)
      have "c # s = [] @ (CHR ''<'' # t @ ''>'') @ w \<and> rx_in tag_pattern (CHR ''<'' # t @ ''>'')"
        using s by (simp add: c rx_in_tag_pattern)
      then show ?thesis unfolding rx_search_iff by blast
    qed
  qed (simp add: has_tag_def)
  assume "rx_search tag_pattern s"
  then obtain u t w where "s = u @ CHR ''<'' # t @ CHR ''>'' # w"
    by (auto simp: rx_search_iff rx_in_tag_pattern)
  moreover have "subseq ''<>'' (u @ CHR ''<'' # t @ CHR ''>'' # w)"
    by (intro list_emb_append2 subseq_Cons2 list_emb_append2) auto
  ultimately show "has_tag s" by (simp add: has_tag_def)
qed

lemma rx_longest_tag:
  "rx_longest tag_pattern (c # cs) \<noteq> None \<longleftrightarrow> c = CHR ''<'' \<and> CHR ''>'' \<in> set cs"
proof
  assume "rx_longest tag_pattern (c # cs) \<noteq> None"
  then obtain n where "rx_in tag_pattern (take n (c # cs))" unfolding rx_longest_None by blast
  then obtain t where t: "take n (c # cs) = CHR ''<'' # t @ ''>''" by (auto simp: rx_in_tag_pattern)
  then have "c = CHR ''<''" and "CHR ''>'' \<in> set (take (n - 1) cs)" by (cases n; simp)+
  then show "c = CHR ''<'' \<and> CHR ''>'' \<in> set cs" by (auto dest: in_set_takeD)
next
  assume "c = CHR ''<'' \<and> CHR ''>'' \<in> set cs"
  then obtain t w where cs: "c = CHR ''<''" "cs = t @ CHR ''>'' # w" "CHR ''>'' \<notin> set t"
    by (meson split_list_first)
  then have "take (Suc (Suc (length t))) (c # cs) = CHR ''<'' # t @ ''>''" by simp
  then have "rx_in tag_pattern (take (Suc (Suc (length t))) (c # cs))"
    using cs(3) by (metis rx_in_tag_pattern)
  then show "rx_longest tag_pattern (c # cs) \<noteq> None" unfolding rx_longest_None by blast
qed

lemma strip_tags_no_tag: "\<not> has_tag (rx_replace tag_pattern [] s)"
proof (induction s rule: length_induct)
  case (1 s)
  show ?case
  proof (cases s)
    case Nil
    then show ?thesis by (simp add: has_tag_def)
  next
    case (Cons c cs)
    show ?thesis
    proof (cases "rx_longest tag_pattern (c # cs)")
      case None
      then have "\<not> (c = CHR ''<'' \<and> CHR ''>'' \<in> set cs)" using rx_longest_tag by blast
      moreover have "set (rx_replace tag_pattern [] cs) \<subseteq> set cs"
        by (rule rx_replace_set)
      moreover have "\<not> has_tag (rx_replace tag_pattern [] cs)" using 1 by (simp add: Cons)
      ultimately show ?thesis using None
        by (auto simp: Cons has_tag_Cons simp del: rx_longest.simps)
    next
      case (Some n)
      have "n \<noteq> 0"
      proof
        assume "n = 0"
        with Some rx_longest_Some [of tag_pattern "c # cs" n] show False
          by (simp add: rx_in_tag_pattern)
      qed
      then obtain k where "n = Suc k" by (cases n) auto
      with Some have "rx_replace tag_pattern [] (c # cs) = rx_replace tag_pattern [] (drop k cs)"
        by (simp del: rx_longest.simps)
      moreover have "length (drop k cs) < length s" by (simp add: Cons less_Suc_eq_le)
      then have "\<not> has_tag (rx_replace tag_pattern [] (drop k cs))" using 1 by blast
      ultimately show ?thesis unfolding Cons by metis
    qed
  qed
qed

text \<open>Deleting never makes a tag.\<close>

lemma has_tag_deleted: "has_tag (rx_replace r [] s) \<Longrightarrow> has_tag s"
  unfolding has_tag_def using rx_replace_subseq subseq_order.trans by blast

section \<open>Texts\<close>

definition escape_brackets :: "string \<Rightarrow> string" where
  "escape_brackets s =
     concat (map (\<lambda>c. if c = CHR ''<'' then ''&lt;'' else if c = CHR ''>'' then ''&gt;'' else [c]) s)"

definition escape_gt :: "string \<Rightarrow> string" where
  "escape_gt s = concat (map (\<lambda>c. if c = CHR ''>'' then ''&gt;'' else [c]) s)"

declare RLit.simps(2) [simp del] rx_replace.simps(2) [simp del]

lemma rx_replace_RLit_Cons:
  "rx_replace (RLit (x # l)) rep (c # cs) =
     (if c = x \<and> take (length l) cs = l then rep @ rx_replace (RLit (x # l)) rep (drop (length l) cs)
      else c # rx_replace (RLit (x # l)) rep cs)"
proof (cases "c = x \<and> take (length l) cs = l")
  case True
  then have "cs = l @ drop (length l) cs" by (metis append_take_drop_id)
  with True show ?thesis using rx_replace_RLit_hit [of x l rep "drop (length l) cs"] by simp
next
  case False
  then show ?thesis using rx_replace_RLit_miss [of "x # l" "c # cs" c cs rep] by auto
qed

lemma unescape_lt:
  "CHR ''&'' \<notin> set s \<Longrightarrow> rx_replace (RLit ''&lt;'') ''<'' (escape_brackets s) = escape_gt s"
  by (induction s) (auto simp: escape_brackets_def escape_gt_def rx_replace_RLit_Cons)

lemma unescape_gt:
  "CHR ''&'' \<notin> set s \<Longrightarrow> rx_replace (RLit ''&gt;'') ''>'' (escape_gt s) = s"
  by (induction s) (auto simp: escape_gt_def rx_replace_RLit_Cons)

lemma rx_replace_unsearched: "\<not> rx_search r s \<Longrightarrow> rx_replace r rep s = s"
  by (rule rx_replace_no_match) (auto simp: rx_search_iff)

lemma entities_absent:
  "CHR ''&'' \<notin> set s \<Longrightarrow> rx_replace (RLit ''&lt;'') ''<'' s = s"
  "CHR ''&'' \<notin> set s \<Longrightarrow> rx_replace (RLit ''&gt;'') ''>'' s = s"
  "CHR ''&'' \<notin> set s \<Longrightarrow> rx_replace (RLit ''&amp;'') ''&'' s = s"
  by (rule rx_replace_absent, assumption)+

section \<open>Documents\<close>

text \<open>A text the pipe leaves as it is.\<close>

definition clean_text :: "string \<Rightarrow> bool" where
  "clean_text s \<longleftrightarrow> \<not> rx_search tag_pattern s \<and> CHR ''&'' \<notin> set s \<and>
     \<not> rx_search js_scheme_pattern s \<and> \<not> rx_search handler_pattern s \<and> js_trim s = s"

fun clean_json :: "json \<Rightarrow> bool" where
  "clean_json (JStr s) = clean_text s"
| "clean_json (JArr xs) = list_all clean_json xs"
| "clean_json (JObj ps) = list_all (\<lambda>p. clean_json (snd p)) ps"
| "clean_json v = True"

lemma strip_html_clean: "clean_text s \<Longrightarrow> js_trim (strip_html s) = s"
  by (simp add: clean_text_def strip_html_def rx_replace_unsearched entities_absent del: RLit.simps)

text \<open>Texts that need no search to be seen clean.\<close>

lemma clean_text_plain:
  assumes "list_all (\<lambda>c. c \<notin> {CHR ''<'', CHR ''&'', CHR ''=''} \<and> char_lower c \<noteq> CHR ''j'') s"
    and "s = [] \<or> \<not> is_space (hd s) \<and> \<not> is_space (last s)"
  shows "clean_text s"
proof -
  have absent: "CHR ''<'' \<notin> set s" "CHR ''&'' \<notin> set s" "CHR ''='' \<notin> set s"
    using assms(1) by (auto simp: list_all_iff)
  have "\<not> rx_search tag_pattern s" using absent(1) by (auto simp: rx_search_iff rx_in_tag_pattern)
  moreover have "\<not> rx_search js_scheme_pattern s"
  proof
    assume "rx_search js_scheme_pattern s"
    then obtain u v w where "s = u @ v @ w" and lower: "js_lower v = js_lower ''javascript:''"
      unfolding rx_search_iff js_scheme_pattern_def rx_in_RLit_ci by blast
    then have "set v \<subseteq> set s" by auto
    moreover have lower': "js_lower ''javascript:'' = ''javascript:''" by code_simp
    ultimately obtain c where "c \<in> set s" "char_lower c = CHR ''j''" by (cases v) (use lower in \<open>auto simp: js_lower_def\<close>)
    then show False using assms(1) by (auto simp: list_all_iff)
  qed
  moreover have "\<not> rx_search handler_pattern s"
    using absent(3) unfolding rx_search_iff handler_pattern_def rx_in_simps(4) rx_in_RChr by auto
  moreover have "js_trim s = s" using assms(2) by (cases s) (simp add: js_trim_def js_trim_left_def, blast intro: js_trim_id)
  ultimately show ?thesis using absent(2) by (simp add: clean_text_def)
qed

lemma map_of_assigned:
  "distinct (map fst ps) \<Longrightarrow> map_of (foldl (\<lambda>acc p. obj_assign (fst p) (snd p) acc) acc ps) k =
     (if k = proto_key then map_of acc k
      else case map_of ps k of Some v \<Rightarrow> Some v | None \<Rightarrow> map_of acc k)"
proof (induction ps arbitrary: acc)
  case (Cons p ps)
  then have "map_of ps (fst p) = None" by (simp add: map_of_eq_None_iff)
  with Cons show ?case
    by (auto simp: obj_assign_def map_of_own_set split: option.split)
qed simp

lemma distinct_assigned:
  "distinct (map fst acc) \<Longrightarrow> distinct (map fst (foldl (\<lambda>acc p. obj_assign (fst p) (snd p) acc) acc ps))"
  by (induction ps arbitrary: acc) (auto simp: obj_assign_def distinct_own_set)

text \<open>The members of a sanitised object are the sanitised members, without \<open>__proto__\<close>.\<close>

lemma sanitize_members:
  "distinct (map fst ps) \<Longrightarrow> \<exists>qs. sanitize (JObj ps) = JObj qs \<and> distinct (map fst qs) \<and>
     (\<forall>k. map_of qs k = (if k = proto_key then None else map_option sanitize (map_of ps k)))"
proof -
  assume d: "distinct (map fst ps)"
  let ?qs = "foldl (\<lambda>acc p. obj_assign (fst p) (snd p) acc) [] (map (\<lambda>p. (fst p, sanitize (snd p))) ps)"
  have "map_of ?qs k = (if k = proto_key then None else map_option sanitize (map_of ps k))" for k
    using d by (simp add: map_of_assigned map_of_snd_map split: option.split)
  moreover have "distinct (map fst ?qs)" by (simp add: distinct_assigned)
  ultimately show ?thesis by auto
qed

lemma sanitize_wf: "json_wf v \<Longrightarrow> json_wf (sanitize v)"
proof (induction v)
  case (JObj ps)
  then obtain qs where qs: "sanitize (JObj ps) = JObj qs" "distinct (map fst qs)"
    and get: "\<And>k. map_of qs k = (if k = proto_key then None else map_option sanitize (map_of ps k))"
    using sanitize_members [of ps] by auto
  have "json_wf x" if "(k, x) \<in> set qs" for k x
  proof -
    from that qs(2) have "map_of qs k = Some x" by simp
    then obtain y where "map_of ps k = Some y" "x = sanitize y" by (auto simp: get split: if_splits)
    with JObj show ?thesis by (auto dest!: map_of_SomeD simp: list_all_iff snds.simps)
  qed
  with qs show ?case by (auto simp: list_all_iff)
qed (auto simp: list_all_iff)

section \<open>Properties\<close>

text \<open>
  A text without an ampersand comes out without markup: no opening bracket is left that has a
  closing one anywhere after it, and the removal of schemes and handlers that follows cannot
  bring a tag back.
\<close>

theorem strip_html_no_tag:
  assumes "CHR ''&'' \<notin> set s"
  shows "\<not> rx_search tag_pattern (strip_html s)"
proof -
  let ?t = "rx_replace tag_pattern [] s"
  have "CHR ''&'' \<notin> set ?t" using assms rx_replace_set by blast
  then have "strip_html s = rx_replace handler_pattern [] (rx_replace js_scheme_pattern [] ?t)"
    by (simp add: strip_html_def entities_absent del: RLit.simps)
  then show ?thesis
    using strip_tags_no_tag [of s] has_tag_deleted by (metis has_tag_iff_pattern)
qed

theorem strip_html_no_tag_witness:
  "\<not> rx_search tag_pattern (strip_html ''<<b>i>nested</b>'')"
  by (rule strip_html_no_tag) simp

text \<open>
  Escaped markup gets through. Entities are decoded after the tags were removed, so a text
  whose angle brackets arrive as entities is handed on as live markup: for every text without
  ampersand, script scheme and event handler, its bracket-escaped form is stripped to the text
  itself, tags included.
\<close>

theorem escaped_markup_restored:
  assumes "CHR ''&'' \<notin> set s" and "\<not> rx_search js_scheme_pattern s" and "\<not> rx_search handler_pattern s"
  shows "strip_html (escape_brackets s) = s"
proof -
  have "CHR ''<'' \<notin> set (escape_brackets s)" by (auto simp: escape_brackets_def)
  then have "rx_replace tag_pattern [] (escape_brackets s) = escape_brackets s"
    by (intro rx_replace_no_match) (auto simp: rx_in_tag_pattern)
  with assms show ?thesis
    by (simp add: strip_html_def unescape_lt unescape_gt entities_absent rx_replace_unsearched del: RLit.simps)
qed

theorem escaped_markup_restored_witness:
  "strip_html ''&lt;script&gt;alert(1)&lt;/script&gt;'' = ''<script>alert(1)</script>''"
proof -
  have "\<not> rx_search js_scheme_pattern ''<script>alert(1)</script>''"
    and "\<not> rx_search handler_pattern ''<script>alert(1)</script>''" by code_simp+
  moreover have "escape_brackets ''<script>alert(1)</script>'' = ''&lt;script&gt;alert(1)&lt;/script&gt;''"
    by code_simp
  ultimately show ?thesis using escaped_markup_restored [of "''<script>alert(1)</script>''"] by simp
qed

text \<open>One pass of the scheme removal can build the scheme again.\<close>

lemma removed_scheme_reappears:
  "strip_html ''javajavascript:script:alert(1)'' = ''javascript:alert(1)''"
  by code_simp

end
