(* ===== verification/Serving.thy ===== *)
theory Serving
  imports Guards Request_Log Request_Body Sanitize
begin

text \<open>
  A request of the agent protocol from its arrival to its answer: the middlewares of
  \<open>src/src/app.middleware.module.ts\<close>, the guards of \<open>src/src/app.module.ts\<close>, the interceptors and pipes
  of \<open>src/src/main.ts\<close>, the handler of \<open>src/src/modules/protocol/protocol.controller.ts\<close> and the
  exception filters, in the order in which the framework runs them. What each stage does is in the
  theories of the stages; here it is how they are put together that matters. The throttling guard
  of the library, which runs before the other guards, is left out.
\<close>

section \<open>Configuration and input\<close>

text \<open>
  \<open>validation_message\<close> is the validation library's message for one of its validators and a member,
  \<open>validation_failure ms\<close> the exception it throws for a body with the errors \<open>ms\<close>.
\<close>

record serving =
  sv_runtime :: csrf_runtime
  sv_csrf :: csrf_config
  sv_guards :: guard_config
  sv_nest :: nest
  sv_production :: bool
  validation_message :: "string \<Rightarrow> string \<Rightarrow> string"
  validation_failure :: "string list \<Rightarrow> exn"

record arrival =
  arr_url :: string
  arr_headers :: headers
  arr_cookies :: "(string \<times> string) list option"
  arr_response_headers :: "(string \<times> string) list"
  arr_ip :: "string option"
  arr_body :: json

text \<open>What is read from clock and random source on the way.\<close>

record serving_readings =
  rd_csrf_clock :: csrf_clock
  rd_csrf_random :: string
  rd_uuid :: string
  rd_now :: string
  rd_duration_ms :: int
  rd_handler :: request_readings

section \<open>Stages\<close>

definition after_middlewares :: "serving \<Rightarrow> serving_readings \<Rightarrow> arrival \<Rightarrow> (exn + unit) \<times> underway" where
  "after_middlewares sv rd a =
     middlewares (sv_runtime sv) (sv_csrf sv) (rd_csrf_clock rd) (rd_csrf_random rd) (rd_uuid rd) ''POST'' (arr_cookies a)
       \<lparr>uw_headers = arr_headers a, uw_request_id = None, response_headers = arr_response_headers a, context_id = None\<rparr>"

definition a2a_route :: route where
  "a2a_route = plain_route POST ''a2a/request''"

definition untouched :: "underway \<Rightarrow> http_request" where
  "untouched u = \<lparr>req_headers = uw_headers u, req_user = None, api_key_auth = False\<rparr>"

definition after_guards :: "serving \<Rightarrow> underway \<Rightarrow> exn + http_request" where
  "after_guards sv u = app_guards (sv_guards sv) a2a_route (untouched u)"

text \<open>
  The sanitising and the validation pipe. \<open>None\<close> stands for the bodies the record of requests cannot
  express: those that are no object, and null in an optional member.
\<close>

definition a2a_pipes :: "serving \<Rightarrow> json \<Rightarrow> (exn + a2a_request) option" where
  "a2a_pipes sv body =
     (case sanitize_transform ''body'' body of
        JObj ps \<Rightarrow> (case body_errors (validation_message sv) a2a_request_class ps of
                       [] \<Rightarrow> map_option Inr (read_a2a ps)
                     | e # es \<Rightarrow> Some (Inl (validation_failure sv (e # es))))
      | _ \<Rightarrow> None)"

definition audit_user_of :: "authenticated_user \<Rightarrow> audit_user" where
  "audit_user_of u = \<lparr>audit_user_id = Some (user_id u), audit_did = Some (user_did u), audit_role = Some (user_role u)\<rparr>"

definition observed :: "arrival \<Rightarrow> underway \<Rightarrow> http_request \<Rightarrow> observed_request" where
  "observed a u q =
     \<lparr>obs_method = ''POST'', obs_url = arr_url a, obs_request_id = uw_request_id u,
      obs_header_id = first_header (uw_headers u) request_id_header, obs_user = map_option audit_user_of (req_user q),
      obs_ip = arr_ip a, obs_user_agent = first_header (uw_headers u) ''user-agent''\<rparr>"

text \<open>
  The whole way. The result: what was thrown or answered, the request and response under way, the
  lines of the audit log, and the state afterwards.
\<close>

definition serve_a2a ::
    "'d protocol_env \<Rightarrow> serving \<Rightarrow> serving_readings \<Rightarrow> arrival \<Rightarrow> 'd app \<Rightarrow>
     ((exn + a2a_response) \<times> underway \<times> string list \<times> 'd app) option" where
  "serve_a2a env sv rd a w =
     (case after_middlewares sv rd a of
        (Inl e, u) \<Rightarrow> Some (Inl e, u, [], w)
      | (Inr _, u) \<Rightarrow>
          (case after_guards sv u of
             Inl e \<Rightarrow> Some (Inl e, u, [], w)
           | Inr q \<Rightarrow>
               (let audit = (\<lambda>outcome. audit_intercept (sv_nest sv) (rd_now rd) (rd_duration_ms rd) (observed a u q) outcome)
                in case a2a_pipes sv (arr_body a) of
                     None \<Rightarrow> None
                   | Some (Inl e) \<Rightarrow> Some (Inl e, u, audit (Inl e), w)
                   | Some (Inr dto) \<Rightarrow>
                       (case handle_request env (rd_handler rd) dto w of
                          (Inl e, w') \<Rightarrow> Some (Inl e, u, audit (Inl e), w')
                        | (Inr response, w') \<Rightarrow> Some (Inr response, u, audit (Inr 201), w')))))"

text \<open>The status the client gets.\<close>

definition answered_status :: "serving \<Rightarrow> serving_readings \<Rightarrow> arrival \<Rightarrow> underway \<Rightarrow> exn + a2a_response \<Rightarrow> nat option" where
  "answered_status sv rd a u outcome =
     (case outcome of
        Inr _ \<Rightarrow> Some 201
      | Inl e \<Rightarrow> map_option reply_status (reply_to (sv_nest sv) (sv_production sv) (rd_now rd)
          \<lparr>failed_method = ''POST'', failed_url = arr_url a, failed_headers = uw_headers u, failed_request_id = uw_request_id u\<rparr> e))"

section \<open>Lemmas\<close>

lemma audit_one [simp]: "audit_intercept n t d (observed a u q) r \<noteq> []"
  by (simp add: audit_intercept_def observed_def mutating_methods_def)

text \<open>Every way a request can end, with what is known there.\<close>

lemma serve_a2a_cases:
  assumes "serve_a2a env sv rd a w = Some (out, u, audit, w')"
  obtains
    (middleware) e where "after_middlewares sv rd a = (Inl e, u)" "out = Inl e" "audit = []" "w' = w"
  | (guard) e where "after_middlewares sv rd a = (Inr (), u)" "after_guards sv u = Inl e" "out = Inl e" "audit = []" "w' = w"
  | (pipe) q e where "after_middlewares sv rd a = (Inr (), u)" "after_guards sv u = Inr q"
      "a2a_pipes sv (arr_body a) = Some (Inl e)" "out = Inl e" "audit \<noteq> []" "w' = w"
  | (handler) q dto where "after_middlewares sv rd a = (Inr (), u)" "after_guards sv u = Inr q"
      "a2a_pipes sv (arr_body a) = Some (Inr dto)" "handle_request env (rd_handler rd) dto w = (out, w')" "audit \<noteq> []"
  using assms unfolding serve_a2a_def Let_def
  by (cases "after_middlewares sv rd a"; cases "fst (after_middlewares sv rd a)")
    (auto split: sum.splits option.splits prod.splits)

lemma serve_a2a_reaches_handler:
  assumes "after_middlewares sv rd a = (Inr (), u)" and "after_guards sv u = Inr q"
    and "a2a_pipes sv (arr_body a) = Some (Inr dto)" and "handle_request env (rd_handler rd) dto w = (out, w')"
  obtains audit where "serve_a2a env sv rd a w = Some (out, u, audit, w')" and "audit \<noteq> []"
  using assms unfolding serve_a2a_def Let_def by (cases out) auto

lemma untouched_fresh [simp]: "req_user (untouched u) = None" "api_key_auth (untouched u) = False"
  by (simp_all add: untouched_def)

text \<open>The request is not public, so whoever passes the guards has been identified.\<close>

lemma after_guards_caller:
  assumes "after_guards sv u = Inr q"
  shows "caller (sv_guards sv) a2a_route (untouched u) \<noteq> None"
    and "req_user q = caller (sv_guards sv) a2a_route (untouched u)"
proof -
  have "\<not> route_public a2a_route"
    by (simp add: route_public_def get_all_and_override_def a2a_route_def plain_route_def)
  with app_guards_outcome [of "untouched u" "sv_guards sv" a2a_route] assms
  show "caller (sv_guards sv) a2a_route (untouched u) \<noteq> None"
    and "req_user q = caller (sv_guards sv) a2a_route (untouched u)"
    by (auto simp: after_guards_def)
qed

text \<open>What has passed the middlewares has passed the CSRF check on the headers handed on.\<close>

definition csrf_view :: "arrival \<Rightarrow> underway \<Rightarrow> csrf_request" where
  "csrf_view a u = \<lparr>csrf_method = ''POST'', csrf_headers = uw_headers u, parsed_cookies = arr_cookies a\<rparr>"

lemma after_middlewares_csrf:
  assumes "after_middlewares sv rd a = (r, u)"
  shows "r = fst (csrf_use (sv_runtime sv) (sv_csrf sv) (rd_csrf_clock rd) (rd_csrf_random rd) (csrf_view a u))"
  using assms
  by (auto simp: after_middlewares_def middlewares_def csrf_view_def Let_def split: prod.splits option.splits)

lemma post_not_safe: "csrf_method (csrf_view a u) \<notin> safe_methods"
  by (simp add: csrf_view_def safe_methods_def)

section \<open>Properties\<close>

text \<open>
  C3: What stands between the network and a receipt. If a request of the agent protocol is answered
  with a receipt, then it named a bearer token or an API key or repeated a valid CSRF token, the
  guards identified a caller, the cleaned body passed the validation and reads as a request, the
  nonce of that request was fresh, every active policy of the called agent allows it, and exactly
  one audit line with status 201 was written.
\<close>

theorem answered_request_passed_every_stage:
  assumes "serve_a2a env sv rd a w = Some (Inr response, u, audit, w')"
  shows "(header_truthy (uw_headers u) ''authorization'' \<or> header_truthy (uw_headers u) (csrf_api_key_header (sv_csrf sv)) \<or>
      (\<exists>t. read_cookie (sv_runtime sv) (csrf_view a u) (csrf_cookie_name (sv_csrf sv)) = Inr (Some t) \<and>
         first_header (uw_headers u) (csrf_header_name (sv_csrf sv)) = Some t \<and>
         csrf_is_valid (sv_runtime sv) (sv_csrf sv) (presented_ms (rd_csrf_clock rd)) t)) \<and>
    (\<exists>c q. caller (sv_guards sv) a2a_route (untouched u) = Some c \<and> req_user q = Some c \<and>
       audit = [stringify (audit_entry (rd_now rd) (rd_duration_ms rd) (observed a u q) 201)]) \<and>
    (\<exists>ps dto w1 rules d1. sanitize (arr_body a) = JObj ps \<and> a2a_body_valid ps \<and> read_a2a ps = Some dto \<and>
       check_nonce env (rd_handler rd) dto w = (Inr (), w1) \<and>
       find_active env (agent_to_id dto) (outside w) = (Inr rules, d1) \<and>
       (\<forall>p \<in> set rules. fst (evaluate_policy_access (rules_of p) (policy_context_of dto))))"
proof -
  from assms obtain q dto where mw: "after_middlewares sv rd a = (Inr (), u)" and g: "after_guards sv u = Inr q"
    and body: "a2a_pipes sv (arr_body a) = Some (Inr dto)"
    and handled: "handle_request env (rd_handler rd) dto w = (Inr response, w')"
    by (auto elim: serve_a2a_cases)
  have "audit = audit_intercept (sv_nest sv) (rd_now rd) (rd_duration_ms rd) (observed a u q) (Inr 201)"
    using assms by (simp add: serve_a2a_def mw g body handled)
  then have "audit = [stringify (audit_entry (rd_now rd) (rd_duration_ms rd) (observed a u q) 201)]"
    by (simp add: audit_intercept_def observed_def mutating_methods_def)
  with after_guards_caller [OF g]
  have who: "\<exists>c q. caller (sv_guards sv) a2a_route (untouched u) = Some c \<and> req_user q = Some c \<and>
      audit = [stringify (audit_entry (rd_now rd) (rd_duration_ms rd) (observed a u q) 201)]"
    by (cases "caller (sv_guards sv) a2a_route (untouched u)") auto
  obtain ps where "sanitize (arr_body a) = JObj ps" "a2a_body_valid ps" "read_a2a ps = Some dto"
    using body by (auto simp: a2a_pipes_def sanitize_transform_def a2a_request_class_exact split: json.splits list.splits)
  with completed_request_stages [OF handled]
  have stages: "\<exists>ps dto w1 rules d1. sanitize (arr_body a) = JObj ps \<and> a2a_body_valid ps \<and> read_a2a ps = Some dto \<and>
       check_nonce env (rd_handler rd) dto w = (Inr (), w1) \<and>
       find_active env (agent_to_id dto) (outside w) = (Inr rules, d1) \<and>
       (\<forall>p \<in> set rules. fst (evaluate_policy_access (rules_of p) (policy_context_of dto)))"
    by blast
  have view: "csrf_headers (csrf_view a u) = uw_headers u" by (simp add: csrf_view_def)
  from after_middlewares_csrf [OF mw] csrf_double_submit [OF post_not_safe, of a u] who stages
  show ?thesis unfolding view by (metis (no_types, lifting))
qed

definition demo_serving :: serving where
  "demo_serving = \<lparr>sv_runtime = demo_runtime, sv_csrf = demo_csrf, sv_guards = demo_guard_config, sv_nest = demo_nest,
     sv_production = True, validation_message = (\<lambda>v k. k), validation_failure = (\<lambda>es. Bad_Request (concat es))\<rparr>"

definition demo_arrival :: "headers \<Rightarrow> arrival" where
  "demo_arrival hs = \<lparr>arr_url = ''/a2a/request'', arr_headers = hs, arr_cookies = None, arr_response_headers = [],
     arr_ip = None, arr_body = JObj demo_body\<rparr>"

definition demo_serving_readings :: serving_readings where
  "demo_serving_readings = \<lparr>rd_csrf_clock = demo_csrf_clock 5, rd_csrf_random = ''0f'', rd_uuid = ''u'', rd_now = ''now'',
     rd_duration_ms = 2, rd_handler = demo_readings 1000\<rparr>"

definition demo_credentials :: "bool \<Rightarrow> headers" where
  "demo_credentials service = (if service then [(''x-api-key'', One ''k1'')] else [(''authorization'', One ''Bearer t'')])"

definition demo_passed :: "bool \<Rightarrow> underway" where
  "demo_passed service = snd (after_middlewares demo_serving demo_serving_readings (demo_arrival (demo_credentials service)))"

lemma demo_headers:
  "uw_headers (demo_passed service) = jsmap_set request_id_header (One ''u'') (demo_credentials service)"
  by (simp add: demo_passed_def after_middlewares_def middlewares_state request_id_use_def security_headers_use_def
      incoming_request_id_def first_header_def demo_arrival_def demo_serving_readings_def demo_credentials_def
      request_id_header_def Let_def split: option.split)

lemma demo_header:
  "name \<noteq> ''x-request-id'' \<Longrightarrow>
    jsmap_get (uw_headers (demo_passed service)) name = jsmap_get (demo_credentials service) name"
  by (simp add: demo_headers request_id_header_def jsmap_get_set)

lemma demo_caller:
  "caller demo_guard_config a2a_route (untouched (demo_passed service)) =
     Some (if service then service_user ''rail'' else \<lparr>user_id = ''u'', user_did = ''did:prom:u'', user_role = ''agent''\<rparr>)"
proof (cases service)
  case True
  then have "first_header (uw_headers (demo_passed service)) ''x-api-key'' = Some ''k1''"
    by (simp add: first_header_def demo_header demo_credentials_def)
  then show ?thesis using True
    by (simp add: caller_def presented_key_label_def demo_guard_config_def untouched_def verify_api_key_def)
next
  case False
  then have "first_header (uw_headers (demo_passed service)) ''x-api-key'' = None"
    "first_header (uw_headers (demo_passed service)) ''authorization'' = Some ''Bearer t''"
    by (simp_all add: first_header_def demo_header demo_credentials_def)
  then show ?thesis using False
    by (simp add: caller_def presented_key_label_def demo_guard_config_def untouched_def verify_api_key_def
        validate_payload_def a2a_route_def route_public_def get_all_and_override_def plain_route_def)
qed

lemma demo_guards: "\<exists>q. after_guards demo_serving (demo_passed service) = Inr q"
proof -
  have "role_ok a2a_route c" for c
    by (simp add: role_ok_def required_roles_def get_all_and_override_def a2a_route_def plain_route_def)
  then show ?thesis
    using app_guards_outcome [of "untouched (demo_passed service)" demo_guard_config a2a_route] demo_caller
    by (auto simp: after_guards_def demo_serving_def)
qed

lemma demo_middlewares:
  "after_middlewares demo_serving demo_serving_readings (demo_arrival (demo_credentials service)) = (Inr (), demo_passed service)"
proof -
  let ?a = "demo_arrival (demo_credentials service)"
  obtain r where r: "after_middlewares demo_serving demo_serving_readings ?a = (r, demo_passed service)"
    by (metis demo_passed_def surj_pair snd_conv)
  have "header_truthy (uw_headers (demo_passed service)) (if service then ''x-api-key'' else ''authorization'')"
    by (simp add: header_truthy_def demo_header demo_credentials_def)
  moreover have "read_cookie demo_runtime (csrf_view ?a (demo_passed service)) ''a2a.csrf'' = Inr None"
    by (simp add: read_cookie_def csrf_view_def demo_header demo_arrival_def demo_credentials_def)
  ultimately show ?thesis using after_middlewares_csrf [OF r] r
    by (cases service) (simp_all add: csrf_use_def csrf_view_def demo_serving_def demo_csrf_def demo_serving_readings_def Let_def safe_methods_def)
qed

lemma demo_body_clean: "clean_json (JObj demo_body)"
proof -
  have "list_all (\<lambda>s. clean_text s) [''did:prom:a'', ''did:prom:b'', ''s'', demo_hash, ''0x1'']"
    unfolding list.pred_inject by (intro conjI clean_text_plain TrueI; code_simp)
  then show ?thesis by (simp add: demo_body_def)
qed

lemma demo_sanitized: "sanitize (JObj demo_body) = JObj demo_body"
proof -
  have "sanitize (JObj demo_body) = JObj (foldl (\<lambda>acc p. obj_assign (fst p) (snd p) acc) [] demo_body)"
    using demo_body_clean by (simp add: demo_body_def strip_html_clean)
  also have "foldl (\<lambda>acc p. obj_assign (fst p) (snd p) acc) [] demo_body = demo_body" by code_simp
  finally show ?thesis .
qed

lemma demo_valid: "a2a_body_valid demo_body"
  by code_simp

text \<open>Both the agent with the bearer token and the service with the API key reach the handler.\<close>

lemma demo_reaches_handler:
  obtains response audit v where
    "serve_a2a open_env demo_serving demo_serving_readings (demo_arrival (demo_credentials service)) (new_app []) =
       Some (Inr response, demo_passed service, audit, v)" and "audit \<noteq> []"
proof -
  let ?a = "demo_arrival (demo_credentials service)"
  note mw = demo_middlewares [of service]
  obtain q where g: "after_guards demo_serving (demo_passed service) = Inr q" using demo_guards by blast
  obtain dto where dto: "read_a2a demo_body = Some dto" "nonce dto = None"
    by (simp add: read_a2a_def demo_body_def text_of_def)
  have body: "a2a_pipes demo_serving (arr_body ?a) = Some (Inr dto)"
    using demo_sanitized iffD2 [OF a2a_request_class_exact demo_valid]
    by (simp add: a2a_pipes_def sanitize_transform_def demo_arrival_def dto)
  obtain response v where handled: "handle_request open_env (rd_handler demo_serving_readings) dto (new_app []) = (Inr response, v)"
    by (simp add: handle_request_def check_nonce_def nonce_given_def dto io_bind_def assert_allowed_def on_outside_def
        open_env_def demo_env_def complete_request_def record_usage_def create_signed_receipt_def demo_metering_def new_app_def)
  from serve_a2a_reaches_handler [OF mw g body handled] show ?thesis using that by blast
qed

theorem answered_request_passed_every_stage_witness:
  "caller (sv_guards demo_serving) a2a_route (untouched (demo_passed False)) \<noteq> None \<and>
   (\<exists>dto. read_a2a demo_body = Some dto \<and> (\<exists>w1. check_nonce open_env (rd_handler demo_serving_readings) dto (new_app []) = (Inr (), w1)))"
proof -
  obtain response audit v where served:
    "serve_a2a open_env demo_serving demo_serving_readings (demo_arrival (demo_credentials False)) (new_app []) =
       Some (Inr response, demo_passed False, audit, v)"
    by (rule demo_reaches_handler)
  have "sanitize (arr_body (demo_arrival (demo_credentials False))) = JObj demo_body"
    using demo_sanitized by (simp add: demo_arrival_def)
  with answered_request_passed_every_stage [OF served] show ?thesis by auto
qed

text \<open>
  C28: What the audit log of the protocol misses. A request leaves no audit line exactly if a
  middleware or a guard refused it, and such a request has changed nothing; every request that
  reaches the pipes leaves one, whether it is answered, invalid, replayed or denied.
\<close>

theorem audited_exactly_behind_guards:
  assumes "serve_a2a env sv rd a w = Some (out, u, audit, w')"
  shows "(audit = [] \<longleftrightarrow> (\<exists>e. after_middlewares sv rd a = (Inl e, u) \<or>
      after_middlewares sv rd a = (Inr (), u) \<and> after_guards sv u = Inl e)) \<and>
    (if audit = [] then w' = w \<and> isl out else length audit = 1)"
proof -
  have "length audit \<le> 1" using assms
    by (auto simp: serve_a2a_def audit_intercept_def Let_def split: prod.splits sum.splits option.splits)
  then have "audit \<noteq> [] \<Longrightarrow> length audit = 1" by (cases audit) auto
  then show ?thesis using assms by (auto elim: serve_a2a_cases)
qed

theorem audited_exactly_behind_guards_witness:
  "\<exists>out u v. serve_a2a open_env demo_serving demo_serving_readings (demo_arrival []) (new_app []) = Some (out, u, [], v) \<and>
     v = new_app [] \<and> isl out"
proof -
  let ?a = "demo_arrival []"
  let ?m = "after_middlewares demo_serving demo_serving_readings ?a"
  obtain r u where m: "?m = (r, u)" by (cases ?m)
  have u: "uw_headers u = [(''x-request-id'', One ''u'')]"
    using arg_cong [OF m, of snd]
    by (auto simp: after_middlewares_def middlewares_state request_id_use_def security_headers_use_def
        incoming_request_id_def first_header_def demo_arrival_def demo_serving_readings_def request_id_header_def Let_def
        split: option.splits)
  have "r = Inl (Forbidden ''CSRF token missing'')"
    unfolding after_middlewares_csrf [OF m]
    by (simp add: csrf_use_def csrf_view_def u read_cookie_def header_truthy_def first_header_def demo_arrival_def
        demo_serving_def demo_csrf_def safe_methods_def Let_def)
  with m obtain e where "?m = (Inl e, u)" by blast
  then have "serve_a2a open_env demo_serving demo_serving_readings ?a (new_app []) = Some (Inl e, u, [], new_app [])"
    by (simp add: serve_a2a_def)
  from audited_exactly_behind_guards [OF this] this show ?thesis by auto
qed

text \<open>
  C22: The identified caller is not bound to the agent it speaks for. Two requests with the same body
  that both pass the guards, with whatever credentials, of whichever callers, have the same outcome
  and leave the same state: the sender's DID in the body is never compared with the caller's.
\<close>

theorem caller_not_bound_to_agent:
  assumes "serve_a2a env sv rd a w = Some (out, u, audit, v)" and "serve_a2a env sv rd a' w = Some (out', u', audit', v')"
    and "audit \<noteq> []" and "audit' \<noteq> []" and "arr_body a' = arr_body a"
  shows "out' = out \<and> v' = v"
  using assms(1)
proof (cases rule: serve_a2a_cases)
  case (pipe q e)
  with assms(2-5) show ?thesis by (auto elim: serve_a2a_cases)
next
  case (handler q dto)
  with assms(2-5) show ?thesis by (auto elim: serve_a2a_cases)
qed (use assms(3) in auto)

theorem caller_not_bound_to_agent_witness:
  "caller (sv_guards demo_serving) a2a_route (untouched (demo_passed False)) \<noteq>
     caller (sv_guards demo_serving) a2a_route (untouched (demo_passed True)) \<and>
   map_option fst (serve_a2a open_env demo_serving demo_serving_readings (demo_arrival (demo_credentials False)) (new_app [])) =
     map_option fst (serve_a2a open_env demo_serving demo_serving_readings (demo_arrival (demo_credentials True)) (new_app []))"
proof
  show "caller (sv_guards demo_serving) a2a_route (untouched (demo_passed False)) \<noteq>
     caller (sv_guards demo_serving) a2a_route (untouched (demo_passed True))"
    by (simp add: demo_caller demo_serving_def service_user_def)
  obtain r audit v where agent:
    "serve_a2a open_env demo_serving demo_serving_readings (demo_arrival (demo_credentials False)) (new_app []) =
       Some (Inr r, demo_passed False, audit, v)" "audit \<noteq> []"
    by (rule demo_reaches_handler)
  obtain r' audit' v' where service:
    "serve_a2a open_env demo_serving demo_serving_readings (demo_arrival (demo_credentials True)) (new_app []) =
       Some (Inr r', demo_passed True, audit', v')" "audit' \<noteq> []"
    by (rule demo_reaches_handler)
  have "arr_body (demo_arrival (demo_credentials True)) = arr_body (demo_arrival (demo_credentials False))"
    by (simp add: demo_arrival_def)
  from caller_not_bound_to_agent [OF agent(1) service(1) agent(2) service(2) this] agent(1) service(1)
  show "map_option fst (serve_a2a open_env demo_serving demo_serving_readings (demo_arrival (demo_credentials False)) (new_app [])) =
     map_option fst (serve_a2a open_env demo_serving demo_serving_readings (demo_arrival (demo_credentials True)) (new_app []))"
    by simp
qed

end
