(* ===== verification/Load_Profile.thy ===== *)
theory Load_Profile
  imports Config Validators "HOL-Library.Word"
begin

text \<open>
  The settings of the load profile (\<open>k6/agent-layer-load.js\<close>): what it takes from its environment, the
  stages and thresholds it hands to the runner, and the pseudo hash of its requests, a congruential
  generator over 32-bit words. The lemmas say that the loop of the hash ends after eight rounds.
\<close>

section \<open>Settings\<close>

definition load_base_url :: "env \<Rightarrow> string" where
  "load_base_url env =
     strip_slashes (case given (env ''BASE_URL'') of None \<Rightarrow> ''http://localhost:3001'' | Some u \<Rightarrow> u)"

definition load_profile_name :: "env \<Rightarrow> string" where
  "load_profile_name env = (case given (env ''PROFILE'') of None \<Rightarrow> ''load'' | Some p \<Rightarrow> p)"

definition load_agent_to :: "env \<Rightarrow> string" where
  "load_agent_to env = (case given (env ''AGENT_TO'') of None \<Rightarrow> ''did:prom:k6-target'' | Some a \<Rightarrow> a)"

definition search_terms :: "string list" where
  "search_terms = [[], ''translate'', ''summar'', ''image'', ''code'', ''search'']"

record stage =
  stage_duration :: string
  stage_target :: nat

record load_profile =
  catalog_stages :: "stage list"
  a2a_stages :: "stage list"

definition stages_of :: "(string \<times> nat) list \<Rightarrow> stage list" where
  "stages_of ps = map (\<lambda>(d, t). \<lparr>stage_duration = d, stage_target = t\<rparr>) ps"

definition load_profiles :: "(string \<times> load_profile) list" where
  "load_profiles =
     [(''smoke'',
       \<lparr>catalog_stages = stages_of [(''30s'', 5)],
        a2a_stages = stages_of [(''30s'', 2)]\<rparr>),
      (''load'',
       \<lparr>catalog_stages = stages_of [(''1m'', 50), (''3m'', 50), (''30s'', 0)],
        a2a_stages = stages_of [(''1m'', 10), (''3m'', 10), (''30s'', 0)]\<rparr>),
      (''stress'',
       \<lparr>catalog_stages = stages_of [(''2m'', 100), (''2m'', 200), (''2m'', 300), (''1m'', 0)],
        a2a_stages = stages_of [(''2m'', 20), (''2m'', 40), (''2m'', 60), (''1m'', 0)]\<rparr>)]"

text \<open>The lookup is by own member, as for the networks.\<close>

definition chosen_profile :: "env \<Rightarrow> exn + load_profile" where
  "chosen_profile env =
     (case map_of load_profiles (load_profile_name env) of
        Some p \<Rightarrow> Inr p
      | None \<Rightarrow> Inl (Js_Error ''Error''
          (''Unknown PROFILE '' @ [CHR 0x22] @ load_profile_name env @ [CHR 0x22] @ '', expected one of '' @
           js_join '', '' (map fst load_profiles))))"

record scenario =
  executor :: string
  exec_function :: string
  start_rate :: nat
  time_unit :: string
  pre_allocated_vus :: nat
  max_vus :: nat
  scenario_stages :: "stage list"
  flow_tag :: string

record load_options =
  scenarios :: "(string \<times> scenario) list"
  thresholds :: "(string \<times> string list) list"
  summary_trend_stats :: "string list"

definition load_options_of :: "load_profile \<Rightarrow> load_options" where
  "load_options_of p =
     \<lparr>scenarios =
        [(''catalog_search'',
          \<lparr>executor = ''ramping-arrival-rate'', exec_function = ''catalogSearch'', start_rate = 1, time_unit = ''1s'',
           pre_allocated_vus = 20, max_vus = 400, scenario_stages = catalog_stages p, flow_tag = ''catalog''\<rparr>),
         (''a2a_requests'',
          \<lparr>executor = ''ramping-arrival-rate'', exec_function = ''a2aRequest'', start_rate = 1, time_unit = ''1s'',
           pre_allocated_vus = 10, max_vus = 200, scenario_stages = a2a_stages p, flow_tag = ''a2a''\<rparr>)],
      thresholds =
        [(''http_req_duration{flow:catalog}'', [''p(95)<250'', ''p(99)<600'']),
         (''http_req_duration{flow:a2a}'', [''p(95)<800'', ''p(99)<1500'']),
         (''http_req_failed{flow:catalog}'', [''rate<0.01'']),
         (''http_req_failed{flow:a2a}'', [''rate<0.01'']),
         (''a2a_accepted'', [''rate>0.99'']),
         (''a2a_receipt_signed'', [''rate>0.99'']),
         (''throttled_requests'', [''count<1'']),
         (''checks'', [''rate>0.99''])],
      summary_trend_stats = [''avg'', ''min'', ''med'', ''p(90)'', ''p(95)'', ''p(99)'', ''max'']\<rparr>"

section \<open>The pseudo hash\<close>

text \<open>\<open>n.toString(16)\<close> of a natural number, and \<open>padStart\<close>.\<close>

fun hex_text :: "nat \<Rightarrow> string" where
  "hex_text n = (if n < 16 then [hex_digit n] else hex_text (n div 16) @ [hex_digit (n mod 16)])"

declare hex_text.simps [simp del]

definition pad_start :: "nat \<Rightarrow> char \<Rightarrow> string \<Rightarrow> string" where
  "pad_start k c s = replicate (k - length s) c @ s"

text \<open>
  One round: \<open>Math.imul\<close> multiplies modulo \<open>2\<^sup>3\<^sup>2\<close>, and \<open>>>> 0\<close> reduces the sum to 32 bits.
\<close>

definition next_state :: "32 word \<Rightarrow> 32 word" where
  "next_state s = s * 1664525 + 1013904223"

definition state_text :: "32 word \<Rightarrow> string" where
  "state_text s = pad_start 8 CHR ''0'' (hex_text (unat s))"

function hash_loop :: "string \<Rightarrow> 32 word \<Rightarrow> string" where
  "hash_loop out s =
     (if length out < 64 then hash_loop (out @ state_text (next_state s)) (next_state s) else out)"
  by pat_completeness auto

lemma length_pad_start: "length (pad_start k c s) = max k (length s)"
  by (simp add: pad_start_def)

termination hash_loop
  by (relation "measure (\<lambda>(out, s). 64 - length out)") (auto simp: state_text_def length_pad_start)

declare hash_loop.simps [simp del]

text \<open>The seed is a natural number below \<open>2\<^sup>5\<^sup>3\<close>, which \<open>>>> 0\<close> reduces modulo \<open>2\<^sup>3\<^sup>2\<close>.\<close>

definition pseudo_hash :: "nat \<Rightarrow> string" where
  "pseudo_hash seed = ''0x'' @ take 64 (hash_loop [] (of_nat seed))"

section \<open>Hash lemmas\<close>

lemma is_hex_hex_digit: "n < 16 \<Longrightarrow> is_hex (hex_digit n)"
proof -
  have "\<forall>n < 16. is_hex (hex_digit n)" by code_simp
  then show "n < 16 \<Longrightarrow> is_hex (hex_digit n)" by blast
qed

lemma hex_val_hex_digit: "n < 16 \<Longrightarrow> hex_val (hex_digit n) = n"
proof -
  have "\<forall>n < 16. hex_val (hex_digit n) = n" by code_simp
  then show "n < 16 \<Longrightarrow> hex_val (hex_digit n) = n" by blast
qed

lemma hex_text_is_hex: "list_all is_hex (hex_text n)"
  by (induction n rule: hex_text.induct) (subst hex_text.simps, simp add: is_hex_hex_digit)

lemma hex_text_length: "n < 16 ^ Suc k \<Longrightarrow> length (hex_text n) \<le> Suc k"
proof (induction k arbitrary: n)
  case 0
  then show ?case by (subst hex_text.simps) simp
next
  case (Suc k)
  then have "n div 16 < 16 ^ Suc k" by (simp add: less_mult_imp_div_less)
  then have "length (hex_text (n div 16)) \<le> Suc k" by (rule Suc.IH)
  then show ?case by (subst hex_text.simps) simp
qed

definition hex_value :: "string \<Rightarrow> nat" where
  "hex_value s = foldl (\<lambda>n c. 16 * n + hex_val c) 0 s"

lemma hex_value_text: "hex_value (hex_text n) = n"
proof (induction n rule: hex_text.induct)
  case (1 n)
  then show ?case by (subst hex_text.simps) (auto simp: hex_value_def hex_val_hex_digit)
qed

lemma hex_value_pad: "hex_value (pad_start k CHR ''0'' s) = hex_value s"
proof -
  have "foldl (\<lambda>n c. 16 * n + hex_val c) 0 (replicate j CHR ''0'') = 0" for j
    by (induction j) (simp_all add: hex_val_def is_digit_def char_in_def)
  then show ?thesis by (simp add: hex_value_def pad_start_def)
qed

lemma state_text_inj: "state_text s = state_text t \<longleftrightarrow> s = t"
proof
  assume "state_text s = state_text t"
  then have "hex_value (state_text s) = hex_value (state_text t)" by simp
  then have "unat s = unat t" by (simp add: state_text_def hex_value_pad hex_value_text)
  then show "s = t" by (rule unsigned_word_eqI)
qed simp

lemma length_state_text [simp]: "length (state_text s) = 8"
proof -
  have "unat s < 16 ^ Suc 7" using unsigned_less [of s] by simp
  then have "length (hex_text (unat s)) \<le> 8" using hex_text_length by fastforce
  then show ?thesis by (simp add: state_text_def length_pad_start)
qed

lemma state_text_is_hex: "list_all is_hex (state_text s)"
proof -
  have "is_hex CHR ''0''" by code_simp
  then show ?thesis using hex_text_is_hex [of "unat s"] by (auto simp: state_text_def pad_start_def list_all_iff)
qed

text \<open>1664525 is odd, so a round is a bijection of the 32-bit words.\<close>

lemma next_state_inj: "next_state s = next_state t \<longleftrightarrow> s = t"
proof
  assume "next_state s = next_state t"
  then have "s * 1664525 * 4276115653 = t * 1664525 * 4276115653" by (simp add: next_state_def)
  moreover have "(1664525 :: 32 word) * 4276115653 = 1" by simp
  ultimately show "s = t" by (simp only: mult.assoc mult_1_right)
qed simp

lemma hash_loop_rounds:
  "length out = 8 * k \<Longrightarrow> k + n = 8 \<Longrightarrow>
     hash_loop out s = out @ concat (map (\<lambda>i. state_text ((next_state ^^ Suc i) s)) [0..<n])"
proof (induction n arbitrary: out k s)
  case 0
  then show ?case by (simp add: hash_loop.simps)
next
  case (Suc n)
  have "hash_loop out s = hash_loop (out @ state_text (next_state s)) (next_state s)"
    using Suc.prems by (subst hash_loop.simps) simp
  also have "\<dots> = (out @ state_text (next_state s)) @
      concat (map (\<lambda>i. state_text ((next_state ^^ Suc i) (next_state s))) [0..<n])"
    by (rule Suc.IH [of _ "Suc k"]) (use Suc.prems in simp_all)
  also have "\<dots> = out @ concat (map (\<lambda>i. state_text ((next_state ^^ Suc i) s)) [0..<Suc n])"
    by (simp add: upt_conv_Cons map_Suc_upt [symmetric] funpow_swap1 o_def del: upt_Suc)
  finally show ?case .
qed

lemma length_concat_states: "length (concat (map (\<lambda>i. state_text (f i)) xs)) = 8 * length xs"
  by (induction xs) simp_all

text \<open>The loop runs eight rounds, and the cut to 64 characters removes nothing.\<close>

lemma pseudo_hash_rounds:
  "pseudo_hash seed = ''0x'' @ concat (map (\<lambda>i. state_text ((next_state ^^ Suc i) (of_nat seed))) [0..<8])"
proof -
  let ?h = "concat (map (\<lambda>i. state_text ((next_state ^^ Suc i) (of_nat seed))) [0..<8])"
  have "hash_loop [] (of_nat seed) = ?h"
    using hash_loop_rounds [of "[]" 0 8 "of_nat seed"] by simp
  moreover have "length ?h = 64" by (simp only: length_concat_states length_upt)
  ultimately show ?thesis by (simp add: pseudo_hash_def)
qed

lemma pseudo_hash_valid: "is_keccak256_hash (JStr (pseudo_hash seed))" and length_pseudo_hash: "length (pseudo_hash seed) = 66"
proof -
  let ?h = "concat (map (\<lambda>i. state_text ((next_state ^^ Suc i) (of_nat seed))) [0..<8])"
  have len: "length ?h = 64" by (simp only: length_concat_states length_upt)
  moreover have "list_all is_hex ?h" using state_text_is_hex by (auto simp: list_all_iff)
  ultimately have "rx_match keccak256_pattern (''0x'' @ ?h)" unfolding keccak256_pattern_iff by blast
  then show "is_keccak256_hash (JStr (pseudo_hash seed))"
    by (simp only: pseudo_hash_rounds is_keccak256_hash_def string_matching_def json.case)
  show "length (pseudo_hash seed) = 66" unfolding pseudo_hash_rounds length_append len by simp
qed

lemma of_nat_word32_eq_iff: "(of_nat a :: 32 word) = of_nat b \<longleftrightarrow> a mod 2 ^ 32 = b mod 2 ^ 32"
  by (simp add: word_of_nat_eq_iff take_bit_eq_mod)

lemma pseudo_hash_eq_iff: "pseudo_hash a = pseudo_hash b \<longleftrightarrow> a mod 2 ^ 32 = b mod 2 ^ 32"
proof -
  have "take 8 (drop 2 (pseudo_hash n)) = state_text (next_state (of_nat n))" for n
    by (simp add: pseudo_hash_rounds upt_conv_Cons del: upt_Suc)
  then have "pseudo_hash a = pseudo_hash b \<longleftrightarrow> (of_nat a :: 32 word) = of_nat b"
    by (metis pseudo_hash_def state_text_inj next_state_inj)
  then show ?thesis by (simp only: of_nat_word32_eq_iff)
qed

section \<open>Properties\<close>

text \<open>
  C40: The pseudo hash has the form the service demands. Whatever the seed, its loop ends with 64
  hexadecimal digits, so the text passes the hash validator; and two seeds give the same text
  exactly if they agree modulo 2 to the 32.
\<close>

theorem pseudo_hash_faithful:
  "is_keccak256_hash (JStr (pseudo_hash a)) \<and> length (pseudo_hash a) = 66 \<and>
   (pseudo_hash a = pseudo_hash b \<longleftrightarrow> a mod 2 ^ 32 = b mod 2 ^ 32)"
  using pseudo_hash_valid length_pseudo_hash pseudo_hash_eq_iff by blast

end
