(* ===== verification/Load_Test.thy ===== *)
theory Load_Test
  imports Load_Profile Serving Catalog Http_Metrics
begin

text \<open>
  The two flows of the load profile (\<open>k6/agent-layer-load.js\<close>): its requests and what it counts of
  their answers. The runner (\<open>k6\<close>) is outside the repository: requests, checks and samples are events
  of its world, and the verdict of its \<open>check\<close> is a parameter. The globals \<open>__VU\<close> and \<open>__ITER\<close> are
  arguments. The properties run the flow's requests through the service's own pipes and nonce store.
\<close>

section \<open>The runner's world\<close>

record k6_request =
  k6_method :: string
  k6_url :: string
  k6_headers :: "(string \<times> string) list"
  k6_endpoint_tag :: "string option"
  k6_body :: "string option"

text \<open>\<open>r.json()\<close> parses the body or throws; a header is looked up by its canonical name.\<close>

record k6_response =
  k6_status :: nat
  k6_json :: "exn + json"
  k6_response_header :: "string \<Rightarrow> string option"

datatype k6_event =
    Sent k6_request
  | Throttled
  | Accepted_Sample bool
  | Signed_Sample bool
  | Catalog_Size nat
  | Checked "(string \<times> (exn + bool)) list"

text \<open>
  The service under test answers from its own state; \<open>check_verdict\<close> is what the runner's \<open>check\<close>
  returns or throws for the outcomes of the conditions.
\<close>

record 's k6_world =
  service_state :: 's
  events :: "k6_event list"

record 's k6_runner =
  answer :: "k6_request \<Rightarrow> 's \<Rightarrow> k6_response \<times> 's"
  check_verdict :: "(string \<times> (exn + bool)) list \<Rightarrow> exn + bool"

definition emit :: "k6_event \<Rightarrow> ('s k6_world, unit) io" where
  "emit e w = (Inr (), w\<lparr>events := events w @ [e]\<rparr>)"

definition send :: "'s k6_runner \<Rightarrow> k6_request \<Rightarrow> ('s k6_world, k6_response) io" where
  "send k q w =
     (let (r, s) = answer k q (service_state w)
      in (Inr r, w\<lparr>service_state := s, events := events w @ [Sent q]\<rparr>))"

definition check :: "'s k6_runner \<Rightarrow> (string \<times> (exn + bool)) list \<Rightarrow> ('s k6_world, bool) io" where
  "check k cs w = (check_verdict k cs, w\<lparr>events := events w @ [Checked cs]\<rparr>)"

text \<open>What the runner documents: without an exception, the verdict is that all conditions hold.\<close>

definition check_documented :: "'s k6_runner \<Rightarrow> bool" where
  "check_documented k \<longleftrightarrow> (\<forall>bs. check_verdict k (map (\<lambda>(n, b). (n, Inr b)) bs) = Inr (list_all snd bs))"

section \<open>Requests\<close>

definition load_headers :: "env \<Rightarrow> nat \<Rightarrow> nat \<Rightarrow> (string \<times> string) list \<Rightarrow> (string \<times> string) list" where
  "load_headers env vu iter extra =
     (let base = [(''Content-Type'', ''application/json''), (''x-request-id'', ''k6-'' @ nat_str vu @ ''-'' @ nat_str iter)];
          with_key = (case given (env ''API_KEY'') of None \<Rightarrow> base | Some k \<Rightarrow> own_set ''x-api-key'' k base);
          with_token = (case given (env ''AUTH_TOKEN'') of None \<Rightarrow> with_key | Some t \<Rightarrow> own_set ''Authorization'' (''Bearer '' @ t) with_key)
      in foldl (\<lambda>acc p. own_set (fst p) (snd p) acc) with_token extra)"

definition track :: "k6_response \<Rightarrow> ('s k6_world, k6_response) io" where
  "track res = io_bind (if k6_status res = 429 then emit Throttled else io_return ()) (\<lambda>_. io_return res)"

definition get_request :: "env \<Rightarrow> nat \<Rightarrow> nat \<Rightarrow> string \<Rightarrow> string \<Rightarrow> k6_request" where
  "get_request env vu iter path tag =
     \<lparr>k6_method = ''GET'', k6_url = load_base_url env @ path, k6_headers = load_headers env vu iter [],
      k6_endpoint_tag = Some tag, k6_body = None\<rparr>"

text \<open>\<open>encodeURIComponent\<close> of code units up to 255.\<close>

definition uri_unreserved :: "char \<Rightarrow> bool" where
  "uri_unreserved c \<longleftrightarrow> is_word c \<or> c \<in> set ''-.!~*()'' \<or> c = CHR 0x27"

definition percent_byte :: "nat \<Rightarrow> string" where
  "percent_byte b = [CHR ''%'', char_upper (hex_digit (b div 16)), char_upper (hex_digit (b mod 16))]"

definition encode_uri_component :: "string \<Rightarrow> string" where
  "encode_uri_component s =
     concat (map (\<lambda>c. if uri_unreserved c then [c] else concat (map percent_byte (utf8_char c))) s)"

section \<open>Reading answers\<close>

fun json_truthy :: "json \<Rightarrow> bool" where
  "json_truthy JNull = False"
| "json_truthy (JBool b) = b"
| "json_truthy (JNum n) = (n \<noteq> ''0'')"
| "json_truthy (JStr s) = (s \<noteq> [])"
| "json_truthy _ = True"

text \<open>
  \<open>v.k\<close>, \<open>None\<close> for \<open>undefined\<close>, for the names read here, which no value inherits. The text of the
  engine's error is left out.
\<close>

definition read_member :: "json \<Rightarrow> string \<Rightarrow> exn + json option" where
  "read_member v k =
     (case v of JObj ps \<Rightarrow> Inr (map_of ps k) | JNull \<Rightarrow> Inl (Js_Error ''TypeError'' []) | _ \<Rightarrow> Inr None)"

text \<open>\<open>res.json(k)\<close> selects a member of the parsed body.\<close>

definition selected :: "k6_response \<Rightarrow> string \<Rightarrow> exn + json option" where
  "selected r k = attempt (k6_json r) (\<lambda>v. Inr (case v of JObj ps \<Rightarrow> map_of ps k | _ \<Rightarrow> None))"

definition is_array :: "json option \<Rightarrow> bool" where
  "is_array v = (case v of Some (JArr _) \<Rightarrow> True | _ \<Rightarrow> False)"

text \<open>\<open>String(v)\<close> in a template, for the ids the listing returned.\<close>

fun json_text :: "json \<Rightarrow> string" where
  "json_text JNull = ''null''"
| "json_text (JBool b) = (if b then ''true'' else ''false'')"
| "json_text (JNum n) = n"
| "json_text (JStr s) = s"
| "json_text (JArr xs) = js_join '','' (map (\<lambda>x. if x = JNull then [] else json_text x) xs)"
| "json_text (JObj ps) = ''[object Object]''"

section \<open>Setup\<close>

record load_data =
  service_ids :: "json list"
  load_started_at :: nat

fun ids_of :: "json list \<Rightarrow> exn + json list" where
  "ids_of [] = Inr []"
| "ids_of (s # ss) = attempt (read_member s ''id'') (\<lambda>i. attempt (ids_of ss) (\<lambda>rest. Inr (case_option JNull id i # rest)))"

text \<open>
  The runner hands the data to the iterations as JSON, where an id that is missing is null.
  \<open>fail\<close> throws.
\<close>

definition listed_ids :: "k6_response \<Rightarrow> exn + json list" where
  "listed_ids services =
     attempt (if k6_status services = 200 then k6_json services else Inr (JArr [])) (\<lambda>listing.
     case listing of JArr xs \<Rightarrow> ids_of (take 50 xs) | _ \<Rightarrow> Inr [])"

definition lift_result :: "exn + 'a \<Rightarrow> ('w, 'a) io" where
  "lift_result r w = (r, w)"

definition load_setup :: "env \<Rightarrow> 's k6_runner \<Rightarrow> nat \<Rightarrow> nat \<Rightarrow> nat \<Rightarrow> ('s k6_world, load_data) io" where
  "load_setup env k vu iter now =
     io_bind (send k \<lparr>k6_method = ''GET'', k6_url = load_base_url env @ ''/health'', k6_headers = [], k6_endpoint_tag = None, k6_body = None\<rparr>) (\<lambda>health.
     if k6_status health \<noteq> 200
     then io_throw (Js_Error ''Error'' (''service is not healthy at '' @ load_base_url env @ ''/health (status '' @ nat_str (k6_status health) @ '')''))
     else if given (env ''API_KEY'') = None \<and> given (env ''AUTH_TOKEN'') = None
     then io_throw (Js_Error ''Error'' ''set API_KEY or AUTH_TOKEN: every route except the probes requires authentication'')
     else
       io_bind (send k \<lparr>k6_method = ''GET'', k6_url = load_base_url env @ ''/services'', k6_headers = load_headers env vu iter [], k6_endpoint_tag = None, k6_body = None\<rparr>) (\<lambda>services.
       io_bind (lift_result (listed_ids services)) (\<lambda>ids.
       io_return \<lparr>service_ids = ids, load_started_at = now\<rparr>)))"

section \<open>Catalog searches\<close>

text \<open>The size is sampled once all checks passed, so the body is an array then.\<close>

fun every :: "('a \<Rightarrow> exn + bool) \<Rightarrow> 'a list \<Rightarrow> exn + bool" where
  "every p [] = Inr True"
| "every p (x # xs) = attempt (p x) (\<lambda>b. if b then every p xs else Inr False)"

definition tariffs_embedded :: "json \<Rightarrow> exn + bool" where
  "tariffs_embedded v =
     (case v of
        JArr xs \<Rightarrow> every (\<lambda>s. attempt (read_member s ''tariffs'') (\<lambda>t. Inr (is_array t))) xs
      | _ \<Rightarrow> Inl (Js_Error ''TypeError'' []))"

definition catalog_checks :: "k6_response \<Rightarrow> (string \<times> (exn + bool)) list" where
  "catalog_checks r =
     [(''services: status 200'', Inr (k6_status r = 200)),
      (''services: returns a list'',
        if k6_status r = 200 then attempt (k6_json r) (\<lambda>v. Inr (is_array (Some v))) else Inr False),
      (''services: tariffs embedded'',
        if k6_status r = 200 then attempt (k6_json r) tariffs_embedded else Inr False)]"

definition list_request :: "env \<Rightarrow> nat \<Rightarrow> nat \<Rightarrow> k6_request" where
  "list_request env vu iter =
     get_request env vu iter
       (''/services?include=tariffs&limit=50&q='' @ encode_uri_component (search_terms ! ((vu + iter) mod length search_terms)))
       ''GET /services''"

definition status_check :: "'s k6_runner \<Rightarrow> string \<Rightarrow> k6_response \<Rightarrow> ('s k6_world, bool) io" where
  "status_check k name r = check k [(name, Inr (k6_status r = 200))]"

definition catalog_search :: "env \<Rightarrow> 's k6_runner \<Rightarrow> nat \<Rightarrow> nat \<Rightarrow> load_data \<Rightarrow> ('s k6_world, unit) io" where
  "catalog_search env k vu iter data =
     io_bind (io_bind (send k (list_request env vu iter)) track) (\<lambda>listing.
     io_bind (check k (catalog_checks listing)) (\<lambda>ok.
     io_bind (if ok
              then io_bind (lift_result (k6_json listing)) (\<lambda>v. emit (Catalog_Size (case v of JArr xs \<Rightarrow> length xs | _ \<Rightarrow> 0)))
              else io_return ()) (\<lambda>_.
     if service_ids data = [] then io_return ()
     else
       (let i = json_text (service_ids data ! ((vu + iter) mod length (service_ids data)))
        in io_bind (io_bind (send k (get_request env vu iter (''/services/'' @ i) ''GET /services/:id'')) track) (\<lambda>detail.
           io_bind (status_check k ''service detail: status 200'' detail) (\<lambda>_.
           io_bind (io_bind (send k (get_request env vu iter (''/tariffs?serviceId='' @ i) ''GET /tariffs'')) track) (\<lambda>tariffs.
           io_bind (status_check k ''tariffs: status 200'' tariffs) (\<lambda>_. io_return ()))))))))"

section \<open>Protocol requests\<close>

definition unique_suffix :: "load_data \<Rightarrow> nat \<Rightarrow> nat \<Rightarrow> string" where
  "unique_suffix data vu iter = nat_str (load_started_at data) @ ''-'' @ nat_str vu @ ''-'' @ nat_str iter"

definition load_body :: "env \<Rightarrow> load_data \<Rightarrow> nat \<Rightarrow> nat \<Rightarrow> (string \<times> json) list" where
  "load_body env data vu iter =
     (let unique = unique_suffix data vu iter
      in [(''agentFromId'', JStr (''did:prom:k6-caller-'' @ nat_str (vu mod 25))),
          (''agentToId'', JStr (load_agent_to env)),
          (''sessionId'', JStr (''k6-session-'' @ unique)),
          (''requestPayload'', JObj [(''prompt'', JStr (''load test '' @ unique)), (''maxTokens'', JNum ''64'')]),
          (''requestHash'', JStr (pseudo_hash (vu * 100003 + iter))),
          (''maxBudget'', JNum ''1''),
          (''nonce'', JStr (''k6-nonce-'' @ unique)),
          (''signature'', JStr ''0xk6'')])"

definition load_a2a_request :: "env \<Rightarrow> load_data \<Rightarrow> nat \<Rightarrow> nat \<Rightarrow> k6_request" where
  "load_a2a_request env data vu iter =
     \<lparr>k6_method = ''POST'', k6_url = load_base_url env @ ''/a2a/request'', k6_headers = load_headers env vu iter [],
      k6_endpoint_tag = Some ''POST /a2a/request'', k6_body = Some (stringify (JObj (load_body env data vu iter)))\<rparr>"

text \<open>\<open>Boolean(receipt && receipt.signature && receipt.nonce)\<close>.\<close>

definition receipt_is_signed :: "json option \<Rightarrow> exn + bool" where
  "receipt_is_signed receipt =
     (case receipt of
        None \<Rightarrow> Inr False
      | Some v \<Rightarrow>
          if json_truthy v
          then attempt (read_member v ''signature'') (\<lambda>s. attempt (read_member v ''nonce'') (\<lambda>n.
                 Inr (case_option False json_truthy s \<and> case_option False json_truthy n)))
          else Inr False)"

definition a2a_checks :: "k6_response \<Rightarrow> bool \<Rightarrow> bool \<Rightarrow> (string \<times> (exn + bool)) list" where
  "a2a_checks r accepted has_receipt =
     [(''a2a: completed'', if accepted then attempt (selected r ''status'') (\<lambda>s. Inr (s = Some (JStr ''completed''))) else Inr False),
      (''a2a: receipt is signed'', Inr has_receipt),
      (''a2a: echoes the request id'', Inr (given (k6_response_header r ''X-Request-Id'') \<noteq> None))]"

definition a2a_iteration :: "env \<Rightarrow> 's k6_runner \<Rightarrow> nat \<Rightarrow> nat \<Rightarrow> load_data \<Rightarrow> ('s k6_world, unit) io" where
  "a2a_iteration env k vu iter data =
     io_bind (io_bind (send k (load_a2a_request env data vu iter)) track) (\<lambda>res.
     (let accepted = (k6_status res = 201)
      in io_bind (emit (Accepted_Sample accepted)) (\<lambda>_.
         io_bind (check k [(''a2a: status 201'', Inr accepted)]) (\<lambda>_.
         io_bind (lift_result (if accepted then selected res ''receipt'' else Inr None)) (\<lambda>receipt.
         io_bind (lift_result (receipt_is_signed receipt)) (\<lambda>has_receipt.
         io_bind (emit (Signed_Sample has_receipt)) (\<lambda>_.
         io_bind (check k (a2a_checks res accepted has_receipt)) (\<lambda>_. io_return ()))))))))"

section \<open>Lemmas\<close>

lemma nat_str_inj: "nat_str m = nat_str n \<longleftrightarrow> m = n"
  by (metis digits_val_nat_str)

lemma nat_str_no_dash: "CHR ''-'' \<notin> set (nat_str n)"
  using nat_str_digits [of n] is_digit_not by (auto simp: list_all_iff)

lemma dash_prefix_inj:
  "CHR ''-'' \<notin> set a \<Longrightarrow> CHR ''-'' \<notin> set b \<Longrightarrow> a @ CHR ''-'' # s = b @ CHR ''-'' # t \<longleftrightarrow> a = b \<and> s = t"
proof
  assume "CHR ''-'' \<notin> set a" "CHR ''-'' \<notin> set b" and eq: "a @ CHR ''-'' # s = b @ CHR ''-'' # t"
  then have "a = b" using js_index_of_append by (metis append_eq_append_conv option.inject)
  with eq show "a = b \<and> s = t" by simp
qed simp

lemma unique_suffix_inj: "unique_suffix d v i = unique_suffix d v' i' \<longleftrightarrow> v = v' \<and> i = i'"
  by (auto simp: unique_suffix_def dash_prefix_inj nat_str_no_dash nat_str_inj)

text \<open>Characters no rule of the sanitising pipe looks for.\<close>

definition plain_char :: "char \<Rightarrow> bool" where
  "plain_char c \<longleftrightarrow> c \<notin> {CHR ''<'', CHR ''&'', CHR ''=''} \<and> char_lower c \<noteq> CHR ''j''"

lemma clean_plain:
  "list_all plain_char s \<Longrightarrow> s = [] \<or> \<not> is_space (hd s) \<and> \<not> is_space (last s) \<Longrightarrow> clean_text s"
  by (rule clean_text_plain) (auto simp: plain_char_def list_all_iff)

lemma is_hex_plain: "is_hex c \<Longrightarrow> plain_char c \<and> \<not> is_space c"
proof -
  assume h: "is_hex c"
  have "\<not> is_hex CHR ''j''" by code_simp
  with is_hex_char_lower [OF h] have "char_lower c \<noteq> CHR ''j''" by auto
  with h show ?thesis by (auto simp: plain_char_def is_hex_def is_digit_def is_space_def char_in_def)
qed

lemma is_digit_plain: "is_digit c \<Longrightarrow> plain_char c \<and> \<not> is_space c"
  by (rule is_hex_plain) (simp add: is_hex_def)

lemma dash_plain: "plain_char CHR ''-'' \<and> \<not> is_space CHR ''-''"
  by code_simp

lemma clean_with_numbers:
  assumes "list_all plain_char s" and "s \<noteq> []" and "\<not> is_space (hd s)"
    and t: "list_all (\<lambda>c. is_digit c \<or> c = CHR ''-'') t" and "t \<noteq> []"
  shows "clean_text (s @ t)"
proof (rule clean_plain)
  have "plain_char c \<and> \<not> is_space c" if "c \<in> set t" for c
    using that t is_digit_plain dash_plain by (auto simp: list_all_iff)
  then show "list_all plain_char (s @ t)" and "s @ t = [] \<or> \<not> is_space (hd (s @ t)) \<and> \<not> is_space (last (s @ t))"
    using assms by (auto simp: list_all_iff)
qed

lemma unique_suffix_chars: "list_all (\<lambda>c. is_digit c \<or> c = CHR ''-'') (unique_suffix d v i) \<and> unique_suffix d v i \<noteq> []"
  using nat_str_digits by (auto simp: unique_suffix_def list_all_iff)

lemma load_body_text:
  "map_of (load_body env d v i) ''agentFromId'' = Some (JStr (''did:prom:k6-caller-'' @ nat_str (v mod 25)))"
  "map_of (load_body env d v i) ''agentToId'' = Some (JStr (load_agent_to env))"
  "map_of (load_body env d v i) ''sessionId'' = Some (JStr (''k6-session-'' @ unique_suffix d v i))"
  "map_of (load_body env d v i) ''requestPayload'' =
     Some (JObj [(''prompt'', JStr (''load test '' @ unique_suffix d v i)), (''maxTokens'', JNum ''64'')])"
  "map_of (load_body env d v i) ''requestHash'' = Some (JStr (pseudo_hash (v * 100003 + i)))"
  "map_of (load_body env d v i) ''maxBudget'' = Some (JNum ''1'')"
  "map_of (load_body env d v i) ''policyDigest'' = None"
  "map_of (load_body env d v i) ''nonce'' = Some (JStr (''k6-nonce-'' @ unique_suffix d v i))"
  "map_of (load_body env d v i) ''signature'' = Some (JStr ''0xk6'')"
  by (simp_all add: load_body_def Let_def)

lemma load_body_clean:
  assumes "clean_text (load_agent_to env)"
  shows "clean_json (JObj (load_body env d v i))"
proof -
  have dashes: "list_all (\<lambda>c. is_digit c \<or> c = CHR ''-'') (nat_str n) \<and> nat_str n \<noteq> []" for n
    using nat_str_digits [of n] by (auto simp: list_all_iff)
  have "list_all plain_char ''did:prom:k6-caller-''" "list_all plain_char ''k6-session-''" "list_all plain_char ''load test ''"
    "list_all plain_char ''k6-nonce-''" and spaces: "\<not> is_space CHR ''d''" "\<not> is_space CHR ''k''" "\<not> is_space CHR ''l''"
    and sig: "clean_text ''0xk6''"
    by code_simp+
  then have "clean_text (''did:prom:k6-caller-'' @ nat_str (v mod 25))" "clean_text (''k6-session-'' @ unique_suffix d v i)"
    "clean_text (''load test '' @ unique_suffix d v i)" "clean_text (''k6-nonce-'' @ unique_suffix d v i)"
    using dashes unique_suffix_chars by (auto intro!: clean_with_numbers simp del: append.simps)
  moreover have "clean_text (pseudo_hash n)" for n
  proof (rule clean_plain)
    have "is_hex CHR ''0''" and x: "plain_char CHR ''x'' \<and> \<not> is_space CHR ''x''" by code_simp+
    have chars: "plain_char c \<and> \<not> is_space c" if "c \<in> set (pseudo_hash n)" for c
      using that state_text_is_hex is_hex_plain x \<open>is_hex CHR ''0''\<close> by (auto simp: pseudo_hash_rounds list_all_iff)
    then show "list_all plain_char (pseudo_hash n)" by (auto simp: list_all_iff)
    have "pseudo_hash n \<noteq> []" by (simp add: pseudo_hash_def)
    then show "pseudo_hash n = [] \<or> \<not> is_space (hd (pseudo_hash n)) \<and> \<not> is_space (last (pseudo_hash n))"
      using chars by simp
  qed
  ultimately show ?thesis using assms sig by (simp add: load_body_def Let_def)
qed

text \<open>An object whose members keep their order when assigned again, and whose texts are clean, is not changed.\<close>

definition plain_key :: "string \<Rightarrow> bool" where
  "plain_key k \<longleftrightarrow> \<not> is_array_index k \<and> k \<noteq> proto_key"

lemma assign_in_order:
  "distinct (map fst (acc @ ps)) \<Longrightarrow> list_all (\<lambda>p. plain_key (fst p)) ps \<Longrightarrow>
     foldl (\<lambda>acc p. obj_assign (fst p) (snd p) acc) acc ps = acc @ ps"
proof (induction ps arbitrary: acc)
  case (Cons p ps)
  then have "obj_assign (fst p) (snd p) acc = acc @ [p]"
    by (simp add: obj_assign_def own_set_def plain_key_def)
  with Cons show ?case by simp
qed simp

fun plain_json :: "json \<Rightarrow> bool" where
  "plain_json (JStr s) = clean_text s"
| "plain_json (JArr xs) = list_all plain_json xs"
| "plain_json (JObj ps) = (distinct (map fst ps) \<and> list_all (\<lambda>p. plain_key (fst p) \<and> plain_json (snd p)) ps)"
| "plain_json v = True"

lemma sanitize_plain: "plain_json v \<Longrightarrow> sanitize v = v"
proof (induction v)
  case (JStr s)
  then show ?case by (simp add: strip_html_clean)
next
  case (JArr xs)
  then show ?case by (simp add: list_all_iff map_idI)
next
  case (JObj ps)
  have same: "map (\<lambda>p. (fst p, sanitize (snd p))) ps = ps"
  proof (rule map_idI)
    fix p assume p: "p \<in> set ps"
    then have "plain_json (snd p)" using JObj.prems by (simp add: list_all_iff)
    then have "sanitize (snd p) = snd p" by (rule JObj.IH [OF p, rotated]) (simp add: snds.simps)
    then show "(fst p, sanitize (snd p)) = p" by simp
  qed
  show ?case using JObj.prems assign_in_order [of "[]" ps] by (simp add: same list_all_iff)
qed simp_all

lemma load_body_plain:
  assumes "clean_text (load_agent_to env)"
  shows "plain_json (JObj (load_body env d v i))"
proof -
  have keys: "list_all plain_key (a2a_members @ [''prompt'', ''maxTokens''])" by code_simp
  then have "plain_key k" if "k \<in> set (a2a_members @ [''prompt'', ''maxTokens''])" for k
    using that unfolding list_all_iff by blast
  then show ?thesis
    using load_body_clean [OF assms, of d v i] by (simp add: load_body_def Let_def a2a_members_def)
qed

lemma caller_is_did: "is_did (JStr (''did:prom:k6-caller-'' @ nat_str n))"
proof -
  have d: "list_all did_id_char (nat_str n)"
    using nat_str_digits [of n] by (auto simp: list_all_iff did_id_char_def)
  have "list_all did_method_char ''prom''" "list_all did_id_char ''k6-caller-''" by code_simp+
  with d have "rx_match did_pattern (''did:'' @ ''prom'' @ '':'' @ (''k6-caller-'' @ nat_str n))"
    using nat_str_digits [of n] unfolding did_pattern_iff
    by (intro exI [of _ "''prom''"] exI [of _ "''k6-caller-'' @ nat_str n"]) simp
  then show ?thesis by (simp add: is_did_def string_matching_def)
qed

lemma load_body_valid:
  assumes "is_did (JStr (load_agent_to env))"
  shows "a2a_body_valid (load_body env d v i)"
proof -
  have "list_all (\<lambda>p. fst p \<in> set a2a_members) (load_body env d v i)"
    by (simp add: load_body_def a2a_members_def Let_def)
  with assms caller_is_did pseudo_hash_valid show ?thesis
    by (simp add: a2a_body_valid_def required_member_def skippable_member_def load_body_text is_string_def is_not_empty_def
        is_number_at_least_zero_def del: append.simps)
qed

text \<open>The request the handler is called with.\<close>

definition load_dto :: "env \<Rightarrow> load_data \<Rightarrow> nat \<Rightarrow> nat \<Rightarrow> a2a_request" where
  "load_dto env d v i =
     \<lparr>agent_from_id = ''did:prom:k6-caller-'' @ nat_str (v mod 25), agent_to_id = load_agent_to env,
      session_id = ''k6-session-'' @ unique_suffix d v i,
      request_payload = JObj [(''prompt'', JStr (''load test '' @ unique_suffix d v i)), (''maxTokens'', JNum ''64'')],
      max_budget = ''1'', policy_digest = None, nonce = Some (''k6-nonce-'' @ unique_suffix d v i),
      claimed_hash = pseudo_hash (v * 100003 + i), request_signature = ''0xk6''\<rparr>"

lemma load_body_reads: "read_a2a (load_body env d v i) = Some (load_dto env d v i)"
  by (simp add: read_a2a_def text_of_def load_body_text load_dto_def del: append.simps)

text \<open>Calls whose keys differ are never rejected, whatever the clock does.\<close>

lemma fresh_run_distinct:
  "jsmap_wf s \<Longrightarrow> distinct (map call_key cs) \<Longrightarrow> (\<forall>c \<in> set cs. jsmap_get s (call_key c) = None) \<Longrightarrow>
     list_all (\<lambda>r. r = Inr ()) (fst (fresh_run w cs s))"
proof (induction cs arbitrary: s)
  case (Cons c cs)
  let ?e = "evict_expired w (evicted_at c) s"
  have gone: "jsmap_get ?e (call_key x) = None" if "x \<in> set (c # cs)" for x
    using Cons.prems(1,3) that by (auto simp: nonces.lookup_evict)
  then have step: "assert_fresh w (evicted_at c) (seen_at c) (call_agent c) (call_nonce c) s =
      (Inr (), jsmap_set (call_key c) (seen_at c) ?e)"
    by (simp add: assert_fresh_def Let_def jsmap_has_def call_key_def)
  have "call_key x \<noteq> call_key c" if "x \<in> set cs" for x using Cons.prems(2) that by (force simp: image_iff)
  then have "list_all (\<lambda>r. r = Inr ()) (fst (fresh_run w cs (jsmap_set (call_key c) (seen_at c) ?e)))"
    by (intro Cons.IH) (use Cons.prems gone nonces.inv_evict in \<open>simp_all add: jsmap_get_set\<close>)
  then show ?case by (simp add: step case_prod_beta)
qed simp

section \<open>Properties\<close>

text \<open>The call of the nonce store an iteration's request makes, with its two clock readings.\<close>

definition load_call :: "env \<Rightarrow> load_data \<Rightarrow> (nat \<times> nat) \<times> int \<times> int \<Rightarrow> fresh_call" where
  "load_call env d x =
     (let dto = load_dto env d (fst (fst x)) (snd (fst x))
      in \<lparr>evicted_at = fst (snd x), seen_at = snd (snd x), call_agent = agent_from_id dto, call_nonce = the (nonce dto)\<rparr>)"

lemma load_call_key_inj:
  "call_key (load_call env d x) = call_key (load_call env d y) \<Longrightarrow> fst x = fst y"
  using caller_is_did by (simp add: call_key_def load_call_def load_dto_def nonce_key_scoped unique_suffix_inj prod_eq_iff del: append.simps)



definition demo_runner :: "unit k6_runner" where
  "demo_runner =
     \<lparr>answer = (\<lambda>q s. (\<lparr>k6_status = 201,
          k6_json = Inr (JObj [(''status'', JStr ''completed''), (''receipt'', JObj [(''signature'', JStr ''0x1''), (''nonce'', JStr [])])]),
          k6_response_header = Map.empty\<rparr>, s)),
      check_verdict = (\<lambda>cs. Inr (list_all (\<lambda>c. snd c = Inr True) cs))\<rparr>"

lemma ids_of_length: "ids_of ss = Inr is' \<Longrightarrow> length is' = length ss"
  by (induction ss arbitrary: is') (auto simp: attempt_Inr_iff)


lemma listed_ids_length: "listed_ids r = Inr ids \<Longrightarrow> length ids \<le> 50"
proof -
  assume "listed_ids r = Inr ids"
  then obtain listing where "(case listing of JArr xs \<Rightarrow> ids_of (take 50 xs) | _ \<Rightarrow> Inr []) = Inr ids"
    by (auto simp: listed_ids_def attempt_Inr_iff)
  then show ?thesis by (cases listing) (auto dest!: ids_of_length)
qed

lemma send_Inr_iff:
  "send k q w = (Inr r, w') \<longleftrightarrow> (\<exists>s. answer k q (service_state w) = (r, s) \<and>
     w' = w\<lparr>service_state := s, events := events w @ [Sent q]\<rparr>)"
  by (auto simp: send_def split: prod.splits)

text \<open>
  A run starts only against a healthy service and with a credential: when setup returns, the health
  probe was answered with 200 and a key or a token is set, at most fifty ids are handed on, and
  exactly two requests were sent.
\<close>

theorem load_setup_guards:
  assumes "load_setup env k vu iter now w = (Inr d, w')"
  shows "(\<exists>q r s. answer k q (service_state w) = (r, s) \<and> k6_url q = load_base_url env @ ''/health'' \<and> k6_status r = 200) \<and>
    (given (env ''API_KEY'') \<noteq> None \<or> given (env ''AUTH_TOKEN'') \<noteq> None) \<and>
    length (service_ids d) \<le> 50 \<and> load_started_at d = now \<and> length (events w') = length (events w) + 2"
proof -
  let ?health = "\<lparr>k6_method = ''GET'', k6_url = load_base_url env @ ''/health'', k6_headers = [], k6_endpoint_tag = None, k6_body = None\<rparr>"
  obtain r w1 q services w2 where health: "send k ?health w = (Inr r, w1)" and status: "k6_status r = 200"
    and credential: "given (env ''API_KEY'') \<noteq> None \<or> given (env ''AUTH_TOKEN'') \<noteq> None"
    and listing: "send k q w1 = (Inr services, w2)" "listed_ids services = Inr (service_ids d)" "load_started_at d = now" "w' = w2"
    using assms by (auto simp: load_setup_def lift_result_def simp del: not_None_eq given_Some elim!: io_bind_InrE split: if_splits)
  obtain s where "answer k ?health (service_state w) = (r, s)" "length (events w1) = length (events w) + 1"
    using health by (auto simp: send_Inr_iff)
  moreover have "length (events w2) = length (events w1) + 1" using listing(1) by (auto simp: send_Inr_iff)
  ultimately show ?thesis using status credential listed_ids_length [OF listing(2)] listing(3,4)
    by (intro conjI exI [of _ ?health] exI [of _ r] exI [of _ s]) simp_all
qed

theorem load_setup_guards_witness:
  "length (events (snd (load_setup (\<lambda>n. if n = ''API_KEY'' then Some ''k'' else None)
     (demo_runner\<lparr>answer := (\<lambda>q s. (\<lparr>k6_status = 200, k6_json = Inr JNull, k6_response_header = Map.empty\<rparr>, s))\<rparr>)
     0 0 7 \<lparr>service_state = (), events = []\<rparr>))) = 2"
proof -
  let ?k = "demo_runner\<lparr>answer := (\<lambda>q s. (\<lparr>k6_status = 200, k6_json = Inr JNull, k6_response_header = Map.empty\<rparr>, s))\<rparr>"
  let ?env = "\<lambda>n. if n = ''API_KEY'' then Some ''k'' else None"
  have "fst (load_setup ?env ?k 0 0 7 \<lparr>service_state = (), events = []\<rparr>) = Inr \<lparr>service_ids = [], load_started_at = 7\<rparr>"
    by (simp add: load_setup_def io_bind_def send_def lift_result_def given_def listed_ids_def attempt_def)
  then obtain w' where "load_setup ?env ?k 0 0 7 \<lparr>service_state = (), events = []\<rparr> =
      (Inr \<lparr>service_ids = [], load_started_at = 7\<rparr>, w')"
    by (metis prod.collapse)
  from load_setup_guards [OF this] this show ?thesis by simp
qed

text \<open>The listing the catalog flow asks for passes the validation of the catalog's query.\<close>

theorem load_listing_valid:
  "list_services_valid is_uuid
     \<lparr>list_agent_id = None, list_q = Some (search_terms ! (n mod length search_terms)), list_include = Some ''tariffs'',
      list_page = None, list_limit = Some 50\<rparr> \<and>
   encode_uri_component (search_terms ! (n mod length search_terms)) = search_terms ! (n mod length search_terms)"
proof -
  have "list_all (\<lambda>t. length t \<le> 100 \<and> encode_uri_component t = t) search_terms" by code_simp
  moreover have "search_terms ! (n mod length search_terms) \<in> set search_terms"
    by (rule nth_mem) (simp add: search_terms_def)
  ultimately show ?thesis by (simp add: list_services_valid_def max_catalog_page_size_def list_all_iff)
qed

text \<open>
  What an iteration of the protocol flow counts is what happened. It sends one request. If the
  answer's status is not 201 it records a sample that is not accepted and one that is not signed, and
  every condition on the receipt as failed; with status 201 and a JSON object it records an accepted
  sample, and a signed one exactly if the answer's receipt is an object with a signature and a nonce
  that are true in a condition. An answer 429 is counted as throttled in addition. The counting ends
  without an exception in these cases.
\<close>

theorem iteration_counts_outcome:
  assumes "check_documented k" and res: "answer k (load_a2a_request env d v i) (service_state w) = (r, s)"
    and json: "k6_status r = 201 \<Longrightarrow> k6_json r = Inr (JObj ps) \<and> map_of ps ''receipt'' = Some (JObj qs)"
  shows "a2a_iteration env k v i d w =
    (let accepted = (k6_status r = 201);
         has_receipt = (accepted \<and> case_option False json_truthy (map_of qs ''signature'') \<and>
           case_option False json_truthy (map_of qs ''nonce''))
     in (Inr (), w\<lparr>service_state := s, events := events w @ [Sent (load_a2a_request env d v i)] @
          (if k6_status r = 429 then [Throttled] else []) @
          [Accepted_Sample accepted, Checked [(''a2a: status 201'', Inr accepted)], Signed_Sample has_receipt,
           Checked
             [(''a2a: completed'', Inr (accepted \<and> map_of ps ''status'' = Some (JStr ''completed''))),
              (''a2a: receipt is signed'', Inr has_receipt),
              (''a2a: echoes the request id'', Inr (given (k6_response_header r ''X-Request-Id'') \<noteq> None))]]\<rparr>))"
proof -
  have one: "check_verdict k [(n, Inr b)] = Inr b" for n b
    using assms(1) [unfolded check_documented_def, rule_format, of "[(n, b)]"] by simp
  have three: "check_verdict k [(n1, Inr b1), (n2, Inr b2), (n3, Inr b3)] = Inr (b1 \<and> b2 \<and> b3)" for n1 b1 n2 b2 n3 b3
    using assms(1) [unfolded check_documented_def, rule_format, of "[(n1, b1), (n2, b2), (n3, b3)]"] by simp
  show ?thesis
    using res json
    by (cases "k6_status r = 201"; cases "k6_status r = 429")
      (auto simp: a2a_iteration_def io_bind_def send_def track_def emit_def check_def lift_result_def selected_def
        attempt_def receipt_is_signed_def read_member_def a2a_checks_def one three Let_def simp del: not_None_eq given_Some)
qed

theorem iteration_counts_outcome_witness:
  "let w' = snd (a2a_iteration Map.empty demo_runner 1 0 \<lparr>service_ids = [], load_started_at = 7\<rparr> \<lparr>service_state = (), events = []\<rparr>)
   in Accepted_Sample True \<in> set (events w') \<and> Signed_Sample False \<in> set (events w')"
proof -
  have documented: "check_documented demo_runner"
    by (auto simp: check_documented_def demo_runner_def list_all_iff split: prod.split)
  let ?r = "\<lparr>k6_status = 201, k6_json = Inr (JObj [(''status'', JStr ''completed''),
      (''receipt'', JObj [(''signature'', JStr ''0x1''), (''nonce'', JStr [])])]), k6_response_header = Map.empty\<rparr>"
  have "answer demo_runner (load_a2a_request Map.empty \<lparr>service_ids = [], load_started_at = 7\<rparr> 1 0)
      (service_state \<lparr>service_state = (), events = []\<rparr>) = (?r, ())"
    by (simp add: demo_runner_def)
  from iteration_counts_outcome [OF documented this] show ?thesis by (simp add: Let_def)
qed

text \<open>
  The condition on the target agent is needed: there are DIDs the cleaning pipe destroys. A DID of the
  method \<open>javascript\<close> passes the validator, the pipe takes its beginning for a script scheme, and
  what is left is no DID, so a request to or from such an agent is always refused.
\<close>

lemma cleaning_breaks_did:
  "is_did (JStr ''did:javascript:x'') \<and> sanitize (JStr ''did:javascript:x'') = JStr ''did:x'' \<and> \<not> is_did (JStr ''did:x'')"
  by code_simp

end
