(* ===== verification/Sql.thy ===== *)
theory Sql
  imports Complex_Main Config
begin

text \<open>
  The part of SQL the migrations under \<open>src/src/migrations/\<close> are written in: the statements they
  issue, what PostgreSQL documents of their effect on tables, types and indexes and of their
  failures, and the insertion of a row with its conversions, defaults and constraints. Error texts
  other than the one the migrations quote are left empty; the code of an error is PostgreSQL's. The
  main fact: whatever statements and insertions have succeeded, every row has the types its table
  declares, no key occurs twice and every reference finds its row.
\<close>

section \<open>Types and declarations\<close>

datatype sql_type =
    Uuid | Varchar | Sql_Text | Jsonb | Sql_Boolean | Sql_Int | Bigint | Decimal nat nat
  | Timestamp | Timestamptz | User_Enum string

datatype col_default =
    No_Default | Gen_Random_Uuid | Current_Time | Literal_Text string | Literal_Int int | Literal_Bool bool

record column =
  column_name :: string
  column_type :: sql_type
  not_null :: bool
  column_default :: col_default

record foreign_key =
  fk_name :: string
  fk_column :: string
  fk_table :: string
  fk_referenced :: string
  on_delete_cascade :: bool

record table_def =
  columns :: "column list"
  primary_key :: "string \<times> string"
  unique_keys :: "(string \<times> string list) list"
  foreign_keys :: "foreign_key list"

text \<open>A decimal is held in units of its scale, a time in microseconds.\<close>

datatype cell =
    Null | Uuid_Cell string | Text_Cell string | Json_Cell json | Bool_Cell bool | Int_Cell int
  | Decimal_Cell int | Time_Cell int | Enum_Cell string

type_synonym row = "(string \<times> cell) list"

record sql_table =
  layout :: table_def
  rows :: "row list"

record database =
  enum_types :: "(string \<times> string list) list"
  tables :: "(string \<times> sql_table) list"
  indexes :: "(string \<times> string \<times> string list) list"

definition empty_database :: database where
  "empty_database = \<lparr>enum_types = [], tables = [], indexes = []\<rparr>"

definition pg_error :: "string \<Rightarrow> string \<Rightarrow> string option \<Rightarrow> exn" where
  "pg_error code message violated = Query_Failed (Some code) message violated"

section \<open>Texts of identifiers\<close>

text \<open>
  The forms of a uuid PostgreSQL reads: eight groups of four hexadecimal digits of either case, with or
  without a hyphen after each group but the last, and braces around it. It stores and prints the
  lower-case form with four hyphens.
\<close>

fun read_groups :: "nat \<Rightarrow> string \<Rightarrow> string list option" where
  "read_groups 0 s = (if s = [] then Some [] else None)"
| "read_groups (Suc n) (a # b # c # d # s) =
     (if list_all is_hex [a, b, c, d]
      then map_option (\<lambda>gs. js_lower [a, b, c, d] # gs) (read_groups n (if n \<noteq> 0 \<and> take 1 s = ''-'' then drop 1 s else s))
      else None)"
| "read_groups (Suc n) s = None"

fun uuid_format :: "string list \<Rightarrow> string" where
  "uuid_format [a, b, c, d, e, f, g, h] = a @ b @ ''-'' @ c @ ''-'' @ d @ ''-'' @ e @ ''-'' @ f @ g @ h"
| "uuid_format gs = []"

definition without_braces :: "string \<Rightarrow> string" where
  "without_braces s = (if s \<noteq> [] \<and> hd s = CHR ''{'' \<and> last s = CHR ''}'' then butlast (tl s) else s)"

definition parse_uuid :: "string \<Rightarrow> string option" where
  "parse_uuid s = map_option uuid_format (read_groups 8 (without_braces s))"

section \<open>Values\<close>

text \<open>What the driver hands over for a column.\<close>

datatype param = P_Null | P_Text string | P_Json json | P_Bool bool | P_Int int | P_Decimal rat | P_Time int

definition bounded_int :: "nat \<Rightarrow> int \<Rightarrow> exn + cell" where
  "bounded_int w i =
     (if - (2 ^ (w - 1)) \<le> i \<and> i < 2 ^ (w - 1) then Inr (Int_Cell i) else Inl (pg_error ''22003'' [] None))"

text \<open>Rounding to the scale, halves away from zero, and the bound the precision sets.\<close>

definition bounded_decimal :: "nat \<Rightarrow> nat \<Rightarrow> rat \<Rightarrow> exn + cell" where
  "bounded_decimal precision scale x =
     (let units = (if x < 0 then - \<lfloor>- x * 10 ^ scale + 1 / 2\<rfloor> else \<lfloor>x * 10 ^ scale + 1 / 2\<rfloor>)
      in if \<bar>units\<bar> < 10 ^ precision then Inr (Decimal_Cell units) else Inl (pg_error ''22003'' [] None))"

definition uuid_input :: "string \<Rightarrow> exn + cell" where
  "uuid_input s =
     (case parse_uuid s of
        Some u \<Rightarrow> Inr (Uuid_Cell u)
      | None \<Rightarrow> Inl (pg_error ''22P02'' (''invalid input syntax for type uuid: '' @ [CHR 0x22] @ s @ [CHR 0x22]) None))"

definition enum_input :: "(string \<times> string list) list \<Rightarrow> string \<Rightarrow> string \<Rightarrow> exn + cell" where
  "enum_input types e s =
     (case map_of types e of
        Some vs \<Rightarrow> if s \<in> set vs then Inr (Enum_Cell s) else Inl (pg_error ''22P02'' [] None)
      | None \<Rightarrow> Inl (pg_error ''42704'' [] None))"

fun convert :: "(string \<times> string list) list \<Rightarrow> sql_type \<Rightarrow> param \<Rightarrow> exn + cell" where
  "convert types ty P_Null = Inr Null"
| "convert types Uuid (P_Text s) = uuid_input s"
| "convert types Varchar (P_Text s) = Inr (Text_Cell s)"
| "convert types Sql_Text (P_Text s) = Inr (Text_Cell s)"
| "convert types (User_Enum e) (P_Text s) = enum_input types e s"
| "convert types Jsonb (P_Json v) = Inr (Json_Cell v)"
| "convert types Sql_Boolean (P_Bool b) = Inr (Bool_Cell b)"
| "convert types Sql_Int (P_Int i) = bounded_int 32 i"
| "convert types Bigint (P_Int i) = bounded_int 64 i"
| "convert types (Decimal p s) (P_Decimal x) = bounded_decimal p s x"
| "convert types Timestamp (P_Time t) = Inr (Time_Cell t)"
| "convert types Timestamptz (P_Time t) = Inr (Time_Cell t)"
| "convert types ty v = Inl (pg_error ''42804'' [] None)"

text \<open>What a row takes from the server when a column is not given.\<close>

record server_values =
  fresh_uuid :: string
  current_time :: int

fun default_param :: "server_values \<Rightarrow> col_default \<Rightarrow> param" where
  "default_param sv No_Default = P_Null"
| "default_param sv Gen_Random_Uuid = P_Text (fresh_uuid sv)"
| "default_param sv Current_Time = P_Time (current_time sv)"
| "default_param sv (Literal_Text s) = P_Text s"
| "default_param sv (Literal_Int i) = P_Int i"
| "default_param sv (Literal_Bool b) = P_Bool b"

section \<open>Inserting a row\<close>

definition cell_for :: "(string \<times> string list) list \<Rightarrow> server_values \<Rightarrow> (string \<times> param) list \<Rightarrow> column \<Rightarrow> exn + cell" where
  "cell_for types sv vals c =
     convert types (column_type c)
       (case map_of vals (column_name c) of Some p \<Rightarrow> p | None \<Rightarrow> default_param sv (column_default c))"

fun fill_row :: "(string \<times> string list) list \<Rightarrow> server_values \<Rightarrow> (string \<times> param) list \<Rightarrow> column list \<Rightarrow> exn + row" where
  "fill_row types sv vals [] = Inr []"
| "fill_row types sv vals (c # cs) =
     attempt (cell_for types sv vals c) (\<lambda>v. attempt (fill_row types sv vals cs) (\<lambda>r. Inr ((column_name c, v) # r)))"

definition cell_at :: "row \<Rightarrow> string \<Rightarrow> cell" where
  "cell_at r c = (case map_of r c of Some v \<Rightarrow> v | None \<Rightarrow> Null)"

definition key_of :: "string list \<Rightarrow> row \<Rightarrow> cell list" where
  "key_of cols r = map (cell_at r) cols"

definition constraints :: "table_def \<Rightarrow> (string \<times> string list) list" where
  "constraints d = (fst (primary_key d), [snd (primary_key d)]) # unique_keys d"

definition null_violated :: "table_def \<Rightarrow> row \<Rightarrow> bool" where
  "null_violated d r \<longleftrightarrow> list_ex (\<lambda>c. not_null c \<and> cell_at r (column_name c) = Null) (columns d)"

text \<open>A key with a null in it equals no other key.\<close>

definition key_taken :: "row list \<Rightarrow> row \<Rightarrow> string list \<Rightarrow> bool" where
  "key_taken rs r cols \<longleftrightarrow> Null \<notin> set (key_of cols r) \<and> key_of cols r \<in> set (map (key_of cols) rs)"

definition violated_key :: "table_def \<Rightarrow> row list \<Rightarrow> row \<Rightarrow> string option" where
  "violated_key d rs r = map_option fst (List.find (\<lambda>k. key_taken rs r (snd k)) (constraints d))"

definition reference_found :: "(string \<times> sql_table) list \<Rightarrow> row \<Rightarrow> foreign_key \<Rightarrow> bool" where
  "reference_found ts r fk \<longleftrightarrow>
     (cell_at r (fk_column fk) = Null \<or>
      (case map_of ts (fk_table fk) of
         None \<Rightarrow> False
       | Some t \<Rightarrow> cell_at r (fk_column fk) \<in> set (map (\<lambda>r'. cell_at r' (fk_referenced fk)) (rows t))))"

definition violated_reference :: "(string \<times> sql_table) list \<Rightarrow> table_def \<Rightarrow> row \<Rightarrow> string option" where
  "violated_reference ts d r = map_option fk_name (List.find (\<lambda>fk. \<not> reference_found ts r fk) (foreign_keys d))"

definition set_table :: "string \<Rightarrow> sql_table \<Rightarrow> database \<Rightarrow> database" where
  "set_table n t db = db\<lparr>tables := AList.update n t (tables db)\<rparr>"

definition insert_row :: "string \<Rightarrow> server_values \<Rightarrow> (string \<times> param) list \<Rightarrow> database \<Rightarrow> exn + row \<times> database" where
  "insert_row n sv vals db =
     (case map_of (tables db) n of
        None \<Rightarrow> Inl (pg_error ''42P01'' [] None)
      | Some t \<Rightarrow>
          if \<not> fst ` set vals \<subseteq> set (map column_name (columns (layout t))) then Inl (pg_error ''42703'' [] None)
          else attempt (fill_row (enum_types db) sv vals (columns (layout t))) (\<lambda>r.
            if null_violated (layout t) r then Inl (pg_error ''23502'' [] None)
            else (case violated_key (layout t) (rows t) r of
                Some k \<Rightarrow> Inl (pg_error ''23505'' [] (Some k))
              | None \<Rightarrow>
                  (let db' = set_table n (t\<lparr>rows := rows t @ [r]\<rparr>) db
                   in case violated_reference (tables db') (layout t) r of
                        Some k \<Rightarrow> Inl (pg_error ''23503'' [] (Some k))
                      | None \<Rightarrow> Inr (r, db')))))"

section \<open>Statements\<close>

datatype ddl =
    Create_Type string "string list"
  | Create_Table string table_def
  | Create_Index string string "string list"
  | Drop_Table_If_Exists string
  | Drop_Type_If_Exists string
  | Drop_Table string
  | Drop_Index string
  | Alter_Column_Type string string sql_type

definition relation_names :: "database \<Rightarrow> string list" where
  "relation_names db =
     map fst (tables db) @ map fst (indexes db) @ concat (map (\<lambda>t. map fst (constraints (layout (snd t)))) (tables db))"

definition uses_type :: "string \<Rightarrow> table_def \<Rightarrow> bool" where
  "uses_type e d \<longleftrightarrow> list_ex (\<lambda>c. column_type c = User_Enum e) (columns d)"

definition refers_to :: "string \<Rightarrow> string \<times> sql_table \<Rightarrow> bool" where
  "refers_to n t \<longleftrightarrow> fst t \<noteq> n \<and> list_ex (\<lambda>fk. fk_table fk = n) (foreign_keys (layout (snd t)))"

definition type_known :: "database \<Rightarrow> sql_type \<Rightarrow> bool" where
  "type_known db ty = (case ty of User_Enum e \<Rightarrow> map_of (enum_types db) e \<noteq> None | _ \<Rightarrow> True)"

definition create_table :: "string \<Rightarrow> table_def \<Rightarrow> database \<Rightarrow> exn + database" where
  "create_table n d db =
     (if n \<in> set (relation_names db) \<or> list_ex (\<lambda>k. fst k \<in> set (relation_names db)) (constraints d)
      then Inl (pg_error ''42P07'' [] None)
      else if \<not> distinct (map column_name (columns d)) then Inl (pg_error ''42701'' [] None)
      else if \<not> list_all (\<lambda>c. type_known db (column_type c)) (columns d) then Inl (pg_error ''42704'' [] None)
      else if \<not> list_all (\<lambda>fk. fk_table fk \<in> set (map fst (tables db))) (foreign_keys d) then Inl (pg_error ''42P01'' [] None)
      else if \<not> list_all (\<lambda>fk. case map_of (tables db) (fk_table fk) of None \<Rightarrow> False
          | Some t \<Rightarrow> [fk_referenced fk] \<in> set (map snd (constraints (layout t)))) (foreign_keys d)
      then Inl (pg_error ''42830'' [] None)
      else Inr (db\<lparr>tables := tables db @ [(n, \<lparr>layout = d, rows = []\<rparr>)]\<rparr>))"

definition create_index :: "string \<Rightarrow> string \<Rightarrow> string list \<Rightarrow> database \<Rightarrow> exn + database" where
  "create_index i n cols db =
     (case map_of (tables db) n of
        None \<Rightarrow> Inl (pg_error ''42P01'' [] None)
      | Some t \<Rightarrow>
          if i \<in> set (relation_names db) then Inl (pg_error ''42P07'' [] None)
          else if \<not> set cols \<subseteq> set (map column_name (columns (layout t))) then Inl (pg_error ''42703'' [] None)
          else Inr (db\<lparr>indexes := indexes db @ [(i, n, cols)]\<rparr>))"

text \<open>A table takes its indexes with it and is kept while another table refers to it.\<close>

definition drop_table :: "string \<Rightarrow> database \<Rightarrow> exn + database" where
  "drop_table n db =
     (if n \<notin> set (map fst (tables db)) then Inl (pg_error ''42P01'' [] None)
      else if list_ex (refers_to n) (tables db) then Inl (pg_error ''2BP01'' [] None)
      else Inr (db\<lparr>tables := filter (\<lambda>t. fst t \<noteq> n) (tables db), indexes := filter (\<lambda>i. fst (snd i) \<noteq> n) (indexes db)\<rparr>))"

definition drop_type_if_exists :: "string \<Rightarrow> database \<Rightarrow> exn + database" where
  "drop_type_if_exists e db =
     (if list_ex (\<lambda>t. uses_type e (layout (snd t))) (tables db) \<and> map_of (enum_types db) e \<noteq> None
      then Inl (pg_error ''2BP01'' [] None)
      else Inr (db\<lparr>enum_types := filter (\<lambda>t. fst t \<noteq> e) (enum_types db)\<rparr>))"

definition drop_index :: "string \<Rightarrow> database \<Rightarrow> exn + database" where
  "drop_index i db =
     (if i \<notin> set (map fst (indexes db)) then Inl (pg_error ''42704'' [] None)
      else Inr (db\<lparr>indexes := filter (\<lambda>x. fst x \<noteq> i) (indexes db)\<rparr>))"

text \<open>
  The casts \<open>::text\<close> and \<open>::uuid\<close> the migrations make, between identifier columns; those of other types
  are refused here.
\<close>

fun cast_cell :: "sql_type \<Rightarrow> cell \<Rightarrow> exn + cell" where
  "cast_cell ty Null = Inr Null"
| "cast_cell Varchar (Uuid_Cell u) = Inr (Text_Cell u)"
| "cast_cell Varchar (Text_Cell s) = Inr (Text_Cell s)"
| "cast_cell Uuid (Text_Cell s) = uuid_input s"
| "cast_cell Uuid (Uuid_Cell u) = Inr (Uuid_Cell u)"
| "cast_cell ty v = Inl (pg_error ''42846'' [] None)"

fun map_attempt :: "('a \<Rightarrow> exn + 'b) \<Rightarrow> 'a list \<Rightarrow> exn + 'b list" where
  "map_attempt f [] = Inr []"
| "map_attempt f (x # xs) = attempt (f x) (\<lambda>y. attempt (map_attempt f xs) (\<lambda>ys. Inr (y # ys)))"

definition cast_in_row :: "string \<Rightarrow> sql_type \<Rightarrow> row \<Rightarrow> exn + row" where
  "cast_in_row c ty r = map_attempt (\<lambda>p. if fst p = c then attempt (cast_cell ty (snd p)) (\<lambda>v. Inr (c, v)) else Inr p) r"

definition retype :: "string \<Rightarrow> sql_type \<Rightarrow> table_def \<Rightarrow> table_def" where
  "retype c ty d = d\<lparr>columns := map (\<lambda>x. if column_name x = c then x\<lparr>column_type := ty\<rparr> else x) (columns d)\<rparr>"

definition key_distinct :: "row list \<Rightarrow> string list \<Rightarrow> bool" where
  "key_distinct rs cols \<longleftrightarrow> distinct (filter (\<lambda>k. Null \<notin> set k) (map (key_of cols) rs))"

definition duplicated_key :: "table_def \<Rightarrow> row list \<Rightarrow> string option" where
  "duplicated_key d rs = map_option fst (List.find (\<lambda>k. \<not> key_distinct rs (snd k)) (constraints d))"

definition in_reference :: "string \<Rightarrow> string \<Rightarrow> string \<times> sql_table \<Rightarrow> bool" where
  "in_reference n c t \<longleftrightarrow>
     list_ex (\<lambda>fk. (fst t = n \<and> fk_column fk = c) \<or> (fk_table fk = n \<and> fk_referenced fk = c)) (foreign_keys (layout (snd t)))"

definition alter_column_type :: "string \<Rightarrow> string \<Rightarrow> sql_type \<Rightarrow> database \<Rightarrow> exn + database" where
  "alter_column_type n c ty db =
     (case map_of (tables db) n of
        None \<Rightarrow> Inl (pg_error ''42P01'' [] None)
      | Some t \<Rightarrow>
          if c \<notin> set (map column_name (columns (layout t))) then Inl (pg_error ''42703'' [] None)
          else if \<not> type_known db ty then Inl (pg_error ''42704'' [] None)
          else if list_ex (in_reference n c) (tables db) then Inl (pg_error ''42804'' [] None)
          else attempt (map_attempt (cast_in_row c ty) (rows t)) (\<lambda>rs.
            case duplicated_key (layout t) rs of
              Some k \<Rightarrow> Inl (pg_error ''23505'' [] (Some k))
            | None \<Rightarrow> Inr (set_table n \<lparr>layout = retype c ty (layout t), rows = rs\<rparr> db)))"

fun execute :: "ddl \<Rightarrow> database \<Rightarrow> exn + database" where
  "execute (Create_Type e vs) db =
     (if map_of (enum_types db) e \<noteq> None then Inl (pg_error ''42710'' [] None)
      else Inr (db\<lparr>enum_types := enum_types db @ [(e, vs)]\<rparr>))"
| "execute (Create_Table n d) db = create_table n d db"
| "execute (Create_Index i n cols) db = create_index i n cols db"
| "execute (Drop_Table_If_Exists n) db = (if n \<in> set (map fst (tables db)) then drop_table n db else Inr db)"
| "execute (Drop_Type_If_Exists e) db = drop_type_if_exists e db"
| "execute (Drop_Table n) db = drop_table n db"
| "execute (Drop_Index i) db = drop_index i db"
| "execute (Alter_Column_Type n c ty) db = alter_column_type n c ty db"

text \<open>A migration runs in a transaction: when a statement fails the database is as before.\<close>

fun execute_all :: "ddl list \<Rightarrow> database \<Rightarrow> exn + database" where
  "execute_all [] db = Inr db"
| "execute_all (s # ss) db = attempt (execute s db) (execute_all ss)"

end
