(* ===== verification/Sql_Invariant.thy ===== *)
theory Sql_Invariant
  imports Sql Validators
begin

text \<open>
  What every database reached by the statements and insertions of \<open>Sql\<close> satisfies: rows have the
  declared types, required columns are not null, keys are distinct, references find their row.
\<close>

section \<open>Reading a uuid back\<close>

lemma char_lower_hex: "is_hex c \<Longrightarrow> is_lower_hex (char_lower c)"
  by (auto simp: is_hex_def is_lower_hex_def is_digit_def char_in_def of_char_char_lower is_upper_def)

lemma char_lower_lower_hex: "is_lower_hex c \<Longrightarrow> char_lower c = c"
  by (rule char_lower_id) (auto simp: is_lower_hex_def is_digit_def is_lower_def char_in_def)

definition hex_group :: "string \<Rightarrow> bool" where
  "hex_group g \<longleftrightarrow> length g = 4 \<and> list_all is_lower_hex g"

lemma read_groups_shape: "read_groups n s = Some gs \<Longrightarrow> length gs = n \<and> list_all hex_group gs"
  by (induction n s arbitrary: gs rule: read_groups.induct)
    (auto simp: hex_group_def js_lower_def char_lower_hex split: if_splits)

lemma hex_group_chars:
  assumes "hex_group g"
  obtains a b c d where "g = [a, b, c, d]" "list_all is_lower_hex [a, b, c, d]"
proof -
  obtain a b c d where "g = [a, b, c, d]"
    using assms by (auto simp: hex_group_def length_Suc_conv numeral_eq_Suc)
  with assms that show thesis by (simp add: hex_group_def)
qed

lemma read_group:
  assumes "hex_group g"
  shows "read_groups (Suc n) (g @ s) =
    map_option ((#) g) (read_groups n (if n \<noteq> 0 \<and> take 1 s = ''-'' then drop 1 s else s))"
  using assms by (rule hex_group_chars) (simp add: js_lower_def char_lower_lower_hex is_lower_hex_is_hex)

lemma read_group_no_dash: "hex_group g \<Longrightarrow> take 1 (g @ s) \<noteq> ''-''"
  by (erule hex_group_chars) (auto simp: is_lower_hex_def is_digit_def char_in_def)

lemma read_groups_step:
  assumes "hex_group g"
  shows "read_groups (Suc 0) g = Some [g]"
    and "hex_group g' \<Longrightarrow> read_groups (Suc (Suc n)) (g @ g' @ s) = map_option ((#) g) (read_groups (Suc n) (g' @ s))"
    and "hex_group g' \<Longrightarrow> read_groups (Suc (Suc n)) (g @ g') = map_option ((#) g) (read_groups (Suc n) g')"
    and "read_groups (Suc (Suc n)) (g @ ''-'' @ s) = map_option ((#) g) (read_groups (Suc n) s)"
  using read_group [OF assms, of 0 "[]"] read_group [OF assms, of "Suc n" "g' @ s"] read_group_no_dash [of g' s]
    read_group [OF assms, of "Suc n" g'] read_group_no_dash [of g' "[]"]
    read_group [OF assms, of "Suc n" "''-'' @ s"]
  by (simp_all del: read_groups.simps(2,3))

lemma length_eight: "length gs = 8 \<Longrightarrow> \<exists>a b c d e f g h. gs = [a, b, c, d, e, f, g, h]"
  by (auto simp: length_Suc_conv numeral_eq_Suc)

lemma parse_uuid_again: "parse_uuid s = Some u \<Longrightarrow> parse_uuid u = Some u"
proof -
  assume "parse_uuid s = Some u"
  then obtain gs where gs: "read_groups 8 (without_braces s) = Some gs" and u: "u = uuid_format gs"
    by (auto simp: parse_uuid_def)
  obtain a b c d e f g h where eight: "gs = [a, b, c, d, e, f, g, h]"
    using length_eight read_groups_shape [OF gs] by blast
  then have hex: "hex_group a" "hex_group b" "hex_group c" "hex_group d" "hex_group e" "hex_group f" "hex_group g" "hex_group h"
    using read_groups_shape [OF gs] by simp_all
  have "\<not> is_lower_hex CHR ''{''" by code_simp
  moreover have "is_lower_hex (hd (a @ t))" for t using hex(1) by (cases a) (auto simp: hex_group_def)
  ultimately have "hd (a @ t) \<noteq> CHR ''{''" for t by metis
  then have braces: "without_braces u = u" by (simp only: u eight uuid_format.simps without_braces_def simp_thms if_False)
  have "read_groups (Suc (Suc (Suc (Suc (Suc (Suc (Suc (Suc 0)))))))) u = Some gs"
    by (simp only: u eight uuid_format.simps read_groups_step hex option.map)
  moreover have "(8::nat) = Suc (Suc (Suc (Suc (Suc (Suc (Suc (Suc 0)))))))" by simp
  ultimately have "read_groups 8 u = Some gs" by (simp only:)
  then show ?thesis unfolding parse_uuid_def braces by (simp only: option.map u)
qed

text \<open>No DID is a uuid, nor is any text with a character that is no hexadecimal digit, hyphen or brace.\<close>

lemma read_groups_chars: "read_groups n s = Some gs \<Longrightarrow> list_all (\<lambda>c. is_hex c \<or> c = CHR ''-'') s"
proof (induction n s arbitrary: gs rule: read_groups.induct)
  case (2 n a b c d s)
  then obtain hs where hex: "list_all is_hex [a, b, c, d]"
    and rest: "read_groups n (if n \<noteq> 0 \<and> take 1 s = ''-'' then drop 1 s else s) = Some hs"
    by (auto split: if_splits)
  have "list_all (\<lambda>c. is_hex c \<or> c = CHR ''-'') (if n \<noteq> 0 \<and> take 1 s = ''-'' then drop 1 s else s)"
    using "2.IH" [OF hex rest] .
  then have "list_all (\<lambda>c. is_hex c \<or> c = CHR ''-'') s"
    by (cases s) (auto split: if_splits)
  with hex show ?case by simp
qed (auto split: if_splits)

lemma parse_uuid_chars:
  assumes "parse_uuid s \<noteq> None" and "c \<in> set s"
  shows "is_hex c \<or> c \<in> {CHR ''-'', CHR ''{'', CHR ''}''}"
proof -
  have "list_all (\<lambda>c. is_hex c \<or> c = CHR ''-'') (without_braces s)"
    using assms(1) read_groups_chars by (auto simp: parse_uuid_def)
  moreover have "set s \<subseteq> set (without_braces s) \<union> {CHR ''{'', CHR ''}''}"
  proof (cases "s \<noteq> [] \<and> hd s = CHR ''{'' \<and> last s = CHR ''}''")
    case True
    then obtain t where "s = CHR ''{'' # t" by (cases s) auto
    with True show ?thesis by (cases t rule: rev_cases) (auto simp: without_braces_def)
  next
    case False
    then show ?thesis unfolding without_braces_def by auto
  qed
  ultimately show ?thesis using assms(2) by (auto simp: list_all_iff)
qed

lemma did_not_uuid: "is_did (JStr s) \<Longrightarrow> parse_uuid s = None"
proof -
  assume "is_did (JStr s)"
  then obtain t where "s = ''did:'' @ t" by (auto simp: is_did_def string_matching_def did_pattern_iff)
  moreover have "\<not> (is_hex CHR '':'' \<or> CHR '':'' \<in> {CHR ''-'', CHR ''{'', CHR ''}''})" by code_simp
  moreover have "CHR '':'' \<in> set (''did:'' @ t)" by simp
  ultimately show ?thesis using parse_uuid_chars [of s "CHR '':''"] by blast
qed

section \<open>Well-formed databases\<close>

definition typed :: "(string \<times> string list) list \<Rightarrow> sql_type \<Rightarrow> cell \<Rightarrow> bool" where
  "typed types ty v =
     (case v of
        Null \<Rightarrow> True
      | Uuid_Cell u \<Rightarrow> ty = Uuid \<and> parse_uuid u = Some u
      | Text_Cell s \<Rightarrow> ty = Varchar \<or> ty = Sql_Text
      | Json_Cell j \<Rightarrow> ty = Jsonb
      | Bool_Cell b \<Rightarrow> ty = Sql_Boolean
      | Int_Cell i \<Rightarrow> (ty = Sql_Int \<and> - (2 ^ 31) \<le> i \<and> i < 2 ^ 31) \<or> (ty = Bigint \<and> - (2 ^ 63) \<le> i \<and> i < 2 ^ 63)
      | Decimal_Cell u \<Rightarrow> (case ty of Decimal p s \<Rightarrow> \<bar>u\<bar> < 10 ^ p | _ \<Rightarrow> False)
      | Time_Cell t \<Rightarrow> ty = Timestamp \<or> ty = Timestamptz
      | Enum_Cell s \<Rightarrow> (case ty of User_Enum e \<Rightarrow> (case map_of types e of None \<Rightarrow> False | Some vs \<Rightarrow> s \<in> set vs) | _ \<Rightarrow> False))"

definition row_ok :: "(string \<times> string list) list \<Rightarrow> table_def \<Rightarrow> row \<Rightarrow> bool" where
  "row_ok types d r \<longleftrightarrow>
     list_all2 (\<lambda>c p. fst p = column_name c \<and> typed types (column_type c) (snd p) \<and> (not_null c \<longrightarrow> snd p \<noteq> Null)) (columns d) r"

definition table_ok :: "database \<Rightarrow> sql_table \<Rightarrow> bool" where
  "table_ok db t \<longleftrightarrow>
     distinct (map column_name (columns (layout t))) \<and>
     list_all (\<lambda>c. type_known db (column_type c)) (columns (layout t)) \<and>
     list_all (row_ok (enum_types db) (layout t)) (rows t) \<and>
     list_all (\<lambda>k. key_distinct (rows t) (snd k)) (constraints (layout t)) \<and>
     list_all (\<lambda>fk. list_all (\<lambda>r. reference_found (tables db) r fk) (rows t)) (foreign_keys (layout t))"

definition db_ok :: "database \<Rightarrow> bool" where
  "db_ok db \<longleftrightarrow> distinct (map fst (tables db)) \<and> list_all (\<lambda>t. table_ok db (snd t)) (tables db)"

inductive sql_reachable :: "database \<Rightarrow> bool" where
  start: "sql_reachable empty_database"
| statement: "sql_reachable db \<Longrightarrow> execute s db = Inr db' \<Longrightarrow> sql_reachable db'"
| insertion: "sql_reachable db \<Longrightarrow> insert_row n sv vals db = Inr (r, db') \<Longrightarrow> sql_reachable db'"

lemma convert_typed: "convert types ty p = Inr v \<Longrightarrow> typed types ty v"
  by (induction types ty p rule: convert.induct)
    (auto simp: typed_def uuid_input_def bounded_int_def bounded_decimal_def enum_input_def Let_def parse_uuid_again
      split: option.splits if_splits)

section \<open>Insertions\<close>

lemma attempt_Inl_or: "attempt r k = Inr y \<Longrightarrow> \<exists>x. r = Inr x \<and> k x = Inr y"
  by (simp add: attempt_Inr_iff)

lemma fill_row_shape:
  "fill_row types sv vals cs = Inr r \<Longrightarrow>
     list_all2 (\<lambda>c p. fst p = column_name c \<and> cell_for types sv vals c = Inr (snd p)) cs r"
  by (induction cs arbitrary: r) (auto simp: attempt_Inr_iff)

lemma row_names: "list_all2 (\<lambda>c p. fst p = column_name c \<and> P c p) cs r \<Longrightarrow> map fst r = map column_name cs"
  by (induction rule: list_all2_induct) auto

lemma cell_at_member: "distinct (map fst r) \<Longrightarrow> (n, v) \<in> set r \<Longrightarrow> cell_at r n = v"
  by (simp add: cell_at_def map_of_eq_Some_iff)

lemma list_all2_member: "list_all2 P xs ys \<Longrightarrow> y \<in> set ys \<Longrightarrow> \<exists>x \<in> set xs. P x y"
  by (induction rule: list_all2_induct) auto

lemma filled_row_ok:
  assumes "fill_row types sv vals (columns d) = Inr r" and "\<not> null_violated d r" and "distinct (map column_name (columns d))"
  shows "row_ok types d r"
proof -
  have shape: "list_all2 (\<lambda>c p. fst p = column_name c \<and> cell_for types sv vals c = Inr (snd p)) (columns d) r"
    using assms(1) by (rule fill_row_shape)
  then have names: "map fst r = map column_name (columns d)" by (rule row_names)
  then have dist: "distinct (map fst r)" using assms(3) by simp
  have null: "not_null c \<longrightarrow> cell_at r (column_name c) \<noteq> Null" if "c \<in> set (columns d)" for c
    using assms(2) that by (auto simp: null_violated_def list_ex_iff)
  show ?thesis
    unfolding row_ok_def
  proof (rule list.rel_mono_strong [OF shape])
    fix c p
    assume "c \<in> set (columns d)" "p \<in> set r" "fst p = column_name c \<and> cell_for types sv vals c = Inr (snd p)"
    moreover from this have "cell_at r (column_name c) = snd p" using cell_at_member [OF dist] by (metis prod.collapse)
    ultimately show "fst p = column_name c \<and> typed types (column_type c) (snd p) \<and> (not_null c \<longrightarrow> snd p \<noteq> Null)"
      using null by (auto simp: cell_for_def dest: convert_typed)
  qed
qed

section \<open>Tables under changes elsewhere\<close>

lemma typed_transfer:
  assumes "typed types ty v" and "\<And>e vs. ty = User_Enum e \<Longrightarrow> map_of types e = Some vs \<Longrightarrow> map_of types' e = Some vs"
  shows "typed types' ty v"
  using assms by (auto simp: typed_def split: cell.splits sql_type.splits option.splits)

lemma table_ok_transfer:
  assumes ok: "table_ok db t"
    and types: "\<And>c e vs. c \<in> set (columns (layout t)) \<Longrightarrow> column_type c = User_Enum e \<Longrightarrow>
      map_of (enum_types db) e = Some vs \<Longrightarrow> map_of (enum_types db') e = Some vs"
    and refs: "\<And>fk r. fk \<in> set (foreign_keys (layout t)) \<Longrightarrow> reference_found (tables db) r fk \<Longrightarrow> reference_found (tables db') r fk"
  shows "table_ok db' t"
proof -
  have known: "type_known db' (column_type c)" if "c \<in> set (columns (layout t))" "type_known db (column_type c)" for c
    using that types [OF that(1)] by (auto simp: type_known_def split: sql_type.splits)
  have "row_ok (enum_types db') (layout t) r" if "row_ok (enum_types db) (layout t) r" for r
    using that unfolding row_ok_def
    by (rule list.rel_mono_strong) (use types in \<open>blast intro: typed_transfer\<close>)
  with ok known refs show ?thesis by (auto simp: table_ok_def list_all_iff)
qed

text \<open>A reference stays found while its table keeps its rows.\<close>

lemma reference_found_mono:
  assumes "reference_found ts r fk"
    and "\<And>t. map_of ts (fk_table fk) = Some t \<Longrightarrow> \<exists>t'. map_of ts' (fk_table fk) = Some t' \<and> set (rows t) \<subseteq> set (rows t')"
  shows "reference_found ts' r fk"
proof (cases "cell_at r (fk_column fk) = Null")
  case False
  then obtain t where t: "map_of ts (fk_table fk) = Some t" "cell_at r (fk_column fk) \<in> (\<lambda>r'. cell_at r' (fk_referenced fk)) ` set (rows t)"
    using assms(1) by (auto simp: reference_found_def split: option.splits)
  then obtain t' where "map_of ts' (fk_table fk) = Some t'" "set (rows t) \<subseteq> set (rows t')" using assms(2) by blast
  with t show ?thesis by (auto simp: reference_found_def)
qed (simp add: reference_found_def)

lemma db_okI:
  "distinct (map fst (tables db)) \<Longrightarrow> (\<And>n t. map_of (tables db) n = Some t \<Longrightarrow> table_ok db t) \<Longrightarrow> db_ok db"
  by (force simp: db_ok_def list_all_iff)

lemma db_ok_table: "db_ok db \<Longrightarrow> map_of (tables db) n = Some t \<Longrightarrow> table_ok db t"
  by (auto simp: db_ok_def list_all_iff dest: map_of_SomeD)

lemma set_table_simps [simp]:
  "enum_types (set_table n t db) = enum_types db" "indexes (set_table n t db) = indexes db"
  "map_of (tables (set_table n t db)) m = (if m = n then Some t else map_of (tables db) m)"
  by (simp_all add: set_table_def update_conv')

lemma type_known_set_table [simp]: "type_known (set_table n t db) ty = type_known db ty"
  by (cases ty) (simp_all add: type_known_def)

lemma set_table_distinct: "distinct (map fst (tables db)) \<Longrightarrow> distinct (map fst (tables (set_table n t db)))"
  by (simp add: set_table_def distinct_update)

section \<open>Every operation keeps a database well-formed\<close>

lemma key_distinct_snoc: "key_distinct (rs @ [r]) cols \<longleftrightarrow> key_distinct rs cols \<and> \<not> key_taken rs r cols"
  by (auto simp: key_distinct_def key_taken_def)

lemma violated_key_None: "violated_key d rs r = None \<longleftrightarrow> (\<forall>k \<in> set (constraints d). \<not> key_taken rs r (snd k))"
  by (simp only: violated_key_def option.map_disc_iff find_None_iff Bex_def not_ex) blast

lemma violated_reference_None:
  "violated_reference ts d r = None \<longleftrightarrow> (\<forall>fk \<in> set (foreign_keys d). reference_found ts r fk)"
  by (simp only: violated_reference_def option.map_disc_iff find_None_iff Bex_def not_ex) blast

lemma insert_row_Inr:
  assumes "insert_row n sv vals db = Inr (r, db')"
  obtains t where "map_of (tables db) n = Some t" "fill_row (enum_types db) sv vals (columns (layout t)) = Inr r"
    "\<not> null_violated (layout t) r" "\<forall>k \<in> set (constraints (layout t)). \<not> key_taken (rows t) r (snd k)"
    "db' = set_table n (t\<lparr>rows := rows t @ [r]\<rparr>) db" "\<forall>fk \<in> set (foreign_keys (layout t)). reference_found (tables db') r fk"
  using assms by (auto simp: insert_row_def attempt_Inr_iff Let_def violated_key_None violated_reference_None
      split: option.splits if_splits)

lemma insert_row_ok:
  assumes ok: "db_ok db" and "insert_row n sv vals db = Inr (r, db')"
  shows "db_ok db'"
  using assms(2)
proof (rule insert_row_Inr)
  fix t
  assume t: "map_of (tables db) n = Some t" and fill: "fill_row (enum_types db) sv vals (columns (layout t)) = Inr r"
    and null: "\<not> null_violated (layout t) r" and keys: "\<forall>k \<in> set (constraints (layout t)). \<not> key_taken (rows t) r (snd k)"
    and db': "db' = set_table n (t\<lparr>rows := rows t @ [r]\<rparr>) db"
    and refs: "\<forall>fk \<in> set (foreign_keys (layout t)). reference_found (tables db') r fk"
  have found: "reference_found (tables db') q fk" if "reference_found (tables db) q fk" for q fk
    using that by (rule reference_found_mono) (use t in \<open>auto simp: db'\<close>)
  have kept: "table_ok db' u" if "map_of (tables db) m = Some u" for m u
    using db_ok_table [OF ok that] by (rule table_ok_transfer) (auto simp: db' intro: found [unfolded db'])
  have tok: "table_ok db' t" by (rule kept [OF t])
  have "row_ok (enum_types db') (layout t) r"
    using filled_row_ok [OF fill null] tok by (simp add: table_ok_def db')
  then have "table_ok db' (t\<lparr>rows := rows t @ [r]\<rparr>)"
    using tok keys refs by (auto simp: table_ok_def list_all_iff key_distinct_snoc)
  then show "db_ok db'"
    using kept ok by (intro db_okI) (auto simp: db' set_table_distinct db_ok_def split: if_splits)
qed

lemma create_type_ok:
  assumes ok: "db_ok db" and "execute (Create_Type e vs) db = Inr db'"
  shows "db_ok db'"
proof -
  have db': "db' = db\<lparr>enum_types := enum_types db @ [(e, vs)]\<rparr>" using assms(2) by (auto split: if_splits)
  have "table_ok db' t" if "map_of (tables db) n = Some t" for n t
    using db_ok_table [OF ok that] by (rule table_ok_transfer) (auto simp: db' map_add_def split: option.splits)
  then show ?thesis using ok by (intro db_okI) (auto simp: db' db_ok_def)
qed

lemma create_table_ok:
  assumes ok: "db_ok db" and "create_table n d db = Inr db'"
  shows "db_ok db'"
proof -
  have db': "db' = db\<lparr>tables := tables db @ [(n, \<lparr>layout = d, rows = []\<rparr>)]\<rparr>" and new: "n \<notin> set (map fst (tables db))"
    and d: "distinct (map column_name (columns d))" "list_all (\<lambda>c. type_known db (column_type c)) (columns d)"
    using assms(2) by (auto simp: create_table_def relation_names_def split: if_splits)
  have old: "table_ok db' t" if t: "map_of (tables db) m = Some t" for m t
    using db_ok_table [OF ok t]
  proof (rule table_ok_transfer)
    show "reference_found (tables db') r fk" if "reference_found (tables db) r fk" for r fk
      using that by (rule reference_found_mono) (auto simp: db' map_add_def split: option.split)
  qed (simp add: db')
  have "table_ok db' \<lparr>layout = d, rows = []\<rparr>"
    using d by (simp add: table_ok_def db' key_distinct_def list_all_iff type_known_def split: sql_type.splits)
  then show ?thesis
    using ok new old by (intro db_okI) (auto simp: db' db_ok_def map_add_def split: option.splits if_splits)
qed

lemma create_index_ok: "db_ok db \<Longrightarrow> create_index i n cols db = Inr db' \<Longrightarrow> db_ok db'"
  by (auto simp: create_index_def db_ok_def table_ok_def type_known_def split: option.splits if_splits cong: sql_type.case_cong)

lemma drop_index_ok: "db_ok db \<Longrightarrow> drop_index i db = Inr db' \<Longrightarrow> db_ok db'"
  by (auto simp: drop_index_def db_ok_def table_ok_def type_known_def split: if_splits cong: sql_type.case_cong)

lemma map_of_filter_fst: "map_of (filter (\<lambda>t. fst t \<noteq> n) ts) m = (if m = n then None else map_of ts m)"
  by (induction ts) auto

lemma drop_table_ok:
  assumes ok: "db_ok db" and "drop_table n db = Inr db'"
  shows "db_ok db'"
proof -
  have db': "db' = db\<lparr>tables := filter (\<lambda>t. fst t \<noteq> n) (tables db), indexes := filter (\<lambda>i. fst (snd i) \<noteq> n) (indexes db)\<rparr>"
    and free: "\<forall>t \<in> set (tables db). \<not> refers_to n t"
    using assms(2) by (auto simp: drop_table_def list_ex_iff split: if_splits)
  have "table_ok db' t" if t: "map_of (tables db) m = Some t" and m: "m \<noteq> n" for m t
    using db_ok_table [OF ok t]
  proof (rule table_ok_transfer)
    show "reference_found (tables db') r fk" if "fk \<in> set (foreign_keys (layout t))" "reference_found (tables db) r fk" for r fk
    proof -
      have "fk_table fk \<noteq> n" using free m map_of_SomeD [OF t] that(1) by (force simp: refers_to_def list_ex_iff)
      then show ?thesis using that(2) by (simp add: reference_found_def db' map_of_filter_fst)
    qed
  qed (simp add: db')
  then show ?thesis
    using ok by (intro db_okI) (auto simp: db' db_ok_def distinct_map_filter map_of_filter_fst split: if_splits)
qed

lemma drop_type_ok:
  assumes ok: "db_ok db" and "drop_type_if_exists e db = Inr db'"
  shows "db_ok db'"
proof -
  have db': "db' = db\<lparr>enum_types := filter (\<lambda>t. fst t \<noteq> e) (enum_types db)\<rparr>"
    and free: "map_of (enum_types db) e \<noteq> None \<Longrightarrow> \<forall>t \<in> set (tables db). \<not> uses_type e (layout (snd t))"
    using assms(2) by (auto simp: drop_type_if_exists_def list_ex_iff split: if_splits)
  have "table_ok db' t" if t: "map_of (tables db) m = Some t" for m t
    using db_ok_table [OF ok t]
  proof (rule table_ok_transfer)
    show "map_of (enum_types db') e' = Some vs"
      if "c \<in> set (columns (layout t))" "column_type c = User_Enum e'" "map_of (enum_types db) e' = Some vs" for c e' vs
    proof -
      have "e' \<noteq> e" using free map_of_SomeD [OF t] that by (force simp: uses_type_def list_ex_iff)
      then show ?thesis using that(3) by (simp add: db' map_of_filter_fst)
    qed
  qed (simp add: db')
  then show ?thesis using ok by (intro db_okI) (auto simp: db' db_ok_def)
qed

section \<open>Changing the type of a column\<close>

lemma map_attempt_Inr: "map_attempt f xs = Inr ys \<longleftrightarrow> list_all2 (\<lambda>x y. f x = Inr y) xs ys"
  by (induction xs arbitrary: ys) (auto simp: attempt_Inr_iff list_all2_Cons1)

lemma cast_in_row_Inr:
  "cast_in_row c ty r = Inr r' \<longleftrightarrow>
     list_all2 (\<lambda>p q. fst q = fst p \<and> (if fst p = c then cast_cell ty (snd p) = Inr (snd q) else q = p)) r r'"
  unfolding cast_in_row_def map_attempt_Inr
  by (rule arg_cong [of _ _ "\<lambda>P. list_all2 P r r'"]) (auto simp: fun_eq_iff attempt_Inr_iff split: if_splits)

lemma cast_typed:
  "cast_cell ty v = Inr v' \<Longrightarrow> typed types old v \<Longrightarrow> typed types ty v' \<and> (v' = Null \<longleftrightarrow> v = Null)"
  by (induction ty v rule: cast_cell.induct)
    (auto simp: typed_def uuid_input_def parse_uuid_again split: option.splits)

lemma cast_row_ok:
  assumes "row_ok types d r" and "cast_in_row c ty r = Inr r'"
  shows "row_ok types (retype c ty d) r'"
proof -
  let ?P = "\<lambda>x p. fst p = column_name x \<and> typed types (column_type x) (snd p) \<and> (not_null x \<longrightarrow> snd p \<noteq> Null)"
  let ?f = "\<lambda>x. if column_name x = c then x\<lparr>column_type := ty\<rparr> else x"
  have "list_all2 (\<lambda>x q. ?P (?f x) q) (columns d) r'"
  proof (rule list_all2_trans [OF _ assms(1) [unfolded row_ok_def] assms(2) [unfolded cast_in_row_Inr]])
    fix x p q
    assume "?P x p" "fst q = fst p \<and> (if fst p = c then cast_cell ty (snd p) = Inr (snd q) else q = p)"
    then show "?P (?f x) q" using cast_typed [of ty "snd p" "snd q" types "column_type x"] by (auto split: if_splits)
  qed
  then show ?thesis by (simp add: row_ok_def retype_def list_all2_map1)
qed

lemma cast_cell_at: "cast_in_row c ty r = Inr r' \<Longrightarrow> x \<noteq> c \<Longrightarrow> cell_at r' x = cell_at r x"
  unfolding cast_in_row_Inr
proof (induction rule: list_all2_induct)
  case (Cons p r q r')
  then show ?case by (cases p; cases q) (auto simp: cell_at_def split: if_splits)
qed simp

lemma cast_rows_image:
  "list_all2 (\<lambda>r r'. cast_in_row c ty r = Inr r') rs rs' \<Longrightarrow> x \<noteq> c \<Longrightarrow>
     (\<lambda>r. cell_at r x) ` set rs' = (\<lambda>r. cell_at r x) ` set rs"
  by (induction rule: list_all2_induct) (auto simp: cast_cell_at)

lemma duplicated_key_None: "duplicated_key d rs = None \<longleftrightarrow> (\<forall>k \<in> set (constraints d). key_distinct rs (snd k))"
  by (simp only: duplicated_key_def option.map_disc_iff find_None_iff Bex_def not_ex) blast

lemma alter_Inr:
  assumes "alter_column_type n c ty db = Inr db'"
  obtains t rs where "map_of (tables db) n = Some t" "type_known db ty" "c \<in> set (map column_name (columns (layout t)))"
    "\<forall>u \<in> set (tables db). \<not> in_reference n c u" "list_all2 (\<lambda>r r'. cast_in_row c ty r = Inr r') (rows t) rs"
    "\<forall>k \<in> set (constraints (layout t)). key_distinct rs (snd k)"
    "db' = set_table n \<lparr>layout = retype c ty (layout t), rows = rs\<rparr> db"
  using assms
  by (auto simp: alter_column_type_def attempt_Inr_iff map_attempt_Inr duplicated_key_None list_ex_iff split: option.splits if_splits)

lemma retype_simps [simp]:
  "constraints (retype c ty d) = constraints d" "foreign_keys (retype c ty d) = foreign_keys d"
  "map column_name (columns (retype c ty d)) = map column_name (columns d)"
  by (auto simp: retype_def constraints_def)

lemma alter_reference:
  assumes db': "db' = set_table n \<lparr>layout = d', rows = rs'\<rparr> db" and t: "map_of (tables db) n = Some t"
    and cast: "list_all2 (\<lambda>r r'. cast_in_row c ty r = Inr r') (rows t) rs'"
    and fk: "\<not> (fk_table fk = n \<and> fk_referenced fk = c)" and "reference_found (tables db) r fk"
    and "cell_at r' (fk_column fk) = cell_at r (fk_column fk)"
  shows "reference_found (tables db') r' fk"
proof (cases "fk_table fk = n")
  case True
  then have "(\<lambda>r. cell_at r (fk_referenced fk)) ` set rs' = (\<lambda>r. cell_at r (fk_referenced fk)) ` set (rows t)"
    using cast_rows_image [OF cast] fk by blast
  then show ?thesis using assms(5,6) True t by (simp add: reference_found_def db')
next
  case False
  then show ?thesis using assms(5,6) by (auto simp: reference_found_def db' split: option.splits)
qed

lemma alter_ok:
  assumes ok: "db_ok db" and "alter_column_type n c ty db = Inr db'"
  shows "db_ok db'"
  using assms(2)
proof (rule alter_Inr)
  fix t rs'
  assume t: "map_of (tables db) n = Some t" and ty: "type_known db ty" and free: "\<forall>u \<in> set (tables db). \<not> in_reference n c u"
    and cast: "list_all2 (\<lambda>r r'. cast_in_row c ty r = Inr r') (rows t) rs'"
    and keys: "\<forall>k \<in> set (constraints (layout t)). key_distinct rs' (snd k)"
    and db': "db' = set_table n \<lparr>layout = retype c ty (layout t), rows = rs'\<rparr> db"
  have unref: "\<not> (fk_table fk = n \<and> fk_referenced fk = c) \<and> \<not> (m = n \<and> fk_column fk = c)"
    if "map_of (tables db) m = Some u" "fk \<in> set (foreign_keys (layout u))" for m u fk
    using free map_of_SomeD [OF that(1)] that(2) by (force simp: in_reference_def list_ex_iff)
  have other: "table_ok db' u" if u: "map_of (tables db) m = Some u" and "m \<noteq> n" for m u
    using db_ok_table [OF ok u]
  proof (rule table_ok_transfer)
    show "reference_found (tables db') r fk" if "fk \<in> set (foreign_keys (layout u))" "reference_found (tables db) r fk" for r fk
      by (rule alter_reference [OF db' t cast _ that(2)]) (use unref [OF u that(1)] in simp_all)
  qed (simp add: db')
  have tok: "table_ok db t" by (rule db_ok_table [OF ok t])
  have cast_from: "\<exists>r \<in> set (rows t). cast_in_row c ty r = Inr r'" if "r' \<in> set rs'" for r'
    using list_all2_member [OF cast that] .
  have "table_ok db' \<lparr>layout = retype c ty (layout t), rows = rs'\<rparr>"
    unfolding table_ok_def
  proof (intro conjI)
    show "list_all (\<lambda>x. type_known db' (column_type x)) (columns (layout \<lparr>layout = retype c ty (layout t), rows = rs'\<rparr>))"
      using tok ty by (auto simp: table_ok_def list_all_iff retype_def db')
    show "list_all (row_ok (enum_types db') (layout \<lparr>layout = retype c ty (layout t), rows = rs'\<rparr>)) (rows \<lparr>layout = retype c ty (layout t), rows = rs'\<rparr>)"
      using tok cast_from cast_row_ok by (fastforce simp: table_ok_def list_all_iff db')
    show "list_all (\<lambda>fk. list_all (\<lambda>r. reference_found (tables db') r fk) (rows \<lparr>layout = retype c ty (layout t), rows = rs'\<rparr>))
        (foreign_keys (layout \<lparr>layout = retype c ty (layout t), rows = rs'\<rparr>))"
      unfolding list_all_iff
    proof (intro ballI)
      fix fk r'
      assume "fk \<in> set (foreign_keys (layout \<lparr>layout = retype c ty (layout t), rows = rs'\<rparr>))" "r' \<in> set (rows \<lparr>layout = retype c ty (layout t), rows = rs'\<rparr>)"
      then have fk: "fk \<in> set (foreign_keys (layout t))" and "r' \<in> set rs'" by simp_all
      then obtain r where r: "r \<in> set (rows t)" "cast_in_row c ty r = Inr r'" using cast_from by blast
      have "reference_found (tables db) r fk" using tok fk r(1) by (simp add: table_ok_def list_all_iff)
      moreover have "cell_at r' (fk_column fk) = cell_at r (fk_column fk)" using cast_cell_at [OF r(2)] unref [OF t fk] by blast
      ultimately show "reference_found (tables db') r' fk" using alter_reference [OF db' t cast] unref [OF t fk] by blast
    qed
  qed (use tok keys in \<open>simp_all add: table_ok_def list_all_iff\<close>)
  then show "db_ok db'"
    using other ok by (intro db_okI) (auto simp: db' set_table_distinct db_ok_def split: if_splits)
qed

theorem reachable_database_ok: "sql_reachable db \<Longrightarrow> db_ok db"
proof (induction rule: sql_reachable.induct)
  case start
  then show ?case by (simp add: db_ok_def empty_database_def)
next
  case (statement db s db')
  then show ?case
    by (cases s)
      (auto intro: create_type_ok create_table_ok create_index_ok drop_table_ok drop_type_ok drop_index_ok alter_ok
        simp del: execute.simps(1) simp: split: if_splits)
next
  case (insertion db n sv vals r db')
  then show ?case by (blast intro: insert_row_ok)
qed

end
