(* ===== verification/Schema.thy ===== *)
theory Schema
  imports Sql_Invariant
begin

text \<open>
  The migrations (\<open>src/src/migrations/\<close>) as the statements they issue, and what they make of a
  database and of the rows in it.
\<close>

section \<open>InitSchema1715000000000\<close>

definition sql_column :: "string \<Rightarrow> sql_type \<Rightarrow> bool \<Rightarrow> col_default \<Rightarrow> column" where
  "sql_column n ty required_value d = \<lparr>column_name = n, column_type = ty, not_null = required_value, column_default = d\<rparr>"

definition id_column :: column where
  "id_column = sql_column ''id'' Uuid True Gen_Random_Uuid"

definition time_column :: "string \<Rightarrow> column" where
  "time_column n = sql_column n Timestamp True Current_Time"

definition keyed_table :: "string \<Rightarrow> column list \<Rightarrow> table_def" where
  "keyed_table pk cs = \<lparr>columns = cs, primary_key = (pk, ''id''), unique_keys = [], foreign_keys = []\<rparr>"

definition agents_table :: table_def where
  "agents_table = (keyed_table ''PK_agents''
     [id_column,
      sql_column ''agentDid'' Varchar True No_Default,
      sql_column ''owner'' Varchar True No_Default,
      sql_column ''publicKey'' Varchar True No_Default,
      sql_column ''endpoint'' Varchar True No_Default,
      sql_column ''status'' (User_Enum ''agent_status'') True (Literal_Text ''active''),
      time_column ''createdAt'',
      time_column ''updatedAt''])\<lparr>unique_keys := [(''UQ_agents_did'', [''agentDid''])]\<rparr>"

definition services_table :: table_def where
  "services_table = (keyed_table ''PK_services''
     [id_column,
      sql_column ''agentId'' Uuid True No_Default,
      sql_column ''name'' Varchar True No_Default,
      sql_column ''description'' Sql_Text True No_Default,
      sql_column ''inputSchema'' Jsonb False No_Default,
      sql_column ''outputSchema'' Jsonb False No_Default,
      sql_column ''slaHints'' Jsonb False No_Default,
      time_column ''createdAt''])\<lparr>foreign_keys :=
        [\<lparr>fk_name = ''FK_services_agent'', fk_column = ''agentId'', fk_table = ''agents'', fk_referenced = ''id'', on_delete_cascade = True\<rparr>]\<rparr>"

definition tariffs_table :: table_def where
  "tariffs_table = keyed_table ''PK_tariffs''
     [id_column,
      sql_column ''agentId'' Uuid True No_Default,
      sql_column ''serviceId'' Uuid True No_Default,
      sql_column ''type'' (User_Enum ''tariff_type'') True No_Default,
      sql_column ''basePrice'' (Decimal 18 8) True No_Default,
      sql_column ''variablePrice'' (Decimal 18 8) False No_Default,
      sql_column ''currency'' Varchar True (Literal_Text ''PROM''),
      sql_column ''metadataUri'' Varchar False No_Default,
      sql_column ''metadataHash'' Varchar False No_Default,
      time_column ''createdAt'']"

definition usage_records_table :: table_def where
  "usage_records_table = keyed_table ''PK_usage_records''
     [id_column,
      sql_column ''sessionId'' Uuid True No_Default,
      sql_column ''agentId'' Uuid True No_Default,
      sql_column ''tokensUsed'' Sql_Int True No_Default,
      sql_column ''cpuMs'' Sql_Int True No_Default,
      sql_column ''bytesIn'' Bigint True No_Default,
      sql_column ''bytesOut'' Bigint True No_Default,
      sql_column ''modelId'' Varchar False No_Default,
      sql_column ''toolCallsCount'' Sql_Int True (Literal_Int 0),
      time_column ''createdAt'']"

definition receipts_table :: table_def where
  "receipts_table = keyed_table ''PK_receipts''
     [id_column,
      sql_column ''sessionId'' Uuid True No_Default,
      sql_column ''requestHash'' Varchar True No_Default,
      sql_column ''resultHash'' Varchar False No_Default,
      sql_column ''usageMetrics'' Jsonb True No_Default,
      sql_column ''priceComputed'' (Decimal 18 8) True No_Default,
      sql_column ''nonce'' Varchar True No_Default,
      sql_column ''signature'' Varchar True No_Default,
      time_column ''createdAt'']"

definition policies_table :: table_def where
  "policies_table = keyed_table ''PK_policies''
     [id_column,
      sql_column ''agentId'' Uuid True No_Default,
      sql_column ''name'' Varchar True No_Default,
      sql_column ''rules'' Jsonb True No_Default,
      sql_column ''signature'' Varchar False No_Default,
      sql_column ''isActive'' Sql_Boolean True (Literal_Bool True),
      time_column ''createdAt'',
      time_column ''updatedAt'']"

definition init_schema_up :: "ddl list" where
  "init_schema_up =
     [Create_Type ''agent_status'' [''active'', ''inactive''],
      Create_Type ''tariff_type'' [''per_request'', ''per_token'', ''per_second'', ''fixed_variable''],
      Create_Table ''agents'' agents_table,
      Create_Index ''IDX_agents_owner'' ''agents'' [''owner''],
      Create_Table ''services'' services_table,
      Create_Index ''IDX_services_agent'' ''services'' [''agentId''],
      Create_Table ''tariffs'' tariffs_table,
      Create_Index ''IDX_tariffs_service'' ''tariffs'' [''serviceId''],
      Create_Table ''usage_records'' usage_records_table,
      Create_Index ''IDX_usage_session'' ''usage_records'' [''sessionId''],
      Create_Table ''receipts'' receipts_table,
      Create_Index ''IDX_receipts_session'' ''receipts'' [''sessionId''],
      Create_Table ''policies'' policies_table,
      Create_Index ''IDX_policies_agent'' ''policies'' [''agentId'']]"

definition init_schema_down :: "ddl list" where
  "init_schema_down =
     [Drop_Table_If_Exists ''policies'', Drop_Table_If_Exists ''receipts'', Drop_Table_If_Exists ''usage_records'',
      Drop_Table_If_Exists ''tariffs'', Drop_Table_If_Exists ''services'', Drop_Table_If_Exists ''agents'',
      Drop_Type_If_Exists ''tariff_type'', Drop_Type_If_Exists ''agent_status'']"

section \<open>AddUsageRollups1716000000000\<close>

definition usage_rollups_table :: table_def where
  "usage_rollups_table = (keyed_table ''PK_usage_rollups''
     [id_column,
      sql_column ''agentId'' Uuid True No_Default,
      sql_column ''hourBucket'' Timestamptz True No_Default,
      sql_column ''requestCount'' Sql_Int True (Literal_Int 0),
      sql_column ''tokensUsed'' Bigint True (Literal_Int 0),
      sql_column ''bytesIn'' Bigint True (Literal_Int 0),
      sql_column ''bytesOut'' Bigint True (Literal_Int 0),
      sql_column ''cpuMs'' Sql_Int True (Literal_Int 0),
      time_column ''createdAt'',
      time_column ''updatedAt''])\<lparr>unique_keys := [(''UQ_usage_rollups_agent_hour'', [''agentId'', ''hourBucket''])]\<rparr>"

definition usage_rollups_up :: "ddl list" where
  "usage_rollups_up =
     [Create_Table ''usage_rollups'' usage_rollups_table, Create_Index ''IDX_usage_rollups_hour'' ''usage_rollups'' [''hourBucket'']]"

definition usage_rollups_down :: "ddl list" where
  "usage_rollups_down = [Drop_Index ''IDX_usage_rollups_hour'', Drop_Table ''usage_rollups'']"

section \<open>AlignIdentifierColumnTypes1717000000000\<close>

definition align_columns :: "(string \<times> string) list" where
  "align_columns =
     [(''usage_records'', ''sessionId''),
      (''usage_records'', ''agentId''),
      (''usage_rollups'', ''agentId''),
      (''receipts'', ''sessionId''),
      (''policies'', ''agentId'')]"

definition align_up :: "ddl list" where
  "align_up = map (\<lambda>(t, c). Alter_Column_Type t c Varchar) align_columns"

definition align_down :: "ddl list" where
  "align_down = map (\<lambda>(t, c). Alter_Column_Type t c Uuid) (rev align_columns)"

section \<open>Migrated databases\<close>

text \<open>The database the first \<open>n\<close> migrations make of an empty one, before any row.\<close>

definition migrations :: "ddl list list" where
  "migrations = [init_schema_up, usage_rollups_up, align_up]"

definition migrated :: "nat \<Rightarrow> database" where
  "migrated n = (case execute_all (concat (take n migrations)) empty_database of Inr db \<Rightarrow> db | Inl e \<Rightarrow> empty_database)"

text \<open>A database in service: the schema of a migration and rows inserted since.\<close>

inductive in_service :: "database \<Rightarrow> database \<Rightarrow> bool" for base where
  fresh: "in_service base base"
| row: "in_service base db \<Longrightarrow> insert_row n sv vals db = Inr (r, db') \<Longrightarrow> in_service base db'"

definition layouts :: "database \<Rightarrow> (string \<times> table_def) list" where
  "layouts db = map (\<lambda>t. (fst t, layout (snd t))) (tables db)"

lemmas table_defs = agents_table_def services_table_def tariffs_table_def usage_records_table_def receipts_table_def
  policies_table_def usage_rollups_table_def keyed_table_def sql_column_def id_column_def time_column_def

lemma migrations_succeed: "execute_all (concat migrations) empty_database = Inr (migrated 3)"
  by code_simp

lemma migrated_1: "execute_all init_schema_up empty_database = Inr (migrated 1)"
  by code_simp

lemma migrated_2: "execute_all usage_rollups_up (migrated 1) = Inr (migrated 2)"
  by code_simp

lemma migrated_3: "execute_all align_up (migrated 2) = Inr (migrated 3)"
  by code_simp

lemma execute_all_reachable: "sql_reachable db \<Longrightarrow> execute_all ss db = Inr db' \<Longrightarrow> sql_reachable db'"
  by (induction ss arbitrary: db) (auto simp: attempt_Inr_iff intro: statement)

lemma migrated_reachable: "sql_reachable (migrated 1)" "sql_reachable (migrated 2)" "sql_reachable (migrated 3)"
proof -
  show one: "sql_reachable (migrated 1)" by (rule execute_all_reachable [OF start migrated_1])
  show two: "sql_reachable (migrated 2)" by (rule execute_all_reachable [OF one migrated_2])
  show "sql_reachable (migrated 3)" by (rule execute_all_reachable [OF two migrated_3])
qed

lemma in_service_reachable: "in_service base db \<Longrightarrow> sql_reachable base \<Longrightarrow> sql_reachable db"
  by (induction rule: in_service.induct) (auto intro: insertion)

lemma layouts_set_table:
  "map_of (tables db) n = Some t \<Longrightarrow> layout t' = layout t \<Longrightarrow> layouts (set_table n t' db) = layouts db"
proof -
  have "map_of ts n = Some t \<Longrightarrow> layout t' = layout t \<Longrightarrow>
      map (\<lambda>t. (fst t, layout (snd t))) (AList.update n t' ts) = map (\<lambda>t. (fst t, layout (snd t))) ts" for ts
    by (induction ts) auto
  then show "map_of (tables db) n = Some t \<Longrightarrow> layout t' = layout t \<Longrightarrow> layouts (set_table n t' db) = layouts db"
    by (simp add: layouts_def set_table_def)
qed

lemma in_service_layouts:
  "in_service base db \<Longrightarrow> layouts db = layouts base \<and> enum_types db = enum_types base \<and> indexes db = indexes base"
proof (induction rule: in_service.induct)
  case (row db n sv vals r db')
  from row(2) obtain t where "map_of (tables db) n = Some t" "db' = set_table n (t\<lparr>rows := rows t @ [r]\<rparr>) db"
    by (rule insert_row_Inr)
  with row show ?case by (simp add: layouts_set_table)
qed simp

lemma map_of_layouts: "map_of (layouts db) n = map_option layout (map_of (tables db) n)"
  by (simp add: layouts_def map_of_snd_map)

lemma in_service_table:
  assumes "in_service base db" and "map_of (layouts base) n = Some d"
  obtains t where "map_of (tables db) n = Some t" and "layout t = d"
proof -
  have "map_of (layouts db) n = Some d" using assms in_service_layouts [OF assms(1)] by simp
  then show thesis using that by (auto simp only: map_of_layouts map_option_eq_Some)
qed

section \<open>Undoing the change of types\<close>

definition unreferenced :: "(string \<times> table_def) list \<Rightarrow> string \<Rightarrow> string \<Rightarrow> bool" where
  "unreferenced ls n c \<longleftrightarrow>
     list_all (\<lambda>l. list_all (\<lambda>fk. \<not> (fst l = n \<and> fk_column fk = c) \<and> \<not> (fk_table fk = n \<and> fk_referenced fk = c))
       (foreign_keys (snd l))) ls"

definition uuid_column :: "(string \<times> table_def) list \<Rightarrow> string \<times> string \<Rightarrow> bool" where
  "uuid_column ls x \<longleftrightarrow>
     (case map_of ls (fst x) of
        None \<Rightarrow> False
      | Some d \<Rightarrow> snd x \<in> set (map column_name (columns d)) \<and>
          list_all (\<lambda>c. column_name c = snd x \<longrightarrow> column_type c = Uuid) (columns d)) \<and>
     unreferenced ls (fst x) (snd x)"

lemma align_columns_uuid: "list_all (uuid_column (layouts (migrated 2))) align_columns" "distinct align_columns"
  by code_simp+

fun as_text :: "cell \<Rightarrow> cell" where
  "as_text (Uuid_Cell u) = Text_Cell u"
| "as_text v = v"

definition text_in_row :: "string \<Rightarrow> row \<Rightarrow> row" where
  "text_in_row c r = map (\<lambda>p. if fst p = c then (c, as_text (snd p)) else p) r"

lemma typed_uuid: "typed types Uuid v \<Longrightarrow> v = Null \<or> (\<exists>u. v = Uuid_Cell u \<and> parse_uuid u = Some u)"
  by (cases v) (auto simp: typed_def)

lemma cast_row_text:
  assumes "row_ok types d r" and "list_all (\<lambda>x. column_name x = c \<longrightarrow> column_type x = Uuid) (columns d)"
  shows "cast_in_row c Varchar r = Inr (text_in_row c r) \<and> cast_in_row c Uuid (text_in_row c r) = Inr r"
  using assms unfolding row_ok_def cast_in_row_Inr text_in_row_def
proof (induction rule: list_all2_induct)
  case (Cons x xs p r)
  have "snd p = Null \<or> (\<exists>u. snd p = Uuid_Cell u \<and> parse_uuid u = Some u)" if "fst p = c"
    using Cons that typed_uuid [of types "snd p"] by auto
  with Cons show ?case by (cases p) (auto simp: uuid_input_def)
qed simp

lemma cell_at_text_in_row: "cell_at (text_in_row c r) x = (if x = c then as_text (cell_at r x) else cell_at r x)"
proof (induction r)
  case (Cons p r)
  then show ?case by (cases p) (auto simp: cell_at_def text_in_row_def split: option.splits if_splits)
qed (simp add: cell_at_def text_in_row_def)

lemma key_distinct_map:
  assumes "key_distinct rs cols"
    and "\<And>r. r \<in> set rs \<Longrightarrow> Null \<in> set (key_of cols (f r)) \<longleftrightarrow> Null \<in> set (key_of cols r)"
    and "\<And>r q. r \<in> set rs \<Longrightarrow> q \<in> set rs \<Longrightarrow> key_of cols (f r) = key_of cols (f q) \<Longrightarrow> key_of cols r = key_of cols q"
  shows "key_distinct (map f rs) cols"
  using assms
proof (induction rs)
  case (Cons r rs)
  have split: "key_distinct (q # qs) cols \<longleftrightarrow> key_distinct qs cols \<and>
      (Null \<in> set (key_of cols q) \<or> (\<forall>x \<in> set qs. key_of cols x \<noteq> key_of cols q))" for q qs
    by (simp add: key_distinct_def image_iff) metis
  have "key_distinct rs cols" using Cons.prems(1) split by blast
  then have "key_distinct (map f rs) cols"
  proof (rule Cons.IH)
    show "Null \<in> set (key_of cols (f x)) \<longleftrightarrow> Null \<in> set (key_of cols x)" if "x \<in> set rs" for x
      by (rule Cons.prems(2)) (simp add: that)
    show "key_of cols x = key_of cols q" if "x \<in> set rs" "q \<in> set rs" "key_of cols (f x) = key_of cols (f q)" for x q
      by (rule Cons.prems(3)) (simp_all add: that)
  qed
  moreover have "key_of cols (f x) \<noteq> key_of cols (f r)" if "x \<in> set rs" "Null \<notin> set (key_of cols r)" for x
  proof
    assume "key_of cols (f x) = key_of cols (f r)"
    then have "key_of cols x = key_of cols r" by (rule Cons.prems(3) [rotated 2]) (simp_all add: that)
    then show False using Cons.prems(1) that split by blast
  qed
  moreover have "Null \<in> set (key_of cols (f r)) \<longleftrightarrow> Null \<in> set (key_of cols r)"
    by (rule Cons.prems(2)) simp
  ultimately show ?case unfolding list.map split by auto
next
  case Nil
  show ?case by (simp add: key_distinct_def)
qed

lemma retype_back:
  "list_all (\<lambda>x. column_name x = c \<longrightarrow> column_type x = Uuid) (columns d) \<Longrightarrow> retype c Uuid (retype c Varchar d) = d"
proof -
  assume "list_all (\<lambda>x. column_name x = c \<longrightarrow> column_type x = Uuid) (columns d)"
  then have "map (\<lambda>x. if column_name x = c then x\<lparr>column_type := Uuid\<rparr> else x)
      (map (\<lambda>x. if column_name x = c then x\<lparr>column_type := Varchar\<rparr> else x) (columns d)) = columns d"
    by (induction "columns d" arbitrary: d) (auto simp: list_all_iff map_idI)
  then show ?thesis by (simp add: retype_def)
qed

lemma update_back: "map_of ts n = Some t \<Longrightarrow> AList.update n t (AList.update n t' ts) = ts"
  by (induction ts) auto

lemma set_table_back: "map_of (tables db) n = Some t \<Longrightarrow> set_table n t (set_table n t' db) = db"
  using update_back by (cases db) (simp add: set_table_def)

lemma unreferenced_layouts: "unreferenced (layouts db) n c \<longleftrightarrow> \<not> list_ex (in_reference n c) (tables db)"
  by (auto simp: unreferenced_def layouts_def list_all_iff list_ex_iff in_reference_def)

lemma unreferenced_set_table:
  assumes "map_of (tables db) n = Some t" and "foreign_keys (layout t') = foreign_keys (layout t)"
  shows "unreferenced (layouts (set_table n t' db)) m c \<longleftrightarrow> unreferenced (layouts db) m c"
proof -
  have "map_of ts n = Some t \<Longrightarrow>
      unreferenced (map (\<lambda>t. (fst t, layout (snd t))) (AList.update n t' ts)) m c \<longleftrightarrow>
      unreferenced (map (\<lambda>t. (fst t, layout (snd t))) ts) m c" for ts
    using assms(2) by (induction ts) (auto simp: unreferenced_def)
  with assms(1) show ?thesis by (simp add: layouts_def set_table_def)
qed

lemma duplicated_key_retype [simp]: "duplicated_key (retype c ty d) rs = duplicated_key d rs"
  by (simp add: duplicated_key_def)

lemma uuid_cell_at:
  assumes "row_ok types d r" and "list_all (\<lambda>x. column_name x = c \<longrightarrow> column_type x = Uuid) (columns d)"
  shows "cell_at r c = Null \<or> (\<exists>u. cell_at r c = Uuid_Cell u)"
  using assms unfolding row_ok_def
proof (induction rule: list_all2_induct)
  case (Cons x xs p r)
  have "snd p = Null \<or> (\<exists>u. snd p = Uuid_Cell u)" if "fst p = c"
    using Cons that typed_uuid [of types "snd p"] by auto
  with Cons show ?case by (cases p) (auto simp: cell_at_def)
qed (simp add: cell_at_def)

lemma as_text_Null: "as_text v = Null \<longleftrightarrow> v = Null"
  by (cases v) auto

lemma as_text_inj:
  "v = Null \<or> (\<exists>u. v = Uuid_Cell u) \<Longrightarrow> w = Null \<or> (\<exists>u. w = Uuid_Cell u) \<Longrightarrow> as_text v = as_text w \<longleftrightarrow> v = w"
  by auto

lemma text_key_distinct:
  assumes keys: "key_distinct rs cols" and cells: "\<And>r. r \<in> set rs \<Longrightarrow> cell_at r c = Null \<or> (\<exists>u. cell_at r c = Uuid_Cell u)"
  shows "key_distinct (map (text_in_row c) rs) cols"
  using keys
proof (rule key_distinct_map)
  show "Null \<in> set (key_of cols (text_in_row c r)) \<longleftrightarrow> Null \<in> set (key_of cols r)" for r
    by (auto simp: key_of_def cell_at_text_in_row image_iff as_text_Null eq_commute [of Null])
  show "key_of cols r = key_of cols q"
    if "r \<in> set rs" "q \<in> set rs" "key_of cols (text_in_row c r) = key_of cols (text_in_row c q)" for r q
    using that as_text_inj [OF cells [OF that(1)] cells [OF that(2)]]
    by (auto simp: key_of_def cell_at_text_in_row split: if_splits)
qed

text \<open>A uuid column always becomes text, and as long as nothing is inserted the way back restores it.\<close>

lemma alter_there_and_back:
  assumes ok: "db_ok db" and col: "uuid_column (layouts db) (n, c)"
  obtains t where "map_of (tables db) n = Some t"
    and "alter_column_type n c Varchar db = Inr (set_table n \<lparr>layout = retype c Varchar (layout t), rows = map (text_in_row c) (rows t)\<rparr> db)"
    and "alter_column_type n c Uuid (set_table n \<lparr>layout = retype c Varchar (layout t), rows = map (text_in_row c) (rows t)\<rparr> db) = Inr db"
proof -
  obtain t where t: "map_of (tables db) n = Some t" and named: "c \<in> set (map column_name (columns (layout t)))"
    and uuid: "list_all (\<lambda>x. column_name x = c \<longrightarrow> column_type x = Uuid) (columns (layout t))"
    and free: "\<not> list_ex (in_reference n c) (tables db)"
    using col by (auto simp: uuid_column_def map_of_layouts unreferenced_layouts split: option.splits)
  let ?t = "\<lparr>layout = retype c Varchar (layout t), rows = map (text_in_row c) (rows t)\<rparr>"
  have tok: "table_ok db t" by (rule db_ok_table [OF ok t])
  have row: "row_ok (enum_types db) (layout t) r" if "r \<in> set (rows t)" for r
    using tok that by (simp add: table_ok_def list_all_iff)
  have cast: "cast_in_row c Varchar r = Inr (text_in_row c r)" "cast_in_row c Uuid (text_in_row c r) = Inr r"
    if "r \<in> set (rows t)" for r
    using cast_row_text [OF row [OF that] uuid] by simp_all
  have there: "map_attempt (cast_in_row c Varchar) (rows t) = Inr (map (text_in_row c) (rows t))"
    and again: "map_attempt (cast_in_row c Uuid) (map (text_in_row c) (rows t)) = Inr (rows t)"
    by (simp_all add: map_attempt_Inr list_all2_conv_all_nth cast)
  have keys: "duplicated_key (layout t) (rows t) = None"
    using tok by (simp add: duplicated_key_None table_ok_def list_all_iff)
  have "duplicated_key (layout t) (map (text_in_row c) (rows t)) = None"
    unfolding duplicated_key_None
    using tok uuid_cell_at [OF row uuid] by (auto simp: table_ok_def list_all_iff intro!: text_key_distinct)
  then have up: "alter_column_type n c Varchar db = Inr (set_table n ?t db)"
    using t named free there by (simp add: alter_column_type_def type_known_def attempt_def)
  have "\<not> list_ex (in_reference n c) (tables (set_table n ?t db))"
    using free t unreferenced_set_table [OF t, of ?t n c] by (simp add: unreferenced_layouts)
  then have "alter_column_type n c Uuid (set_table n ?t db) = Inr db"
    using named keys again retype_back [OF uuid] t
    by (simp add: alter_column_type_def type_known_def attempt_def set_table_back)
  with t up show thesis by (rule that)
qed

lemma uuid_column_elsewhere:
  assumes "uuid_column (layouts db) (m, x)" and "(m, x) \<noteq> (n, c)" and t: "map_of (tables db) n = Some t"
  shows "uuid_column (layouts (set_table n \<lparr>layout = retype c ty (layout t), rows = rs\<rparr> db)) (m, x)"
proof -
  let ?t = "\<lparr>layout = retype c ty (layout t), rows = rs\<rparr>"
  have "unreferenced (layouts (set_table n ?t db)) m x"
    using assms(1) unreferenced_set_table [OF t, of ?t m x] by (simp add: uuid_column_def)
  moreover obtain d where d: "map_of (layouts db) m = Some d" "x \<in> set (map column_name (columns d))"
    "list_all (\<lambda>y. column_name y = x \<longrightarrow> column_type y = Uuid) (columns d)"
    using assms(1) by (auto simp: uuid_column_def split: option.splits)
  ultimately show ?thesis
    using assms(2) t by (auto simp: uuid_column_def map_of_layouts retype_def list_all_iff)
qed

text \<open>Several columns, one after the other, and back in reverse order.\<close>

lemma execute_all_append: "execute_all (xs @ ys) db = attempt (execute_all xs db) (execute_all ys)"
  by (induction xs arbitrary: db) (auto simp: attempt_def split: sum.split)

lemma all_there_and_back:
  "db_ok db \<Longrightarrow> list_all (uuid_column (layouts db)) cs \<Longrightarrow> distinct cs \<Longrightarrow>
     \<exists>db'. execute_all (map (\<lambda>(t, c). Alter_Column_Type t c Varchar) cs) db = Inr db' \<and>
       execute_all (map (\<lambda>(t, c). Alter_Column_Type t c Uuid) (rev cs)) db' = Inr db"
proof (induction cs arbitrary: db)
  case (Cons x cs)
  obtain n c where x: "x = (n, c)" by (cases x)
  have col: "uuid_column (layouts db) (n, c)" using Cons.prems(2) by (simp add: x)
  obtain t where t: "map_of (tables db) n = Some t"
    and up: "alter_column_type n c Varchar db = Inr (set_table n \<lparr>layout = retype c Varchar (layout t), rows = map (text_in_row c) (rows t)\<rparr> db)"
    and down: "alter_column_type n c Uuid (set_table n \<lparr>layout = retype c Varchar (layout t), rows = map (text_in_row c) (rows t)\<rparr> db) = Inr db"
    by (rule alter_there_and_back [OF Cons.prems(1) col])
  let ?db = "set_table n \<lparr>layout = retype c Varchar (layout t), rows = map (text_in_row c) (rows t)\<rparr> db"
  have "list_all (uuid_column (layouts ?db)) cs"
    unfolding list_all_iff
  proof
    fix y assume "y \<in> set cs"
    then show "uuid_column (layouts ?db) y"
      using uuid_column_elsewhere [OF _ _ t, of "fst y" "snd y" c Varchar] Cons.prems(2,3) by (auto simp: x list_all_iff)
  qed
  then obtain db' where "execute_all (map (\<lambda>(t, c). Alter_Column_Type t c Varchar) cs) ?db = Inr db'"
    "execute_all (map (\<lambda>(t, c). Alter_Column_Type t c Uuid) (rev cs)) db' = Inr ?db"
    using Cons.IH [OF alter_ok [OF Cons.prems(1) up]] Cons.prems(3) by auto
  then show ?case by (simp add: x up down execute_all_append attempt_def)
qed simp

section \<open>Properties\<close>

text \<open>
  C32: The change of the identifier columns can be undone as long as it should be. On a database with the
  second migration's schema, whatever rows have been inserted into it, the third migration succeeds,
  and undoing it at once restores the database exactly, rows included. The undoing of all migrations on
  a database without rows leaves nothing behind.
\<close>

theorem align_migration_round_trip:
  assumes "in_service (migrated 2) db"
  shows "\<exists>db'. execute_all align_up db = Inr db' \<and> execute_all align_down db' = Inr db"
proof -
  have "db_ok db" using in_service_reachable [OF assms migrated_reachable(2)] by (rule reachable_database_ok)
  moreover have "list_all (uuid_column (layouts db)) align_columns"
    using align_columns_uuid(1) in_service_layouts [OF assms] by simp
  ultimately show ?thesis
    using all_there_and_back [OF _ _ align_columns_uuid(2)] by (simp add: align_up_def align_down_def)
qed

definition demo_row :: "(string \<times> param) list" where
  "demo_row =
     [(''sessionId'', P_Text ''0123456789abcdef0123456789abcdef''), (''agentId'', P_Text ''00000000-0000-0000-0000-00000000000A''),
      (''tokensUsed'', P_Int 12), (''cpuMs'', P_Int 5), (''bytesIn'', P_Int 3), (''bytesOut'', P_Int 4), (''modelId'', P_Null),
      (''toolCallsCount'', P_Int 0)]"

definition demo_server :: server_values where
  "demo_server = \<lparr>fresh_uuid = ''0123456789ABCDEF0123456789abcdef'', current_time = 7\<rparr>"

theorem align_migration_round_trip_witness:
  "\<exists>r db db'. insert_row ''usage_records'' demo_server demo_row (migrated 2) = Inr (r, db) \<and>
     execute_all align_up db = Inr db' \<and> execute_all align_down db' = Inr db"
proof -
  have "(case insert_row ''usage_records'' demo_server demo_row (migrated 2) of Inl e \<Rightarrow> False | Inr x \<Rightarrow> True)"
    by code_simp
  then obtain r db where ins: "insert_row ''usage_records'' demo_server demo_row (migrated 2) = Inr (r, db)"
    by (cases "insert_row ''usage_records'' demo_server demo_row (migrated 2)") auto
  from align_migration_round_trip [OF row [OF fresh ins]] ins show ?thesis by blast
qed

lemma migrations_undone:
  "execute_all (align_down @ usage_rollups_down @ init_schema_down) (migrated 3) = Inr empty_database"
  by code_simp

lemma cast_row_cell:
  "cast_in_row c ty r = Inr r' \<Longrightarrow> cell_at r c \<noteq> Null \<Longrightarrow> \<exists>v. cast_cell ty (cell_at r c) = Inr v"
  unfolding cast_in_row_Inr
proof (induction rule: list_all2_induct)
  case (Cons p r q r')
  then show ?case by (cases p; cases q) (auto simp: cell_at_def split: if_splits)
qed (simp add: cell_at_def)

lemma list_all2_successor: "list_all2 P xs ys \<Longrightarrow> x \<in> set xs \<Longrightarrow> \<exists>y \<in> set ys. P x y"
  by (induction rule: list_all2_induct) auto

lemma retyped_cells:
  "execute_all (map (\<lambda>(t, c). Alter_Column_Type t c ty) cs) db = Inr db' \<Longrightarrow> distinct cs \<Longrightarrow> (n, c) \<in> set cs \<Longrightarrow>
     map_of (tables db) n = Some t \<Longrightarrow> r \<in> set (rows t) \<Longrightarrow> cell_at r c \<noteq> Null \<Longrightarrow> \<exists>v. cast_cell ty (cell_at r c) = Inr v"
proof (induction cs arbitrary: db t r)
  case (Cons x cs)
  obtain m x' where x: "x = (m, x')" by (cases x)
  obtain db1 where first: "alter_column_type m x' ty db = Inr db1"
    and rest: "execute_all (map (\<lambda>(t, c). Alter_Column_Type t c ty) cs) db1 = Inr db'"
    using Cons.prems(1) by (auto simp: x attempt_Inr_iff)
  obtain u us where u: "map_of (tables db) m = Some u" and cast: "list_all2 (\<lambda>r r'. cast_in_row x' ty r = Inr r') (rows u) us"
    and db1: "db1 = set_table m \<lparr>layout = retype x' ty (layout u), rows = us\<rparr> db"
    using alter_Inr [OF first] by blast
  show ?case
  proof (cases "m = n")
    case True
    then have "rows u = rows t" using u Cons.prems(4) by simp
    then obtain r' where r': "cast_in_row x' ty r = Inr r'" "r' \<in> set us"
      using list_all2_successor [OF cast, of r] Cons.prems(5) by auto
    show ?thesis
    proof (cases "x' = c")
      case True
      then show ?thesis using cast_row_cell r'(1) Cons.prems(6) by blast
    next
      case False
      then have same: "cell_at r' c = cell_at r c" using cast_cell_at [OF r'(1)] by metis
      have "(n, c) \<in> set cs" using Cons.prems(3) False x by auto
      from Cons.IH [OF rest _ this, of "\<lparr>layout = retype x' ty (layout u), rows = us\<rparr>" r'] show ?thesis
        using Cons.prems(2,6) r'(2) \<open>m = n\<close> by (simp add: db1 same)
    qed
  next
    case False
    then have "(n, c) \<in> set cs" using Cons.prems(3) x by auto
    from Cons.IH [OF rest _ this, of t r] show ?thesis using Cons.prems False by (simp add: db1)
  qed
qed simp

text \<open>
  Undoing the third migration is refused once a DID or a session id that is no uuid has been written
  into one of its columns, as the comment on it says: the undoing succeeds only if every text there
  is a uuid's.
\<close>

theorem align_down_needs_uuids:
  assumes "execute_all align_down db = Inr db'" and "(n, c) \<in> set align_columns"
    and "map_of (tables db) n = Some t" and "r \<in> set (rows t)" and "cell_at r c = Text_Cell s"
  shows "parse_uuid s \<noteq> None"
proof -
  have "distinct (rev align_columns)" "(n, c) \<in> set (rev align_columns)" using align_columns_uuid(2) assms(2) by simp_all
  then have "\<exists>v. cast_cell Uuid (cell_at r c) = Inr v"
    using retyped_cells [of Uuid "rev align_columns" db db' n c t r] assms(1,3,4,5) by (simp add: align_down_def)
  then show ?thesis by (simp add: assms(5) uuid_input_def split: option.splits)
qed

end
