(* ===== verification/Schema_Rows.thy ===== *)
theory Schema_Rows
  imports Schema Metering Identity
begin

text \<open>
  The rows the services write, on the migrated schema: what the entities
  (\<open>src/src/modules/*/entities/\<close>) hand to the database on an insertion, and which insertions the
  constraints of \<open>src/src/migrations/\<close> let through.
\<close>

section \<open>What the repositories insert\<close>

definition text_or_null :: "string option \<Rightarrow> param" where
  "text_or_null t = (case t of None \<Rightarrow> P_Null | Some s \<Rightarrow> P_Text s)"

definition usage_params :: "usage_draft \<Rightarrow> (string \<times> param) list" where
  "usage_params u =
     [(''sessionId'', P_Text (usage_session u)), (''agentId'', P_Text (usage_agent u)),
      (''tokensUsed'', P_Int (usage_tokens u)), (''cpuMs'', P_Int (usage_cpu_ms u)),
      (''bytesIn'', P_Int (usage_bytes_in u)), (''bytesOut'', P_Int (usage_bytes_out u)),
      (''modelId'', text_or_null (usage_model u)), (''toolCallsCount'', P_Int (usage_tool_calls u))]"

definition status_text :: "agent_status \<Rightarrow> string" where
  "status_text s = (case s of ACTIVE \<Rightarrow> ''active'' | INACTIVE \<Rightarrow> ''inactive'')"

text \<open>A status that is not set is not sent, and the column's default applies.\<close>

definition agent_params :: "agent_draft \<Rightarrow> (string \<times> param) list" where
  "agent_params a =
     [(''agentDid'', P_Text (draft_did a)), (''owner'', P_Text (draft_owner a)),
      (''publicKey'', P_Text (draft_public_key a)), (''endpoint'', P_Text (draft_endpoint a))] @
     (case draft_status a of None \<Rightarrow> [] | Some s \<Rightarrow> [(''status'', P_Text (status_text s))])"

definition rows_of :: "database \<Rightarrow> string \<Rightarrow> row list" where
  "rows_of db n = (case map_of (tables db) n of None \<Rightarrow> [] | Some t \<Rightarrow> rows t)"

section \<open>Layouts\<close>

definition aligned_usage_records :: table_def where
  "aligned_usage_records = retype ''agentId'' Varchar (retype ''sessionId'' Varchar usage_records_table)"

lemma layouts_2: "map_of (layouts (migrated 2)) ''usage_records'' = Some usage_records_table"
  by code_simp

lemma layouts_3:
  "map_of (layouts (migrated 3)) ''usage_records'' = Some aligned_usage_records"
  "map_of (layouts (migrated 3)) ''agents'' = Some agents_table"
  "map_of (layouts (migrated 3)) ''services'' = Some services_table"
  "map_of (layouts (migrated 3)) ''usage_rollups'' = Some (retype ''agentId'' Varchar usage_rollups_table)"
  "map_of (enum_types (migrated 3)) ''agent_status'' = Some [''active'', ''inactive'']"
  by code_simp+

lemma in_service_rows:
  assumes "in_service base db" and "map_of (layouts base) n = Some d"
  obtains t where "map_of (tables db) n = Some t" "layout t = d" "rows t = rows_of db n"
  using in_service_table [OF assms] by (metis option.simps(5) rows_of_def)

lemma fill_row_append:
  "fill_row types sv vals (cs @ ds) =
     attempt (fill_row types sv vals cs) (\<lambda>r. attempt (fill_row types sv vals ds) (\<lambda>q. Inr (r @ q)))"
  by (induction cs) (auto simp: attempt_def split: sum.split)

section \<open>Insertions\<close>

text \<open>A row without references goes in unless a key is taken.\<close>

lemma insert_row_eq:
  assumes t: "map_of (tables db) n = Some t" and names: "fst ` set vals \<subseteq> set (map column_name (columns (layout t)))"
    and fill: "fill_row (enum_types db) sv vals (columns (layout t)) = Inr r"
    and "\<not> null_violated (layout t) r" and "foreign_keys (layout t) = []"
  shows "insert_row n sv vals db =
    (case violated_key (layout t) (rows t) r of
       Some k \<Rightarrow> Inl (pg_error ''23505'' [] (Some k))
     | None \<Rightarrow> Inr (r, set_table n (t\<lparr>rows := rows t @ [r]\<rparr>) db))"
  using assms by (simp add: insert_row_def attempt_def violated_reference_def Let_def split: option.split)

lemma insert_row_unfilled:
  assumes "map_of (tables db) n = Some t" and "fst ` set vals \<subseteq> set (map column_name (columns (layout t)))"
    and "fill_row (enum_types db) sv vals (columns (layout t)) = Inl e"
  shows "insert_row n sv vals db = Inl e"
  using assms by (simp add: insert_row_def attempt_def)

definition fits :: "nat \<Rightarrow> int \<Rightarrow> bool" where
  "fits w i \<longleftrightarrow> - (2 ^ (w - 1)) \<le> i \<and> i < 2 ^ (w - 1)"

definition usage_fits :: "usage_draft \<Rightarrow> bool" where
  "usage_fits u \<longleftrightarrow> fits 32 (usage_tokens u) \<and> fits 32 (usage_cpu_ms u) \<and> fits 64 (usage_bytes_in u) \<and>
     fits 64 (usage_bytes_out u) \<and> fits 32 (usage_tool_calls u)"

definition text_cell_or_null :: "string option \<Rightarrow> cell" where
  "text_cell_or_null t = (case t of None \<Rightarrow> Null | Some s \<Rightarrow> Text_Cell s)"

definition stored_usage :: "string \<Rightarrow> int \<Rightarrow> usage_draft \<Rightarrow> row" where
  "stored_usage i now u =
     [(''id'', Uuid_Cell i), (''sessionId'', Text_Cell (usage_session u)), (''agentId'', Text_Cell (usage_agent u)),
      (''tokensUsed'', Int_Cell (usage_tokens u)), (''cpuMs'', Int_Cell (usage_cpu_ms u)),
      (''bytesIn'', Int_Cell (usage_bytes_in u)), (''bytesOut'', Int_Cell (usage_bytes_out u)),
      (''modelId'', text_cell_or_null (usage_model u)), (''toolCallsCount'', Int_Cell (usage_tool_calls u)),
      (''createdAt'', Time_Cell now)]"

lemma usage_names: "fst ` set (usage_params u) \<subseteq> set (map column_name (columns usage_records_table))"
  by (simp add: usage_params_def table_defs)

lemma aligned_layout:
  "map column_name (columns aligned_usage_records) = map column_name (columns usage_records_table)"
  "foreign_keys aligned_usage_records = []"
  "constraints aligned_usage_records = [(''PK_usage_records'', [''id''])]"
  by (simp_all add: aligned_usage_records_def) (simp_all add: usage_records_table_def keyed_table_def constraints_def)

lemma stored_usage_id: "cell_at (stored_usage i now u) ''id'' = Uuid_Cell i"
  by (simp add: stored_usage_def cell_at_def)

lemma id_key_taken:
  "cell_at r c \<noteq> Null \<Longrightarrow> key_taken rs r [c] \<longleftrightarrow> (\<exists>q \<in> set rs. cell_at q c = cell_at r c)"
  by (simp add: key_taken_def key_of_def image_iff) metis

lemma fill_usage_uuid:
  assumes "parse_uuid (usage_agent u) = None"
  shows "\<exists>m. fill_row types sv (usage_params u) (columns usage_records_table) = Inl (Query_Failed (Some ''22P02'') m None)"
  using assms
  by (simp add: table_defs cell_for_def usage_params_def uuid_input_def pg_error_def attempt_def split: option.split)

lemma fill_usage_text:
  assumes "usage_fits u" and "parse_uuid (fresh_uuid sv) = Some i"
  shows "fill_row types sv (usage_params u) (columns aligned_usage_records) = Inr (stored_usage i (current_time sv) u)"
  using assms
  by (simp add: aligned_usage_records_def retype_def table_defs cell_for_def usage_params_def uuid_input_def attempt_def
      usage_fits_def fits_def bounded_int_def stored_usage_def text_or_null_def text_cell_or_null_def split: option.split)

definition agent_row :: "string \<Rightarrow> int \<Rightarrow> agent_draft \<Rightarrow> row" where
  "agent_row i now a =
     [(''id'', Uuid_Cell i), (''agentDid'', Text_Cell (draft_did a)), (''owner'', Text_Cell (draft_owner a)),
      (''publicKey'', Text_Cell (draft_public_key a)), (''endpoint'', Text_Cell (draft_endpoint a)),
      (''status'', Enum_Cell (case draft_status a of None \<Rightarrow> ''active'' | Some s \<Rightarrow> status_text s)),
      (''createdAt'', Time_Cell now), (''updatedAt'', Time_Cell now)]"

lemma agent_names: "fst ` set (agent_params a) \<subseteq> set (map column_name (columns agents_table))"
  by (auto simp: agent_params_def table_defs split: option.splits)

lemma fill_agent:
  assumes "map_of types ''agent_status'' = Some [''active'', ''inactive'']" and "parse_uuid (fresh_uuid sv) = Some i"
  shows "fill_row types sv (agent_params a) (columns agents_table) = Inr (agent_row i (current_time sv) a)"
  using assms
  by (cases "draft_status a"; cases "the (draft_status a)")
    (simp_all add: table_defs cell_for_def agent_params_def uuid_input_def attempt_def enum_input_def agent_row_def status_text_def)

text \<open>The repository's insertion of an agent, read back as the entity.\<close>

definition cell_text :: "cell \<Rightarrow> string" where
  "cell_text v = (case v of Text_Cell s \<Rightarrow> s | Uuid_Cell u \<Rightarrow> u | Enum_Cell s \<Rightarrow> s | _ \<Rightarrow> [])"

definition agent_of_row :: "row \<Rightarrow> agent" where
  "agent_of_row r =
     \<lparr>agent_id = cell_text (cell_at r ''id''), agent_did = cell_text (cell_at r ''agentDid''),
      agent_owner = cell_text (cell_at r ''owner''), agent_public_key = cell_text (cell_at r ''publicKey''),
      agent_endpoint = cell_text (cell_at r ''endpoint''),
      status_of = (if cell_at r ''status'' = Enum_Cell ''active'' then ACTIVE else INACTIVE)\<rparr>"

definition insert_agent_row :: "server_values \<Rightarrow> agent_draft \<Rightarrow> (database, agent) io" where
  "insert_agent_row sv a db =
     (case insert_row ''agents'' sv (agent_params a) db of
        Inl e \<Rightarrow> (Inl e, db)
      | Inr (r, db') \<Rightarrow> (Inr (agent_of_row r), db'))"

definition find_agent_row :: "string \<Rightarrow> (database, agent option) io" where
  "find_agent_row d db =
     (Inr (map_option agent_of_row (List.find (\<lambda>r. cell_at r ''agentDid'' = Text_Cell d) (rows_of db ''agents''))), db)"

lemma rows_of_set_table: "rows_of (set_table n t db) m = (if m = n then rows t else rows_of db m)"
  by (simp add: rows_of_def)

lemma find_snoc_None: "List.find P xs = None \<Longrightarrow> List.find P (xs @ [x]) = (if P x then Some x else None)"
  by (induction xs) (auto split: if_splits)

section \<open>Properties\<close>


definition demo_values :: server_values where
  "demo_values = \<lparr>fresh_uuid = ''0123456789ABCDEF0123456789abcdef'', current_time = 7\<rparr>"

definition demo_uuid :: string where
  "demo_uuid = ''01234567-89ab-cdef-0123-456789abcdef''"

definition demo_usage_draft :: usage_draft where
  "demo_usage_draft = \<lparr>usage_session = ''s'', usage_agent = ''did:prom:b'', usage_tokens = 1, usage_cpu_ms = 2, usage_bytes_in = 3,
     usage_bytes_out = 4, usage_model = None, usage_tool_calls = 0\<rparr>"

lemma demo_values_uuid: "parse_uuid (fresh_uuid demo_values) = Some demo_uuid"
  by code_simp


lemma agent_layout:
  "foreign_keys agents_table = []"
  "constraints agents_table = [(''PK_agents'', [''id'']), (''UQ_agents_did'', [''agentDid''])]"
  by (simp_all add: agents_table_def keyed_table_def constraints_def)

lemma agent_row_cells:
  "cell_at (agent_row i now a) ''id'' = Uuid_Cell i" "cell_at (agent_row i now a) ''agentDid'' = Text_Cell (draft_did a)"
  by (simp_all add: agent_row_def cell_at_def)

lemma agent_of_new_row:
  "agent_of_row (agent_row i now a) =
     \<lparr>agent_id = i, agent_did = draft_did a, agent_owner = draft_owner a, agent_public_key = draft_public_key a,
      agent_endpoint = draft_endpoint a, status_of = (case draft_status a of None \<Rightarrow> ACTIVE | Some s \<Rightarrow> s)\<rparr>"
  by (simp add: agent_of_row_def agent_row_def cell_at_def cell_text_def status_text_def split: option.split agent_status.split)

lemma find_row_Some: "List.find P xs \<noteq> None \<longleftrightarrow> (\<exists>x \<in> set xs. P x)"
  by (auto simp: find_None_iff)



section \<open>Constraints\<close>

lemma reachable_table:
  assumes s: "in_service (migrated 3) db" and d: "map_of (layouts (migrated 3)) n = Some d"
  obtains t where "map_of (tables db) n = Some t" "layout t = d" "rows t = rows_of db n" "table_ok db t"
proof -
  obtain t where t: "map_of (tables db) n = Some t" and rest: "layout t = d" "rows t = rows_of db n"
    using in_service_rows [OF s d] by blast
  have "db_ok db" using in_service_reachable [OF s migrated_reachable(3)] by (rule reachable_database_ok)
  then have "table_ok db t" using t by (rule db_ok_table)
  with t rest show thesis using that by blast
qed

lemma row_not_null:
  assumes "row_ok types d r" and "c \<in> set (columns d)" and "not_null c" and "distinct (map column_name (columns d))"
  shows "cell_at r (column_name c) \<noteq> Null"
proof -
  have names: "map fst r = map column_name (columns d)"
    using assms(1) unfolding row_ok_def by (rule row_names)
  obtain i where i: "i < length (columns d)" "columns d ! i = c" using assms(2) by (auto simp: in_set_conv_nth)
  then have p: "i < length r" "fst (r ! i) = column_name c" "snd (r ! i) \<noteq> Null"
    using assms(1,3) by (auto simp: row_ok_def list_all2_conv_all_nth)
  then have "(column_name c, snd (r ! i)) \<in> set r" by (metis nth_mem prod.collapse)
  then have "cell_at r (column_name c) = snd (r ! i)" using names assms(4) by (intro cell_at_member) simp_all
  with p show ?thesis by simp
qed

lemma distinct_keys:
  assumes ok: "table_ok db t" and k: "(k, cols) \<in> set (constraints (layout t))"
    and cols: "\<And>x. x \<in> set cols \<Longrightarrow> \<exists>c \<in> set (columns (layout t)). column_name c = x \<and> not_null c"
  shows "distinct (map (key_of cols) (rows t))"
proof -
  have rok: "row_ok (enum_types db) (layout t) r" if "r \<in> set (rows t)" for r
    using ok that by (simp add: table_ok_def list_all_iff)
  have dist: "distinct (map column_name (columns (layout t)))" using ok by (simp add: table_ok_def)
  have "cell_at r x \<noteq> Null" if r: "r \<in> set (rows t)" and x: "x \<in> set cols" for r x
    using cols [OF x] row_not_null [OF rok [OF r] _ _ dist] by blast
  then have "Null \<notin> set (key_of cols r)" if "r \<in> set (rows t)" for r
    using that by (auto simp: key_of_def image_iff eq_commute [of Null])
  then have "filter (\<lambda>k. Null \<notin> set k) (map (key_of cols) (rows t)) = map (key_of cols) (rows t)" by (auto simp: filter_id_conv)
  moreover have "key_distinct (rows t) cols" using ok k by (auto simp: table_ok_def list_all_iff)
  ultimately show ?thesis by (simp add: key_distinct_def)
qed

text \<open>
  C18: Whatever has been inserted, the tables keep their constraints: no two agents share a DID, every
  service belongs to a stored agent, and there is at most one rollup per agent and hour.
\<close>

theorem schema_constraints_hold:
  assumes s: "in_service (migrated 3) db"
  shows "distinct (map (\<lambda>r. cell_at r ''agentDid'') (rows_of db ''agents'')) \<and>
    (\<forall>r \<in> set (rows_of db ''services''). \<exists>q \<in> set (rows_of db ''agents''). cell_at r ''agentId'' = cell_at q ''id'') \<and>
    distinct (map (\<lambda>r. (cell_at r ''agentId'', cell_at r ''hourBucket'')) (rows_of db ''usage_rollups''))"
proof (intro conjI)
  obtain a where a: "map_of (tables db) ''agents'' = Some a" "layout a = agents_table" "rows a = rows_of db ''agents''" "table_ok db a"
    using reachable_table [OF s layouts_3(2)] by blast
  have "distinct (map (key_of [''agentDid'']) (rows a))"
    by (rule distinct_keys [OF a(4), of "''UQ_agents_did''"]) (simp_all add: a(2) agent_layout, simp_all add: table_defs)
  then show "distinct (map (\<lambda>r. cell_at r ''agentDid'') (rows_of db ''agents''))"
    unfolding a(3) by (auto simp: distinct_map key_of_def inj_on_def)
  obtain u where u: "layout u = services_table" "rows u = rows_of db ''services''" "table_ok db u"
    using reachable_table [OF s layouts_3(3)] by blast
  show "\<forall>r \<in> set (rows_of db ''services''). \<exists>q \<in> set (rows_of db ''agents''). cell_at r ''agentId'' = cell_at q ''id''"
  proof
    fix r assume r: "r \<in> set (rows_of db ''services'')"
    have "row_ok (enum_types db) services_table r" "distinct (map column_name (columns services_table))"
      and fk: "list_all (reference_found (tables db) r) (foreign_keys services_table)"
      using u r by (auto simp: table_ok_def list_all_iff)
    then have "cell_at r ''agentId'' \<noteq> Null"
      using row_not_null [of _ services_table r "sql_column ''agentId'' Uuid True No_Default"]
      by (simp add: services_table_def keyed_table_def sql_column_def)
    with fk a(1,3) show "\<exists>q \<in> set (rows_of db ''agents''). cell_at r ''agentId'' = cell_at q ''id''"
      by (auto simp: services_table_def keyed_table_def reference_found_def)
  qed
  obtain w where w: "layout w = retype ''agentId'' Varchar usage_rollups_table" "rows w = rows_of db ''usage_rollups''" "table_ok db w"
    using reachable_table [OF s layouts_3(4)] by blast
  have "distinct (map (key_of [''agentId'', ''hourBucket'']) (rows w))"
    by (rule distinct_keys [OF w(3), of "''UQ_usage_rollups_agent_hour''"])
      (auto simp: w(1) usage_rollups_table_def keyed_table_def constraints_def retype_def sql_column_def)
  then show "distinct (map (\<lambda>r. (cell_at r ''agentId'', cell_at r ''hourBucket'')) (rows_of db ''usage_rollups''))"
    unfolding w(2) by (auto simp: distinct_map key_of_def inj_on_def)
qed

definition demo_agent_draft :: agent_draft where
  "demo_agent_draft =
     \<lparr>draft_did = ''did:prom:a'', draft_owner = ''0xab'', draft_public_key = ''k'', draft_endpoint = ''http://a'', draft_status = None\<rparr>"

theorem schema_constraints_hold_witness:
  "\<exists>r db. insert_row ''agents'' demo_values (agent_params demo_agent_draft) (migrated 3) = Inr (r, db) \<and>
     length (rows_of db ''agents'') = 1 \<and> distinct (map (\<lambda>r. cell_at r ''agentDid'') (rows_of db ''agents''))"
proof -
  have "(case insert_row ''agents'' demo_values (agent_params demo_agent_draft) (migrated 3) of
      Inl e \<Rightarrow> False | Inr x \<Rightarrow> length (rows_of (snd x) ''agents'') = 1)"
    by code_simp
  then obtain r db where ins: "insert_row ''agents'' demo_values (agent_params demo_agent_draft) (migrated 3) = Inr (r, db)"
    and one: "length (rows_of db ''agents'') = 1"
    by (cases "insert_row ''agents'' demo_values (agent_params demo_agent_draft) (migrated 3)") auto
  from schema_constraints_hold [OF row [OF fresh ins]] ins one show ?thesis by blast
qed

end
