(* ===== verification/Controller_Metrics.thy ===== *)
theory Controller_Metrics
  imports Http_Metrics Filters Guards Config
begin

text \<open>
  The registry of the process's metrics (\<open>src/src/observability/metrics.service.ts\<close> and the
  constructors of the other services of \<open>src/src/observability/\<close>) and the timing of the controllers'
  handlers (\<open>controller-metrics.interceptor.ts\<close>). The metrics library is outside the repository: of
  it the model has that a name is registered once and that observations are recorded as they come;
  its default metrics are a parameter. The properties say that the services never claim a name
  twice, that a handled request is observed once, and how many series there can be.
\<close>

section \<open>The registry\<close>

definition metrics_prefix :: string where
  "metrics_prefix = ''agent_layer_''"

record metrics_service =
  registered :: "string list"
  default_labels :: "(string \<times> string) list"
  collector_count :: nat

definition register_metric :: "string \<Rightarrow> metrics_service \<Rightarrow> exn + metrics_service" where
  "register_metric n m =
     (if n \<in> set (registered m) then Inl (Js_Error ''Error'' (''A metric with the name '' @ n @ '' has already been registered.''))
      else Inr (m\<lparr>registered := registered m @ [n]\<rparr>))"

fun register_metrics :: "string list \<Rightarrow> metrics_service \<Rightarrow> exn + metrics_service" where
  "register_metrics [] m = Inr m"
| "register_metrics (n # ns) m = (case register_metric n m of Inl e \<Rightarrow> Inl e | Inr m' \<Rightarrow> register_metrics ns m')"

text \<open>What a metric is created with.\<close>

datatype metric_kind = Counter_Metric | Gauge_Metric | Histogram_Metric "rat list"

record metric_def =
  metric_kind :: metric_kind
  metric_name :: string
  metric_help :: string
  metric_labels :: "string list"

definition http_metric_defs :: "metric_def list" where
  "http_metric_defs =
     [\<lparr>metric_kind = Counter_Metric, metric_name = ''http_requests_total'',
       metric_help = ''HTTP requests completed, by method and response status'', metric_labels = [''method'', ''status'']\<rparr>,
      \<lparr>metric_kind = Histogram_Metric [5 / 1000, 1 / 100, 25 / 1000, 5 / 100, 1 / 10, 25 / 100, 1 / 2, 1, 5 / 2, 5, 10],
       metric_name = ''http_request_duration_seconds'',
       metric_help = ''HTTP request duration in seconds, measured from first byte in to response finished'',
       metric_labels = [''method'', ''status'']\<rparr>,
      \<lparr>metric_kind = Gauge_Metric, metric_name = ''http_requests_in_flight'',
       metric_help = ''HTTP requests currently being served'', metric_labels = []\<rparr>]"

definition http_metric_names :: "string list" where
  "http_metric_names = map metric_name http_metric_defs"

text \<open>\<open>defaults\<close> are the names of the library's default metrics, without prefix.\<close>

definition new_metrics_service :: "string list \<Rightarrow> exn + metrics_service" where
  "new_metrics_service defaults =
     (case register_metrics http_metric_names \<lparr>registered = [], default_labels = [], collector_count = 0\<rparr> of
        Inl e \<Rightarrow> Inl e
      | Inr m \<Rightarrow> register_metrics (map ((@) metrics_prefix) defaults) (m\<lparr>default_labels := [(''service'', ''a2a-agent-layer'')]\<rparr>))"

definition register_collector :: "metrics_service \<Rightarrow> metrics_service" where
  "register_collector m = m\<lparr>collector_count := collector_count m + 1\<rparr>"

definition on_module_destroy :: "metrics_service \<Rightarrow> metrics_service" where
  "on_module_destroy m = m\<lparr>registered := []\<rparr>"

definition domain_gauge_defs :: "metric_def list" where
  "domain_gauge_defs =
     [\<lparr>metric_kind = Gauge_Metric, metric_name = metrics_prefix @ ''agents'',
       metric_help = ''Registered agents by status'', metric_labels = [''status'']\<rparr>,
      \<lparr>metric_kind = Gauge_Metric, metric_name = metrics_prefix @ ''services'',
       metric_help = ''Catalog services by status of the owning agent (inactive = delisted with its agent)'',
       metric_labels = [''status'']\<rparr>,
      \<lparr>metric_kind = Gauge_Metric, metric_name = metrics_prefix @ ''usage_records'',
       metric_help = ''Usage records in the recent window by rollup status (pending = not yet in an hourly rollup)'',
       metric_labels = [''status'']\<rparr>,
      \<lparr>metric_kind = Gauge_Metric, metric_name = metrics_prefix @ ''metering_lag_seconds'',
       metric_help = ''Age of the oldest usage record in the recent window that no hourly rollup covers'', metric_labels = []\<rparr>,
      \<lparr>metric_kind = Counter_Metric, metric_name = metrics_prefix @ ''domain_metrics_refresh_errors_total'',
       metric_help = ''Failed attempts to refresh the domain gauges from the database'', metric_labels = []\<rparr>]"

definition domain_gauge_names :: "string list" where
  "domain_gauge_names = map metric_name domain_gauge_defs"

definition business_metric_defs :: "metric_def list" where
  "business_metric_defs =
     [\<lparr>metric_kind = Counter_Metric, metric_name = metrics_prefix @ ''policy_decisions_total'',
       metric_help = ''Policy evaluations for A2A requests, by decision and reason'', metric_labels = [''decision'', ''reason'']\<rparr>,
      \<lparr>metric_kind = Counter_Metric, metric_name = metrics_prefix @ ''metering_rollup_runs_total'',
       metric_help = ''Hourly metering rollup runs, by result'', metric_labels = [''result'']\<rparr>,
      \<lparr>metric_kind = Gauge_Metric, metric_name = metrics_prefix @ ''metering_rollup_last_success_timestamp_seconds'',
       metric_help = ''Unix time of the last metering rollup run that completed without error'', metric_labels = []\<rparr>,
      \<lparr>metric_kind = Gauge_Metric, metric_name = metrics_prefix @ ''metering_rollup_last_buckets'',
       metric_help = ''Agent-hour buckets written by the last successful metering rollup run'', metric_labels = []\<rparr>]"

definition business_metric_names :: "string list" where
  "business_metric_names = map metric_name business_metric_defs"

definition controller_duration_buckets :: "rat list" where
  "controller_duration_buckets =
     [5 / 1000, 1 / 100, 25 / 1000, 5 / 100, 1 / 10, 25 / 100, 1 / 2, 1, 5 / 2, 5, 10, 30, 60]"

definition controller_metric_def :: metric_def where
  "controller_metric_def =
     \<lparr>metric_kind = Histogram_Metric controller_duration_buckets, metric_name = ''http_controller_duration_seconds'',
      metric_help = ''Controller handler duration in seconds, by controller, handler and route template'',
      metric_labels = [''controller'', ''handler'', ''method'', ''route'', ''status'']\<rparr>"

definition controller_metric_name :: string where
  "controller_metric_name = metric_name controller_metric_def"

lemmas metric_names = http_metric_names_def http_metric_defs_def domain_gauge_names_def domain_gauge_defs_def
  business_metric_names_def business_metric_defs_def controller_metric_name_def controller_metric_def_def metrics_prefix_def

text \<open>The module's providers, each constructed once; the gauges' service registers a collector.\<close>

definition metrics_module :: "string list \<Rightarrow> exn + metrics_service" where
  "metrics_module defaults =
     (case new_metrics_service defaults of
        Inl e \<Rightarrow> Inl e
      | Inr m \<Rightarrow> (case register_metrics domain_gauge_names m of
          Inl e \<Rightarrow> Inl e
        | Inr m1 \<Rightarrow> (case register_metrics business_metric_names (register_collector m1) of
            Inl e \<Rightarrow> Inl e
          | Inr m2 \<Rightarrow> register_metric controller_metric_name m2)))"

section \<open>Timing handlers\<close>

definition unmatched_route :: string where
  "unmatched_route = ''unmatched''"

text \<open>What the interceptor reads of the context; a class is known by its name.\<close>

record execution_context =
  context_type :: string
  context_class :: string
  context_handler :: string
  context_method :: "string option"
  context_route :: "string option"

record controller_labels =
  label_controller :: string
  label_handler :: string
  label_method :: string
  label_route :: string

definition labels_of :: "execution_context \<Rightarrow> controller_labels" where
  "labels_of ctx =
     \<lparr>label_controller = controller_label (context_class ctx),
      label_handler = context_handler ctx,
      label_method = normalize_method (context_method ctx),
      label_route = (case context_route ctx of Some p \<Rightarrow> p | None \<Rightarrow> unmatched_route)\<rparr>"

text \<open>What a handler's stream does: emit a value (with the response's status by then), fail, or end.\<close>

datatype signal = Emitted "nat option" | Errored exn | Completed

type_synonym observation = "(controller_labels \<times> string) \<times> rat"

definition timed :: "execution_context \<Rightarrow> bool" where
  "timed ctx \<longleftrightarrow> context_type ctx = ''http'' \<and> context_class ctx \<noteq> ''MetricsController''"

text \<open>\<open>started\<close> and the times of the signals are in nanoseconds.\<close>

definition on_signal :: "nest \<Rightarrow> controller_labels \<Rightarrow> int \<Rightarrow> signal \<times> int \<Rightarrow> observation list" where
  "on_signal n labels started s =
     (let seconds = of_int (snd s - started) / 10 ^ 9
      in case fst s of
           Emitted st \<Rightarrow> [((labels, nat_str (case st of Some c \<Rightarrow> c | None \<Rightarrow> 200)), seconds)]
         | Errored e \<Rightarrow> [((labels, nat_str (exception_status n e)), seconds)]
         | Completed \<Rightarrow> [])"

text \<open>The signals pass through unchanged; the observations made on the way are the result.\<close>

definition controller_intercept :: "nest \<Rightarrow> execution_context \<Rightarrow> int \<Rightarrow> (signal \<times> int) list \<Rightarrow> observation list" where
  "controller_intercept n ctx started signals =
     (if \<not> timed ctx then [] else concat (map (on_signal n (labels_of ctx) started) signals))"

text \<open>A handler of this program: one value and the end, or an error.\<close>

inductive handler_signals :: "(signal \<times> int) list \<Rightarrow> bool" where
  answered: "handler_signals [(Emitted st, t), (Completed, t')]"
| failed: "handler_signals [(Errored e, t)]"

section \<open>Lemmas\<close>

lemma register_metrics_Inr:
  "distinct ns \<Longrightarrow> set ns \<inter> set (registered m) = {} \<Longrightarrow> register_metrics ns m = Inr (m\<lparr>registered := registered m @ ns\<rparr>)"
proof (induction ns arbitrary: m)
  case (Cons n ns)
  then have "register_metrics ns (m\<lparr>registered := registered m @ [n]\<rparr>) =
      Inr (m\<lparr>registered := registered m @ [n], registered := (registered m @ [n]) @ ns\<rparr>)"
    by (subst Cons.IH) auto
  with Cons.prems show ?case by (simp add: register_metric_def)
qed simp

lemma register_metrics_twice: "ns \<noteq> [] \<Longrightarrow> set ns \<subseteq> set (registered m) \<Longrightarrow> \<exists>e. register_metrics ns m = Inl e"
  by (cases ns) (simp_all add: register_metric_def)

section \<open>Properties\<close>

text \<open>
  The services of the metrics module never claim a name twice, so that its construction does not
  throw: this holds whatever the default metrics of the library are, as long as they differ from one
  another and none is called like one of the prefixed metrics. Constructing any of the services a
  second time on the same registry throws, unless the registry was cleared by the module's destruction.
\<close>

theorem metrics_registered_once:
  assumes "distinct defaults"
    and "set (map ((@) metrics_prefix) defaults) \<inter> set (domain_gauge_names @ business_metric_names) = {}"
  shows "\<exists>m. metrics_module defaults = Inr m \<and> collector_count m = 1 \<and>
    set http_metric_names \<union> set domain_gauge_names \<union> set business_metric_names \<union> {controller_metric_name} \<subseteq> set (registered m) \<and>
    (\<exists>e. register_metrics business_metric_names m = Inl e) \<and>
    (\<exists>m'. register_metrics business_metric_names (on_module_destroy m) = Inr m')"
proof -
  let ?d = "map ((@) metrics_prefix) defaults"
  have http: "\<forall>n \<in> set (controller_metric_name # http_metric_names). take 1 n = ''h''"
    by (simp add: metric_names)
  have own: "\<forall>n \<in> set (domain_gauge_names @ business_metric_names @ ?d). take 1 n = ''a''"
    by (auto simp: metric_names)
  have apart: "set (controller_metric_name # http_metric_names) \<inter> set (domain_gauge_names @ business_metric_names @ ?d) = {}"
    using http own by fastforce
  have dist: "distinct (controller_metric_name # http_metric_names)" "distinct (domain_gauge_names @ business_metric_names)"
    by (simp_all add: metric_names)
  have "distinct ?d" using assms(1) by (simp add: distinct_map inj_on_def)
  then have one: "new_metrics_service defaults =
      Inr \<lparr>registered = http_metric_names @ ?d, default_labels = [(''service'', ''a2a-agent-layer'')], collector_count = 0\<rparr>"
    using dist(1) apart by (simp add: new_metrics_service_def register_metrics_Inr) (subst register_metrics_Inr; auto)
  let ?m1 = "\<lparr>registered = (http_metric_names @ ?d) @ domain_gauge_names, default_labels = [(''service'', ''a2a-agent-layer'')], collector_count = 0\<rparr>"
  have two: "register_metrics domain_gauge_names
      \<lparr>registered = http_metric_names @ ?d, default_labels = [(''service'', ''a2a-agent-layer'')], collector_count = 0\<rparr> = Inr ?m1"
    using dist(2) apart assms(2) by (subst register_metrics_Inr) auto
  let ?m2 = "\<lparr>registered = ((http_metric_names @ ?d) @ domain_gauge_names) @ business_metric_names,
    default_labels = [(''service'', ''a2a-agent-layer'')], collector_count = 1\<rparr>"
  have three: "register_metrics business_metric_names (register_collector ?m1) = Inr ?m2"
    using dist(2) apart assms(2) by (subst register_metrics_Inr) (auto simp: register_collector_def)
  let ?m = "?m2\<lparr>registered := (((http_metric_names @ ?d) @ domain_gauge_names) @ business_metric_names) @ [controller_metric_name]\<rparr>"
  have "register_metric controller_metric_name ?m2 = Inr ?m"
    using dist(1) apart by (auto simp: register_metric_def)
  then have "metrics_module defaults = Inr ?m" by (simp only: metrics_module_def one two three sum.case)
  moreover have "\<exists>e. register_metrics business_metric_names ?m = Inl e"
    by (rule register_metrics_twice) (auto simp: metric_names)
  moreover have "\<exists>m'. register_metrics business_metric_names (on_module_destroy ?m) = Inr m'"
    using dist(2) by (subst register_metrics_Inr) (auto simp: on_module_destroy_def)
  ultimately show ?thesis by auto
qed

theorem metrics_registered_once_witness:
  "\<exists>m. metrics_module [''process_cpu_seconds_total'', ''nodejs_eventloop_lag_seconds''] = Inr m"
proof -
  have "distinct [''process_cpu_seconds_total'', ''nodejs_eventloop_lag_seconds'']"
    "set (map ((@) metrics_prefix) [''process_cpu_seconds_total'', ''nodejs_eventloop_lag_seconds'']) \<inter>
       set (domain_gauge_names @ business_metric_names) = {}"
    by (simp_all add: metric_names)
  from metrics_registered_once [OF this] show ?thesis by blast
qed

text \<open>
  A handled request is timed once, and under its template. For a handler that answers or fails, the
  interceptor makes exactly one observation unless the request is a scrape or no HTTP request, and then
  none. Its labels are the controller, the handler, a method of the fixed list or \<open>OTHER\<close>, and the route's
  template; its status is the response's when the handler answered, 200 if it has none, and the
  exception's when it failed. The number of label combinations over any set of requests is at most eight
  per handler and route, however many different URLs were asked for.
\<close>

theorem controller_timing_exact:
  shows "(handler_signals ss \<and> timed ctx \<longrightarrow>
      controller_intercept n ctx started ss =
        [((labels_of ctx, nat_str (case fst (hd ss) of Emitted (Some c) \<Rightarrow> c | Errored e \<Rightarrow> exception_status n e | _ \<Rightarrow> 200)),
          of_int (snd (hd ss) - started) / 10 ^ 9)]) \<and>
    (\<not> timed ctx \<longrightarrow> controller_intercept n ctx started ss = []) \<and>
    (finite H \<and> (\<lambda>c. (context_class c, context_handler c, context_route c)) ` R \<subseteq> H \<longrightarrow>
      finite (labels_of ` R) \<and> card (labels_of ` R) \<le> 8 * card H)"
proof (intro conjI impI; (elim conjE)?)
  assume "handler_signals ss" and t: "timed ctx"
  then show "controller_intercept n ctx started ss =
      [((labels_of ctx, nat_str (case fst (hd ss) of Emitted (Some c) \<Rightarrow> c | Errored e \<Rightarrow> exception_status n e | _ \<Rightarrow> 200)),
        of_int (snd (hd ss) - started) / 10 ^ 9)]"
    by (cases rule: handler_signals.cases) (auto simp: controller_intercept_def on_signal_def Let_def split: option.split)
next
  show "\<not> timed ctx \<Longrightarrow> controller_intercept n ctx started ss = []" by (simp add: controller_intercept_def)
next
  let ?key = "\<lambda>c. (context_class c, context_handler c, context_route c)"
  let ?f = "\<lambda>((cls, h, r), m). \<lparr>label_controller = controller_label cls, label_handler = h, label_method = m,
    label_route = (case r of Some p \<Rightarrow> p | None \<Rightarrow> unmatched_route)\<rparr>"
  assume H: "finite H" "?key ` R \<subseteq> H"
  have methods: "finite method_labels" "card method_labels \<le> 8"
    by (simp_all add: method_labels_def known_methods_def card_insert_if)
  have into: "labels_of ` R \<subseteq> ?f ` (H \<times> method_labels)"
  proof
    fix l assume "l \<in> labels_of ` R"
    then obtain c where c: "c \<in> R" "l = labels_of c" by blast
    then have "(?key c, normalize_method (context_method c)) \<in> H \<times> method_labels" using H(2) by auto
    moreover have "l = ?f (?key c, normalize_method (context_method c))" by (simp add: c(2) labels_of_def)
    ultimately show "l \<in> ?f ` (H \<times> method_labels)" by (rule rev_image_eqI)
  qed
  have fin: "finite (H \<times> method_labels)" using H(1) methods(1) by simp
  have sub: "finite (labels_of ` R)" "card (labels_of ` R) \<le> card (?f ` (H \<times> method_labels))"
    using finite_subset [OF into finite_imageI [OF fin]] card_mono [OF finite_imageI [OF fin] into] by simp_all
  have "card (?f ` (H \<times> method_labels)) \<le> card H * card method_labels"
    using card_image_le [OF fin, of ?f] by (simp add: card_cartesian_product)
  also have "\<dots> \<le> 8 * card H" using methods(2) by simp
  finally have "card (?f ` (H \<times> method_labels)) \<le> 8 * card H" .
  with sub show "finite (labels_of ` R)" "card (labels_of ` R) \<le> 8 * card H" by simp_all
qed

definition demo_handler_context :: "string option \<Rightarrow> execution_context" where
  "demo_handler_context m = \<lparr>context_type = ''http'', context_class = ''CatalogController'', context_handler = ''findOne'',
     context_method = m, context_route = Some ''/services/:id''\<rparr>"

theorem controller_timing_exact_witness:
  "controller_intercept demo_nest (demo_handler_context (Some ''get'')) 0 [(Errored (Not_Found ''x''), 5)] =
      [((labels_of (demo_handler_context (Some ''get'')), nat_str (exception_status demo_nest (Not_Found ''x''))), 5 / 10 ^ 9)] \<and>
   card (labels_of ` range demo_handler_context) \<le> 8"
proof -
  have "timed (demo_handler_context m)" for m by (simp add: timed_def demo_handler_context_def)
  moreover have "(\<lambda>c. (context_class c, context_handler c, context_route c)) ` range demo_handler_context \<subseteq>
      {(''CatalogController'', ''findOne'', Some ''/services/:id'')}"
    by (auto simp: demo_handler_context_def)
  ultimately show ?thesis
    using controller_timing_exact [of "[(Errored (Not_Found ''x''), 5)]" "demo_handler_context (Some ''get'')" demo_nest 0
        "{(''CatalogController'', ''findOne'', Some ''/services/:id'')}" "range demo_handler_context"] failed [of "Not_Found ''x''" 5]
    by simp
qed

section \<open>Rate limits and the probes\<close>

text \<open>
  The metadata of \<open>src/src/common/decorators/skip-throttle.decorator.ts\<close>: the tiers by name. The library
  leaves a tier out for a handler whose metadata names it, and its bare decorator names the tier
  \<open>default\<close>.
\<close>

definition throttler_names :: "(string \<times> bool) list" where
  "throttler_names = [(''short'', True), (''long'', True)]"

definition skips_tier :: "(string \<times> bool) list \<Rightarrow> string \<Rightarrow> bool" where
  "skips_tier meta tier \<longleftrightarrow> map_of meta tier = Some True"

text \<open>
  The probes and the scrape are never rate limited: the metadata of the decorator names every tier the
  service configures, whatever the limits are, while the library's bare decorator exempts from none.
\<close>

theorem probes_skip_every_tier:
  "list_all (\<lambda>t. skips_tier throttler_names (throttler_name t)) (throttlers cfg) \<and>
   \<not> list_ex (\<lambda>t. skips_tier [(''default'', True)] (throttler_name t)) (throttlers cfg)"
  by (simp add: throttlers_def skips_tier_def throttler_names_def)

end
