(* ===== verification/Blockchain.thy ===== *)
theory Blockchain
  imports Config
begin

text \<open>
  The blockchain service (\<open>src/src/common/blockchain/blockchain.service.ts\<close>): what it makes of its
  settings when the module starts, what it signs and under which span, and the propagation of the
  trace context (\<open>src/src/observability/traced-blockchain.ts\<close>). The chain library is a parameter: the
  address of a key or what it throws, the host of a URL, the signatures and the hash.
\<close>

record 'w chain_library =
  key_address :: "string \<Rightarrow> exn + string"
  url_host :: "string \<Rightarrow> string option"
  wallet_sign :: "string \<Rightarrow> string \<Rightarrow> ('w, string) io"
  keccak_bytes :: "nat list \<Rightarrow> string"

record chain_wallet =
  wallet_key :: string
  wallet_address :: string

text \<open>The fields the module's start sets one after the other.\<close>

record blockchain_service =
  rpc_host :: string
  provider :: "string option"
  wallet :: "chain_wallet option"
  destroyed :: bool

definition new_blockchain_service :: blockchain_service where
  "new_blockchain_service = \<lparr>rpc_host = ''unknown'', provider = None, wallet = None, destroyed = False\<rparr>"

definition safe_host :: "'w chain_library \<Rightarrow> string \<Rightarrow> string" where
  "safe_host lib url = (case url_host lib url of Some h \<Rightarrow> h | None \<Rightarrow> ''unknown'')"

text \<open>\<open>configService.get(key, default)\<close>: the default applies to an undefined setting only.\<close>

definition setting_or :: "'a option \<Rightarrow> 'a \<Rightarrow> 'a" where
  "setting_or s d = (case s of Some x \<Rightarrow> x | None \<Rightarrow> d)"

definition development_key :: string where
  "development_key = ''0xac0974bec39a17e36ba4a6b4d238ff944bacb478cbed5efcae784d7bf4f2ff80''"

text \<open>The result is the line that is logged; the service's fields are the state.\<close>

definition start_blockchain ::
    "'w chain_library \<Rightarrow> blockchain_settings option \<Rightarrow> (blockchain_service, string) io" where
  "start_blockchain lib settings s =
     (let url = setting_or (map_option rpc_url_setting settings) ''http://localhost:8545'';
          private_key = setting_or (map_option private_key_setting settings) development_key;
          s1 = s\<lparr>rpc_host := safe_host lib url, provider := Some url\<rparr>
      in case key_address lib private_key of
           Inl e \<Rightarrow> (Inl e, s1)
         | Inr a \<Rightarrow> (Inr (''Blockchain connected: '' @ url @ '', wallet: '' @ a),
             s1\<lparr>wallet := Some \<lparr>wallet_key = private_key, wallet_address = a\<rparr>\<rparr>))"

definition stop_blockchain :: "blockchain_service \<Rightarrow> blockchain_service" where
  "stop_blockchain s = (if provider s = None then s else s\<lparr>destroyed := True\<rparr>)"

definition get_wallet_address :: "blockchain_service \<Rightarrow> exn + string" where
  "get_wallet_address s =
     (case wallet s of Some w \<Rightarrow> Inr (wallet_address w) | None \<Rightarrow> Inl (Js_Error ''TypeError'' []))"

definition sign_with_wallet ::
    "'w chain_library \<Rightarrow> string option \<Rightarrow> blockchain_service \<Rightarrow> string \<Rightarrow> 'w \<Rightarrow> ((exn + string) \<times> 'w) \<times> span option" where
  "sign_with_wallet lib request_id s message w =
     (case wallet s of
        None \<Rightarrow> ((Inl (Js_Error ''TypeError'' []), w), None)
      | Some x \<Rightarrow>
          (case blockchain_traced request_id (rpc_host s) (\<lambda>_. None) ''signMessage''
                  [(''blockchain.signer'', Text_Attribute (wallet_address x))]
                  (\<lambda>(w, sp). case wallet_sign lib (wallet_key x) message w of (r, w') \<Rightarrow> (r, (w', sp))) w of
             (r, sp) \<Rightarrow> (r, Some sp)))"

definition hash_data :: "'w chain_library \<Rightarrow> string \<Rightarrow> string" where
  "hash_data lib data = keccak_bytes lib (utf8_bytes data)"

section \<open>Trace context\<close>

text \<open>\<open>inject\<close> is the library's: it adds the headers of the active span to a carrier.\<close>

definition trace_context_headers :: "('c \<Rightarrow> (string \<times> string) list \<Rightarrow> (string \<times> string) list) \<Rightarrow> 'c \<Rightarrow> (string \<times> string) list" where
  "trace_context_headers inject active = inject active []"

text \<open>Every request to the node passes through this before it is sent; the library's header names are case-folded.\<close>

definition preflight ::
    "('c \<Rightarrow> (string \<times> string) list \<Rightarrow> (string \<times> string) list) \<Rightarrow> 'c \<Rightarrow> (string, string) jsmap \<Rightarrow> (string, string) jsmap" where
  "preflight inject active req =
     foldl (\<lambda>hs p. jsmap_set (js_lower (fst p)) (snd p) hs) req (trace_context_headers inject active)"

record span_context =
  trace_id :: string
  span_id :: string

definition span_ids_of :: "(span_context \<Rightarrow> bool) \<Rightarrow> span_context option \<Rightarrow> (string \<times> string) option" where
  "span_ids_of valid active =
     (case active of None \<Rightarrow> None | Some c \<Rightarrow> if valid c then Some (trace_id c, span_id c) else None)"

section \<open>Request context\<close>

text \<open>
  The store that follows a call through its continuations: what runs inside \<open>run\<close> sees the given
  context, what runs after it the one before.
\<close>

type_synonym 'a in_context = "string option \<Rightarrow> 'a"

definition context_run :: "string \<Rightarrow> 'a in_context \<Rightarrow> 'a in_context" where
  "context_run request_id fn store = fn (Some request_id)"

definition context_request_id :: "string option in_context" where
  "context_request_id store = store"

section \<open>Lemmas\<close>

lemma start_blockchain_result:
  "fst (start_blockchain lib settings s) =
     (case key_address lib (setting_or (map_option private_key_setting settings) development_key) of
        Inl e \<Rightarrow> Inl e
      | Inr a \<Rightarrow> Inr (''Blockchain connected: '' @
          setting_or (map_option rpc_url_setting settings) ''http://localhost:8545'' @ '', wallet: '' @ a))"
  by (simp add: start_blockchain_def Let_def split: sum.split)

lemma configured_key: "private_key_setting (blockchain_config env) = or_default (given (env ''BLOCKCHAIN_PRIVATE_KEY'')) []"
  by (simp add: blockchain_config_def or_default_def)

lemma preflight_get:
  "jsmap_get (foldl (\<lambda>hs p. jsmap_set (js_lower (fst p)) (snd p) hs) req ps) k =
     (case map_of (rev (map (\<lambda>p. (js_lower (fst p), snd p)) ps)) k of Some v \<Rightarrow> Some v | None \<Rightarrow> jsmap_get req k)"
  by (induction ps rule: rev_induct) (auto simp: jsmap_get_set)

section \<open>Properties\<close>


definition demo_chain_library :: "nat chain_library" where
  "demo_chain_library =
     \<lparr>key_address = (\<lambda>k. if k = [] then Inl (Js_Error ''TypeError'' ''invalid private key'') else Inr (''0x'' @ k)),
      url_host = (\<lambda>u. Some ''node:8545''),
      wallet_sign = (\<lambda>k m n. (Inr (k @ m), n + 1)),
      keccak_bytes = (\<lambda>bs. [])\<rparr>"


end
