(* ===== verification/Process.thy ===== *)
theory Process
  imports Blockchain Controller_Metrics Metering Refresh_Tokens "HOL-Library.Multiset"
begin

text \<open>
  The life of the process: what is set up when it starts and released when it stops
  (\<open>src/src/observability/tracing.bootstrap.ts\<close> and \<open>tracing.module.ts\<close>, the timers of
  \<open>src/src/modules/metering/metering-rollup.job.ts\<close> and
  \<open>src/src/modules/protocol/nonce-store.service.ts\<close>, the hooks of the other services), and the
  options of the token library (\<open>src/src/common/auth/auth.module.ts\<close>). The framework runs the hooks of
  a phase one after the other; in which order is a parameter. The properties say when the start
  succeeds, what it leaves running, and that stopping releases all of it.
\<close>

section \<open>Timers\<close>

text \<open>The runtime's repeating timers by handle, with their delays in milliseconds.\<close>

record process =
  exporter :: "tracing_config option"
  timers :: "(nat, int) jsmap"
  next_handle :: nat
  rollup_handle :: "nat option"
  eviction_handle :: "nat option"
  nonce_window :: int
  chain_service :: blockchain_service
  metric_registry :: metrics_service
  process_log :: "string list"

definition set_interval :: "rat option \<Rightarrow> process \<Rightarrow> nat \<times> process" where
  "set_interval delay p =
     (next_handle p, p\<lparr>timers := jsmap_set (next_handle p) (timer_delay delay) (timers p), next_handle := next_handle p + 1\<rparr>)"

definition clear_interval :: "nat \<Rightarrow> process \<Rightarrow> process" where
  "clear_interval h p = p\<lparr>timers := jsmap_filter (\<lambda>k d. k \<noteq> h) (timers p)\<rparr>"

definition log_line :: "string \<Rightarrow> process \<Rightarrow> process" where
  "log_line l p = p\<lparr>process_log := process_log p @ [l]\<rparr>"

section \<open>The nonce store's and the rollup job's timer\<close>

record nonce_options =
  window_option :: "int option"
  interval_option :: "int option"

text \<open>The constructor; injected options that are absent or null are the empty ones.\<close>

definition construct_nonce_store :: "nonce_options option \<Rightarrow> process \<Rightarrow> process" where
  "construct_nonce_store options p =
     (let options = (case options of Some x \<Rightarrow> x | None \<Rightarrow> \<lparr>window_option = None, interval_option = None\<rparr>);
          window = setting_or (window_option options) (5 * 60 * 1000);
          interval = setting_or (interval_option options) (60 * 1000);
          (h, p1) = set_interval (Some (of_int interval)) p
      in p1\<lparr>nonce_window := window, eviction_handle := Some h\<rparr>)"

definition destroy_nonce_store :: "process \<Rightarrow> process" where
  "destroy_nonce_store p = (case eviction_handle p of Some h \<Rightarrow> clear_interval h p | None \<Rightarrow> p)"

text \<open>\<open>number_text\<close> is the runtime's text of a number, \<open>None\<close> standing for \<open>NaN\<close>.\<close>

definition init_rollup_job :: "(rat option \<Rightarrow> string) \<Rightarrow> env \<Rightarrow> process \<Rightarrow> process" where
  "init_rollup_job number_text env p =
     (let interval = rollup_interval_ms env;
          (h, p1) = set_interval interval p
      in log_line (''Metering rollup job scheduled every '' @ number_text interval @ ''ms'') (p1\<lparr>rollup_handle := Some h\<rparr>))"

definition destroy_rollup_job :: "process \<Rightarrow> process" where
  "destroy_rollup_job p = (case rollup_handle p of Some h \<Rightarrow> clear_interval h p | None \<Rightarrow> p)"

text \<open>A run the timer starts: its failure is logged and goes no further. The result is the lines logged.\<close>

definition rollup_tick :: "'d rollup_repo \<Rightarrow> int \<Rightarrow> int \<Rightarrow> 'd app \<Rightarrow> string list \<times> 'd app" where
  "rollup_tick repo now reference w =
     (case run_hourly_rollup repo now reference w of
        (Inr n, w') \<Rightarrow> ([], w')
      | (Inl e, w') \<Rightarrow> ([''Hourly metering rollup failed''], w'))"

section \<open>Tracing\<close>

definition bootstrap_tracing :: "env \<Rightarrow> process \<Rightarrow> process" where
  "bootstrap_tracing env p = p\<lparr>exporter := snd (start_tracing (tracing_config_from_env env) (exporter p))\<rparr>"

definition init_tracing :: "(rat option \<Rightarrow> string) \<Rightarrow> env \<Rightarrow> process \<Rightarrow> process" where
  "init_tracing number_text env p =
     (let cfg = tracing_config_from_env env
      in if is_tracing_started (exporter p)
         then log_line (''OpenTelemetry tracing enabled: service='' @ tracing_service_name cfg @ '', exporter='' @ traces_url cfg @
                '', sampleRatio='' @ number_text (Some (sample_ratio cfg))) p
         else log_line ''OpenTelemetry tracing disabled (set OTEL_EXPORTER_OTLP_ENDPOINT to enable)'' p)"

text \<open>\<open>shutdown\<close> is the library's flushing of an exporter.\<close>

definition shutdown_tracing :: "(tracing_config \<Rightarrow> exn + unit) \<Rightarrow> process \<Rightarrow> process" where
  "shutdown_tracing shutdown p =
     (case stop_tracing (exporter p) of
        (running, sdk') \<Rightarrow>
          (let p1 = p\<lparr>exporter := sdk'\<rparr>
           in case running of
                None \<Rightarrow> p1
              | Some cfg \<Rightarrow> (case shutdown cfg of
                    Inr u \<Rightarrow> p1
                  | Inl e \<Rightarrow> log_line (''OpenTelemetry shutdown failed: '' @ exn_message e) p1)))"

section \<open>Start\<close>

datatype init_hook = Init_Chain | Init_Rollup | Init_Tracing

definition run_init ::
    "'w chain_library \<Rightarrow> (rat option \<Rightarrow> string) \<Rightarrow> env \<Rightarrow> init_hook \<Rightarrow> process \<Rightarrow> exn + process" where
  "run_init lib number_text env h p =
     (case h of
        Init_Chain \<Rightarrow>
          (case start_blockchain lib (Some (blockchain_config env)) (chain_service p) of
             (Inl e, s) \<Rightarrow> Inl e
           | (Inr line, s) \<Rightarrow> Inr (log_line line (p\<lparr>chain_service := s\<rparr>)))
      | Init_Rollup \<Rightarrow> Inr (init_rollup_job number_text env p)
      | Init_Tracing \<Rightarrow> Inr (init_tracing number_text env p))"

fun run_inits ::
    "'w chain_library \<Rightarrow> (rat option \<Rightarrow> string) \<Rightarrow> env \<Rightarrow> init_hook list \<Rightarrow> process \<Rightarrow> exn + process" where
  "run_inits lib number_text env [] p = Inr p"
| "run_inits lib number_text env (h # hs) p =
     attempt (run_init lib number_text env h p) (run_inits lib number_text env hs)"

text \<open>A process before its first statement.\<close>

definition blank_process :: process where
  "blank_process =
     \<lparr>exporter = None, timers = [], next_handle = 1, rollup_handle = None, eviction_handle = None, nonce_window = 0,
      chain_service = new_blockchain_service,
      metric_registry = \<lparr>registered = [], default_labels = [], collector_count = 0\<rparr>, process_log = []\<rparr>"

text \<open>
  The exporter first, then the settings, the services' constructors and the hooks. No provider of
  the program binds options for the nonce store.
\<close>

definition start_process ::
    "'w chain_library \<Rightarrow> (rat option \<Rightarrow> string) \<Rightarrow> string list \<Rightarrow> env \<Rightarrow> init_hook list \<Rightarrow> exn + security_settings \<times> process" where
  "start_process lib number_text defaults env order =
     (let p = bootstrap_tracing env blank_process
      in attempt (security_config (env ''NODE_ENV'' = Some ''production'') env) (\<lambda>cfg.
         attempt (metrics_module defaults) (\<lambda>m.
         attempt (run_inits lib number_text env order (construct_nonce_store None (p\<lparr>metric_registry := m\<rparr>))) (\<lambda>p'.
         Inr (cfg, p')))))"

section \<open>Stop\<close>

datatype destroy_hook = Destroy_Chain | Destroy_Rollup | Destroy_Nonces | Destroy_Metrics

definition run_destroy :: "destroy_hook \<Rightarrow> process \<Rightarrow> process" where
  "run_destroy h p =
     (case h of
        Destroy_Chain \<Rightarrow> p\<lparr>chain_service := stop_blockchain (chain_service p)\<rparr>
      | Destroy_Rollup \<Rightarrow> destroy_rollup_job p
      | Destroy_Nonces \<Rightarrow> destroy_nonce_store p
      | Destroy_Metrics \<Rightarrow> p\<lparr>metric_registry := on_module_destroy (metric_registry p)\<rparr>)"

text \<open>The modules are destroyed first, then the application's shutdown hook runs.\<close>

definition stop_process :: "(tracing_config \<Rightarrow> exn + unit) \<Rightarrow> destroy_hook list \<Rightarrow> process \<Rightarrow> process" where
  "stop_process shutdown order p = shutdown_tracing shutdown (fold run_destroy order p)"

section \<open>Tokens\<close>

text \<open>What the library that signs tokens and the strategy that verifies them are given.\<close>

record jwt_options =
  signing_secret :: string
  default_expiry :: string

record strategy_options =
  verifying_secret :: string
  ignore_expiration :: bool

definition jwt_module_options :: "security_settings \<Rightarrow> jwt_options" where
  "jwt_module_options s = \<lparr>signing_secret = jwt_secret s, default_expiry = jwt_expires_in s\<rparr>"

definition jwt_strategy_options :: "security_settings \<Rightarrow> strategy_options" where
  "jwt_strategy_options s = \<lparr>verifying_secret = jwt_secret s, ignore_expiration = False\<rparr>"

definition token_config_of :: "security_settings \<Rightarrow> token_config" where
  "token_config_of s = \<lparr>expires_in = jwt_expires_in s, refresh_expires_in = jwt_refresh_expires_in s\<rparr>"

section \<open>Lemmas\<close>

text \<open>What each hook of the start does, seen from the outside.\<close>

lemma run_init_Inr [simp]:
  "run_init lib t env Init_Rollup p = Inr (init_rollup_job t env p)"
  "run_init lib t env Init_Tracing p = Inr (init_tracing t env p)"
  by (simp_all add: run_init_def)

lemma run_init_chain:
  "run_init lib t env Init_Chain p =
     (case fst (start_blockchain lib (Some (blockchain_config env)) (chain_service p)) of
        Inl e \<Rightarrow> Inl e
      | Inr line \<Rightarrow> Inr (log_line line (p\<lparr>chain_service :=
          snd (start_blockchain lib (Some (blockchain_config env)) (chain_service p))\<rparr>)))"
  by (simp add: run_init_def split: prod.split sum.split)

lemma init_tracing_fields [simp]:
  "exporter (init_tracing t env p) = exporter p" "timers (init_tracing t env p) = timers p"
  "next_handle (init_tracing t env p) = next_handle p" "rollup_handle (init_tracing t env p) = rollup_handle p"
  "eviction_handle (init_tracing t env p) = eviction_handle p" "nonce_window (init_tracing t env p) = nonce_window p"
  "chain_service (init_tracing t env p) = chain_service p" "metric_registry (init_tracing t env p) = metric_registry p"
  by (simp_all add: init_tracing_def log_line_def Let_def)

lemma init_rollup_fields [simp]:
  "exporter (init_rollup_job t env p) = exporter p"
  "timers (init_rollup_job t env p) = jsmap_set (next_handle p) (timer_delay (rollup_interval_ms env)) (timers p)"
  "rollup_handle (init_rollup_job t env p) = Some (next_handle p)"
  "eviction_handle (init_rollup_job t env p) = eviction_handle p" "nonce_window (init_rollup_job t env p) = nonce_window p"
  "chain_service (init_rollup_job t env p) = chain_service p" "metric_registry (init_rollup_job t env p) = metric_registry p"
  by (simp_all add: init_rollup_job_def set_interval_def log_line_def Let_def)

lemma log_line_fields [simp]:
  "exporter (log_line l p) = exporter p" "timers (log_line l p) = timers p" "next_handle (log_line l p) = next_handle p"
  "rollup_handle (log_line l p) = rollup_handle p" "eviction_handle (log_line l p) = eviction_handle p"
  "nonce_window (log_line l p) = nonce_window p" "chain_service (log_line l p) = chain_service p"
  "metric_registry (log_line l p) = metric_registry p"
  by (simp_all add: log_line_def)

lemma init_orders:
  assumes "distinct order" "set order = (UNIV :: init_hook set)"
  shows "order \<in> {[Init_Chain, Init_Rollup, Init_Tracing], [Init_Chain, Init_Tracing, Init_Rollup],
    [Init_Rollup, Init_Chain, Init_Tracing], [Init_Rollup, Init_Tracing, Init_Chain],
    [Init_Tracing, Init_Chain, Init_Rollup], [Init_Tracing, Init_Rollup, Init_Chain]}"
proof -
  have u: "(UNIV :: init_hook set) = {Init_Chain, Init_Rollup, Init_Tracing}"
    using init_hook.exhaust by auto
  have "length order = card (UNIV :: init_hook set)" using distinct_card [OF assms(1)] assms(2) by metis
  also have "\<dots> = 3" by (simp add: u)
  finally have "length order = 3" .
  then obtain a b c where abc: "order = [a, b, c]" by (auto simp: numeral_3_eq_3 length_Suc_conv)
  then show ?thesis using assms u by (cases a; cases b; cases c) auto
qed

text \<open>The hooks of the start give the same state in every order but for their lines.\<close>

lemma run_inits_any_order:
  assumes "distinct order" "set order = (UNIV :: init_hook set)"
  shows "(case run_inits lib t env order p of
      Inl e \<Rightarrow> fst (start_blockchain lib (Some (blockchain_config env)) (chain_service p)) = Inl e
    | Inr q \<Rightarrow> (\<exists>line. start_blockchain lib (Some (blockchain_config env)) (chain_service p) = (Inr line, chain_service q)) \<and>
        exporter q = exporter p \<and> eviction_handle q = eviction_handle p \<and> nonce_window q = nonce_window p \<and>
        metric_registry q = metric_registry p \<and> rollup_handle q = Some (next_handle p) \<and>
        timers q = jsmap_set (next_handle p) (timer_delay (rollup_interval_ms env)) (timers p))"
  using init_orders [OF assms]
  by (cases "start_blockchain lib (Some (blockchain_config env)) (chain_service p)"; cases "fst (start_blockchain lib (Some (blockchain_config env)) (chain_service p))")
    (elim insertE; simp add: run_init_chain attempt_def)+

lemma start_blockchain_succeeds:
  assumes "start_blockchain lib (Some c) s = (Inr line, s')"
  shows "\<exists>a. key_address lib (private_key_setting c) = Inr a \<and> get_wallet_address s' = Inr a \<and> provider s' \<noteq> None"
proof -
  have s': "s' = snd (start_blockchain lib (Some c) s)" using assms by simp
  obtain a where "key_address lib (private_key_setting c) = Inr a"
    using assms by (cases "key_address lib (private_key_setting c)") (simp_all add: start_blockchain_def setting_or_def Let_def)
  then show ?thesis by (simp add: s' start_blockchain_def setting_or_def Let_def get_wallet_address_def)
qed

text \<open>Destroying is idempotent, so that its order does not matter either.\<close>

lemma jsmap_filter_filter: "jsmap_filter P (jsmap_filter Q m) = jsmap_filter (\<lambda>k v. Q k v \<and> P k v) m"
  by (auto simp: jsmap_filter_def intro!: filter_cong)

lemma stop_blockchain_twice [simp]: "stop_blockchain (stop_blockchain s) = stop_blockchain s"
  by (simp add: stop_blockchain_def)

lemma fold_destroy:
  "timers (fold run_destroy order p) =
     jsmap_filter (\<lambda>k d. \<not> (Destroy_Rollup \<in> set order \<and> rollup_handle p = Some k) \<and>
       \<not> (Destroy_Nonces \<in> set order \<and> eviction_handle p = Some k)) (timers p) \<and>
   chain_service (fold run_destroy order p) =
     (if Destroy_Chain \<in> set order then stop_blockchain (chain_service p) else chain_service p) \<and>
   (Destroy_Metrics \<in> set order \<longrightarrow> registered (metric_registry (fold run_destroy order p)) = []) \<and>
   (registered (metric_registry p) = [] \<longrightarrow> registered (metric_registry (fold run_destroy order p)) = []) \<and>
   exporter (fold run_destroy order p) = exporter p \<and> process_log (fold run_destroy order p) = process_log p"
proof (induction order arbitrary: p)
  case Nil
  show ?case by (simp add: jsmap_filter_def)
next
  case (Cons h order)
  show ?case
    using Cons.IH [of "run_destroy h p"]
    by (cases h; cases "rollup_handle p"; cases "eviction_handle p")
      (auto simp: run_destroy_def destroy_rollup_job_def destroy_nonce_store_def clear_interval_def on_module_destroy_def
        jsmap_filter_filter conj_ac intro!: arg_cong [where f = "\<lambda>P. jsmap_filter P (timers p)"])
qed

section \<open>Properties\<close>



text \<open>
  A run of the job that fails stops at the timer: it is counted as a failure, logged once, and the
  next run starts as if nothing had happened; every run is counted exactly once.
\<close>

lemma rollup_tick_counted:
  assumes "rollup_tick repo now reference w = (ls, w')"
  shows "seen_nonces w' = seen_nonces w \<and> run_incs (metrics w') = run_incs (metrics w) @ [if ls = [] then ''success'' else ''failure''] \<and>
    (ls \<noteq> [] \<longrightarrow> ls = [''Hourly metering rollup failed''] \<and> last_success (metrics w') = last_success (metrics w))"
  using assms
  by (cases "rollup repo reference (outside w)"; cases "fst (rollup repo reference (outside w))")
    (auto simp: rollup_tick_def run_hourly_rollup_def io_catch_def io_bind_def on_outside_def record_rollup_run_def Let_def)

text \<open>
  Tokens are verified with the secret they are signed with, expired ones are refused, and in production
  that secret is the configured one.
\<close>

lemma tokens_share_secret:
  assumes "security_config production env = Inr cfg"
  shows "signing_secret (jwt_module_options cfg) = verifying_secret (jwt_strategy_options cfg) \<and>
    \<not> ignore_expiration (jwt_strategy_options cfg) \<and> signing_secret (jwt_module_options cfg) \<noteq> [] \<and>
    (production \<longrightarrow> env ''JWT_SECRET'' = Some (signing_secret (jwt_module_options cfg))) \<and>
    expires_in (token_config_of cfg) = default_expiry (jwt_module_options cfg)"
  using assms
  by (auto simp: jwt_module_options_def jwt_strategy_options_def token_config_of_def security_config_def required_def
      security_settings_of_def split: option.splits if_splits)

end
