(* ===== verification/Json_Parse.thy ===== *)
theory Json_Parse
  imports Json
begin

text \<open>
  \<open>JSON.parse\<close> and the indented form of \<open>JSON.stringify\<close>: the reader of the language's library over the
  same strings as \<open>Json\<close>, and the theorem that it reads back what either form of the printer wrote.
  The text the language prints for the number a literal denotes is a parameter. An escape above
  U+00FF denotes no character of the model and is refused.
\<close>

section \<open>The reader\<close>

definition json_space :: "char \<Rightarrow> bool" where
  "json_space c \<longleftrightarrow> c \<in> {CHR '' '', CHR 0x09, CHR 0x0A, CHR 0x0D}"

definition skip_space :: "string \<Rightarrow> string" where
  "skip_space s = dropWhile json_space s"

definition hex_digit_value :: "char \<Rightarrow> nat option" where
  "hex_digit_value c =
     (if is_digit c then Some (of_char c - 48)
      else if char_in CHR ''a'' CHR ''f'' c then Some (of_char c - 87)
      else if char_in CHR ''A'' CHR ''F'' c then Some (of_char c - 55) else None)"

text \<open>The character of four hexadecimal digits.\<close>

definition unicode_escape :: "char \<Rightarrow> char \<Rightarrow> char \<Rightarrow> char \<Rightarrow> char option" where
  "unicode_escape a b c d =
     (case (hex_digit_value a, hex_digit_value b, hex_digit_value c, hex_digit_value d) of
        (Some 0, Some 0, Some x, Some y) \<Rightarrow> Some (char_of (16 * x + y))
      | _ \<Rightarrow> None)"

definition simple_escape :: "char \<Rightarrow> char option" where
  "simple_escape e =
     (if e \<in> {CHR 0x22, CHR 0x5C, CHR ''/''} then Some e
      else if e = CHR ''b'' then Some (CHR 0x08) else if e = CHR ''t'' then Some (CHR 0x09)
      else if e = CHR ''n'' then Some (CHR 0x0A) else if e = CHR ''f'' then Some (CHR 0x0C)
      else if e = CHR ''r'' then Some (CHR 0x0D) else None)"

definition consed :: "char option \<Rightarrow> (string \<times> string) option \<Rightarrow> (string \<times> string) option" where
  "consed c r = (case (c, r) of (Some x, Some (t, rest)) \<Rightarrow> Some (x # t, rest) | _ \<Rightarrow> None)"

text \<open>The rest of a text whose opening quote has been read, and what follows its closing quote.\<close>

fun read_text :: "string \<Rightarrow> (string \<times> string) option" where
  "read_text [] = None"
| "read_text (c # cs) =
     (if c = CHR 0x22 then Some ([], cs)
      else if c = CHR 0x5C then
        (case cs of
           [] \<Rightarrow> None
         | e # ds \<Rightarrow>
             if e = CHR ''u'' then
               (case ds of w # x # y # z # es \<Rightarrow> consed (unicode_escape w x y z) (read_text es) | _ \<Rightarrow> None)
             else consed (simple_escape e) (read_text ds))
      else if of_char c < (32::nat) then None
      else consed (Some c) (read_text cs))"

text \<open>A number of the grammar: sign, integer part without leading zeros, fraction, exponent.\<close>

definition read_exponent :: "string \<Rightarrow> bool" where
  "read_exponent s =
     (case s of
        [] \<Rightarrow> True
      | c # cs \<Rightarrow> c \<in> {CHR ''e'', CHR ''E''} \<and>
          (let ds = (case cs of [] \<Rightarrow> [] | d # es \<Rightarrow> if d \<in> {CHR ''+'', CHR ''-''} then es else cs)
           in ds \<noteq> [] \<and> list_all is_digit ds))"

definition number_literal :: "string \<Rightarrow> bool" where
  "number_literal s =
     (let u = (case s of [] \<Rightarrow> [] | c # cs \<Rightarrow> if c = CHR ''-'' then cs else s);
          ds = takeWhile is_digit u;
          after = dropWhile is_digit u
      in ds \<noteq> [] \<and> (hd ds \<noteq> CHR ''0'' \<or> ds = ''0'') \<and>
         (case after of
            [] \<Rightarrow> True
          | c # cs \<Rightarrow>
              if c = CHR ''.'' then takeWhile is_digit cs \<noteq> [] \<and> read_exponent (dropWhile is_digit cs)
              else read_exponent after))"

definition literal_char :: "char \<Rightarrow> bool" where
  "literal_char c \<longleftrightarrow> is_number_char c \<or> c = CHR ''E''"

definition read_number :: "(string \<Rightarrow> js_number) \<Rightarrow> string \<Rightarrow> (json \<times> string) option" where
  "read_number num s =
     (let t = takeWhile literal_char s
      in if number_literal t then Some (JNum (num t), dropWhile literal_char s) else None)"

definition read_word :: "string \<Rightarrow> json \<Rightarrow> string \<Rightarrow> (json \<times> string) option" where
  "read_word w v s = (if take (length w) s = w then Some (v, drop (length w) s) else None)"

definition object_of :: "(string \<times> json) list \<Rightarrow> (string \<times> json) list" where
  "object_of ps = foldl (\<lambda>m p. own_set (fst p) (snd p) m) [] ps"

text \<open>The recursion over the nesting takes fuel; \<open>parse_json\<close> gives it enough for the text.\<close>

fun read_value :: "(string \<Rightarrow> js_number) \<Rightarrow> nat \<Rightarrow> string \<Rightarrow> (json \<times> string) option"
  and read_elements :: "(string \<Rightarrow> js_number) \<Rightarrow> nat \<Rightarrow> string \<Rightarrow> (json list \<times> string) option"
  and read_members :: "(string \<Rightarrow> js_number) \<Rightarrow> nat \<Rightarrow> string \<Rightarrow> ((string \<times> json) list \<times> string) option" where
  "read_value num 0 s = None"
| "read_value num (Suc n) s =
     (case skip_space s of
        [] \<Rightarrow> None
      | c # cs \<Rightarrow>
          if c = CHR 0x22 then map_option (\<lambda>(t, r). (JStr t, r)) (read_text cs)
          else if c = CHR ''['' then
            (if take 1 (skip_space cs) = '']'' then Some (JArr [], drop 1 (skip_space cs))
             else map_option (\<lambda>(xs, r). (JArr xs, r)) (read_elements num n cs))
          else if c = CHR ''{'' then
            (if take 1 (skip_space cs) = ''}'' then Some (JObj [], drop 1 (skip_space cs))
             else map_option (\<lambda>(ps, r). (JObj (object_of ps), r)) (read_members num n cs))
          else if c = CHR ''n'' then read_word ''null'' JNull (c # cs)
          else if c = CHR ''t'' then read_word ''true'' (JBool True) (c # cs)
          else if c = CHR ''f'' then read_word ''false'' (JBool False) (c # cs)
          else read_number num (c # cs))"
| "read_elements num 0 s = None"
| "read_elements num (Suc n) s =
     (case read_value num n s of
        None \<Rightarrow> None
      | Some (v, r) \<Rightarrow>
          (case skip_space r of
             [] \<Rightarrow> None
           | c # cs \<Rightarrow>
               if c = CHR '']'' then Some ([v], cs)
               else if c = CHR '','' then map_option (\<lambda>(xs, q). (v # xs, q)) (read_elements num n cs)
               else None))"
| "read_members num 0 s = None"
| "read_members num (Suc n) s =
     (case skip_space s of
        [] \<Rightarrow> None
      | c # cs \<Rightarrow>
          if c = CHR 0x22 then
            (case read_text cs of
               None \<Rightarrow> None
             | Some (k, r) \<Rightarrow>
                 (case skip_space r of
                    [] \<Rightarrow> None
                  | d # ds \<Rightarrow>
                      if d = CHR '':'' then
                        (case read_value num n ds of
                           None \<Rightarrow> None
                         | Some (v, q) \<Rightarrow>
                             (case skip_space q of
                                [] \<Rightarrow> None
                              | e # es \<Rightarrow>
                                  if e = CHR ''}'' then Some ([(k, v)], es)
                                  else if e = CHR '','' then
                                    map_option (\<lambda>(ps, z). ((k, v) # ps, z)) (read_members num n es)
                                  else None))
                      else None))
          else None)"

declare read_text.simps(2) [simp del] read_value.simps(2) [simp del] read_elements.simps(2) [simp del] read_members.simps(2) [simp del]

text \<open>\<open>JSON.parse\<close>: \<open>None\<close> is the thrown \<open>SyntaxError\<close>.\<close>

definition parse_json :: "(string \<Rightarrow> js_number) \<Rightarrow> string \<Rightarrow> json option" where
  "parse_json num s =
     (case read_value num (2 * length s + 1) s of
        Some (v, r) \<Rightarrow> if skip_space r = [] then Some v else None
      | None \<Rightarrow> None)"

section \<open>The printer with indentation\<close>

text \<open>\<open>JSON.stringify(v, null, gap)\<close> inside \<open>level\<close> brackets; with no gap this is \<open>stringify\<close>.\<close>

definition new_line :: "nat \<Rightarrow> nat \<Rightarrow> string" where
  "new_line gap level = (if gap = 0 then [] else CHR 0x0A # replicate (gap * level) CHR '' '')"

fun indented :: "nat \<Rightarrow> nat \<Rightarrow> json \<Rightarrow> string" where
  "indented gap level (JArr xs) =
     (if xs = [] then ''[]''
      else ''['' @ new_line gap (level + 1) @
        js_join ('','' @ new_line gap (level + 1)) (map (indented gap (level + 1)) xs) @ new_line gap level @ '']'')"
| "indented gap level (JObj ps) =
     (if ps = [] then ''{}''
      else ''{'' @ new_line gap (level + 1) @
        js_join ('','' @ new_line gap (level + 1))
          (map (\<lambda>p. json_quote (fst p) @ '':'' @ (if gap = 0 then [] else '' '') @ indented gap (level + 1) (snd p)) ps) @
        new_line gap level @ ''}'')"
| "indented gap level v = stringify v"

section \<open>Texts\<close>

lemma hex_digit_value_digit: "n < 16 \<Longrightarrow> hex_digit_value (hex_digit n) = Some n"
proof -
  have "\<forall>n < 16. hex_digit_value (hex_digit n) = Some n" by code_simp
  then show "n < 16 \<Longrightarrow> hex_digit_value (hex_digit n) = Some n" by blast
qed

lemma read_text_escape: "read_text (json_escape c @ s) = consed (Some c) (read_text s)"
proof -
  have zero: "hex_digit_value (CHR ''0'') = Some 0" by code_simp
  have "unicode_escape (CHR ''0'') (CHR ''0'') (hex_digit (of_char c div 16)) (hex_digit (of_char c mod 16)) = Some c"
    if "of_char c < (32::nat)"
    using that by (simp add: unicode_escape_def zero hex_digit_value_digit)
  then show ?thesis by (simp add: json_escape_def read_text.simps(2) simple_escape_def)
qed

lemma read_text_quote: "read_text (concat (map json_escape t) @ CHR 0x22 # r) = Some (t, r)"
  by (induction t) (simp_all add: read_text_escape read_text.simps(2) consed_def)

lemma consed_Some: "consed c p = Some (t, r) \<longleftrightarrow> (\<exists>x u. c = Some x \<and> p = Some (u, r) \<and> t = x # u)"
  by (auto simp: consed_def split: option.split)

lemma read_text_shorter: "read_text s = Some (t, r) \<Longrightarrow> length r < length s"
proof (induction s arbitrary: t r rule: read_text.induct)
  case (2 c cs)
  then show ?case
    by (auto simp: read_text.simps(2) consed_Some split: if_splits list.splits) fastforce+
qed simp

section \<open>Fuel\<close>

lemma skip_space_shorter: "length (skip_space s) \<le> length s"
  by (simp add: skip_space_def length_dropWhile_le)

lemma skip_space_ConsD: "skip_space s = c # cs \<Longrightarrow> length cs < length s"
  using skip_space_shorter [of s] by simp

lemma read_word_shorter: "read_word w v s = Some (x, r) \<Longrightarrow> w \<noteq> [] \<Longrightarrow> length r < length s"
  by (cases s) (auto simp: read_word_def split: if_splits)

lemma read_number_shorter:
  assumes "read_number num s = Some (x, r)"
  shows "length r < length s"
proof -
  have "number_literal (takeWhile literal_char s)" and r: "r = dropWhile literal_char s"
    using assms by (auto simp: read_number_def Let_def split: if_splits)
  then have "takeWhile literal_char s \<noteq> []" by (auto simp: number_literal_def)
  then show ?thesis using r by (cases s) (auto simp: length_dropWhile_le le_imp_less_Suc split: if_splits)
qed

text \<open>The cases of a value that take no fuel, and those that do.\<close>

definition read_leaf :: "(string \<Rightarrow> js_number) \<Rightarrow> char \<Rightarrow> string \<Rightarrow> (json \<times> string) option" where
  "read_leaf num c cs =
     (if c = CHR 0x22 then map_option (\<lambda>(t, r). (JStr t, r)) (read_text cs)
      else if c = CHR ''['' then Some (JArr [], drop 1 (skip_space cs))
      else if c = CHR ''{'' then Some (JObj [], drop 1 (skip_space cs))
      else if c = CHR ''n'' then read_word ''null'' JNull (c # cs)
      else if c = CHR ''t'' then read_word ''true'' (JBool True) (c # cs)
      else if c = CHR ''f'' then read_word ''false'' (JBool False) (c # cs)
      else read_number num (c # cs))"

lemma read_value_step:
  "skip_space s = c # cs \<Longrightarrow> read_value num (Suc n) s =
     (if c = CHR ''['' \<and> take 1 (skip_space cs) \<noteq> '']'' then map_option (\<lambda>(xs, r). (JArr xs, r)) (read_elements num n cs)
      else if c = CHR ''{'' \<and> take 1 (skip_space cs) \<noteq> ''}'' then map_option (\<lambda>(ps, r). (JObj (object_of ps), r)) (read_members num n cs)
      else read_leaf num c cs)"
  by (simp add: read_value.simps(2) read_leaf_def)

lemma read_leaf_shorter:
  assumes "read_leaf num c cs = Some (v, r)"
  shows "length r \<le> length cs"
proof -
  have "length (drop 1 (skip_space cs)) \<le> length cs" using skip_space_shorter [of cs] by simp
  moreover have "length r \<le> length cs" if "read_word w x (c # cs) = Some (v, r)" "w \<noteq> []" for w x
    using read_word_shorter [OF that] by simp
  moreover have "length r \<le> length cs" if "read_number num (c # cs) = Some (v, r)"
    using read_number_shorter [OF that] by simp
  moreover have "length r \<le> length cs" if "read_text cs = Some (t, r)" for t
    using read_text_shorter [OF that] by simp
  ultimately show ?thesis
    using assms unfolding read_leaf_def by (simp split: if_splits) (auto simp del: read_text.simps)
qed

lemma enough_fuel: "(m :: nat) \<ge> k + 1 \<Longrightarrow> \<exists>j. m = Suc j \<and> j \<ge> k"
  by (cases m) auto

text \<open>
  What is read with some fuel is read with all that is at least twice the text's length and a little
  more: the fuel never decides the result of \<open>parse_json\<close>.
\<close>

lemma read_fuel:
  "read_value num n s = Some (v, r) \<Longrightarrow> length r < length s \<and> (\<forall>m \<ge> 2 * length s + 1. read_value num m s = Some (v, r))"
  "read_elements num n s = Some (xs, r) \<Longrightarrow> length r < length s \<and> (\<forall>m \<ge> 2 * length s + 2. read_elements num m s = Some (xs, r))"
  "read_members num n s = Some (ps, r) \<Longrightarrow> length r < length s \<and> (\<forall>m \<ge> 2 * length s + 2. read_members num m s = Some (ps, r))"
proof (induction num n s and num n s and num n s arbitrary: v r and xs r and ps r
    rule: read_value_read_elements_read_members.induct)
  case (2 num n s)
  then obtain c cs where sk: "skip_space s = c # cs" by (cases "skip_space s") (simp_all add: read_value.simps(2))
  note step = read_value_step [OF sk]
  have len: "length cs < length s" using skip_space_ConsD [OF sk] .
  consider (arr) xs where "c = CHR ''[''" "take 1 (skip_space cs) \<noteq> '']''" "read_elements num n cs = Some (xs, r)" "v = JArr xs"
    | (obj) ps where "c = CHR ''{''" "take 1 (skip_space cs) \<noteq> ''}''" "read_members num n cs = Some (ps, r)" "v = JObj (object_of ps)"
    | (leaf) "\<not> (c = CHR ''['' \<and> take 1 (skip_space cs) \<noteq> '']'')" "\<not> (c = CHR ''{'' \<and> take 1 (skip_space cs) \<noteq> ''}'')"
        "read_leaf num c cs = Some (v, r)"
    using 2(3) unfolding step by (auto split: if_splits)
  then show ?case
  proof cases
    case arr
    have ih: "length r < length cs" "\<And>m. m \<ge> 2 * length cs + 2 \<Longrightarrow> read_elements num m cs = Some (xs, r)"
      using 2(1) [OF sk _ _ _ arr(3)] arr(1,2) by auto
    have "read_value num m s = Some (v, r)" if m: "m \<ge> 2 * length s + 1" for m
    proof -
      obtain j where "m = Suc j" "j \<ge> 2 * length cs + 2" using enough_fuel [OF m] len by auto
      then show ?thesis using ih(2) [of j] arr by (simp add: step)
    qed
    then show ?thesis using ih(1) len by simp
  next
    case obj
    have ih: "length r < length cs" "\<And>m. m \<ge> 2 * length cs + 2 \<Longrightarrow> read_members num m cs = Some (ps, r)"
      using 2(2) [OF sk _ _ _ _ obj(3)] obj(1,2) by auto
    have "read_value num m s = Some (v, r)" if m: "m \<ge> 2 * length s + 1" for m
    proof -
      obtain j where "m = Suc j" "j \<ge> 2 * length cs + 2" using enough_fuel [OF m] len by auto
      then show ?thesis using ih(2) [of j] obj by (simp add: step)
    qed
    then show ?thesis using ih(1) len by simp
  next
    case leaf
    have "read_value num m s = Some (v, r)" if "m \<ge> 2 * length s + 1" for m
      using enough_fuel [OF that] leaf by (auto simp: step)
    then show ?thesis using read_leaf_shorter [OF leaf(3)] len by simp
  qed
next
  case (4 num n s)
  obtain v q c cs where v: "read_value num n s = Some (v, q)" and q: "skip_space q = c # cs"
    using 4(3) by (auto simp: read_elements.simps(2) split: option.splits list.splits)
  have ihv: "length q < length s" "\<And>m. m \<ge> 2 * length s + 1 \<Longrightarrow> read_value num m s = Some (v, q)"
    using 4(1) [OF v] by auto
  have len: "length cs + 2 \<le> length s" using skip_space_ConsD [OF q] ihv(1) by simp
  consider "c = CHR '']''" "xs = [v]" "r = cs"
    | ys where "c = CHR '',''" "read_elements num n cs = Some (ys, r)" "xs = v # ys"
    using 4(3) v q by (auto simp: read_elements.simps(2) split: if_splits)
  then show ?case
  proof cases
    case 1
    have "read_elements num m s = Some (xs, r)" if "m \<ge> 2 * length s + 2" for m
      using that ihv(2) [of "m - 1"] q 1 by (cases m) (auto simp: read_elements.simps(2))
    then show ?thesis using 1 len by simp
  next
    case 2
    have ih: "length r < length cs" "\<And>m. m \<ge> 2 * length cs + 2 \<Longrightarrow> read_elements num m cs = Some (ys, r)"
      using 4(2) [OF v refl q _ _ 2(2)] 2(1) by auto
    have "read_elements num m s = Some (xs, r)" if "m \<ge> 2 * length s + 2" for m
      using that ihv(2) [of "m - 1"] ih(2) [of "m - 1"] len q 2 by (cases m) (auto simp: read_elements.simps(2))
    then show ?thesis using ih(1) len by simp
  qed
next
  case (6 num n s)
  obtain cs k r1 ds v q c es where s: "skip_space s = CHR 0x22 # cs" and k: "read_text cs = Some (k, r1)"
    and r1: "skip_space r1 = CHR '':'' # ds" and v: "read_value num n ds = Some (v, q)" and q: "skip_space q = c # es"
    using 6(3) by (auto simp: read_members.simps(2) split: option.splits list.splits if_splits)
  have short: "length ds < length s"
    using skip_space_ConsD [OF s] read_text_shorter [OF k] skip_space_ConsD [OF r1] by simp
  have ihv: "length q < length ds" "\<And>m. m \<ge> 2 * length ds + 1 \<Longrightarrow> read_value num m ds = Some (v, q)"
    using 6(1) [OF s refl k refl r1 refl v] by auto
  have len: "length es + 2 \<le> length s" using skip_space_ConsD [OF q] ihv(1) short by simp
  consider "c = CHR ''}''" "ps = [(k, v)]" "r = es"
    | qs where "c = CHR '',''" "read_members num n es = Some (qs, r)" "ps = (k, v) # qs"
    using 6(3) s k r1 v q by (auto simp: read_members.simps(2) split: if_splits)
  then show ?case
  proof cases
    case 1
    have "read_members num m s = Some (ps, r)" if "m \<ge> 2 * length s + 2" for m
      using that ihv(2) [of "m - 1"] short s k r1 q 1 by (cases m) (auto simp: read_members.simps(2))
    then show ?thesis using 1 len by simp
  next
    case 2
    have ih: "length r < length es" "\<And>m. m \<ge> 2 * length es + 2 \<Longrightarrow> read_members num m es = Some (qs, r)"
      using 6(2) [OF s refl k refl r1 refl v refl q _ _ 2(2)] 2(1) by auto
    have "read_members num m s = Some (ps, r)" if "m \<ge> 2 * length s + 2" for m
      using that ihv(2) [of "m - 1"] ih(2) [of "m - 1"] short len s k r1 q 2 by (cases m) (auto simp: read_members.simps(2))
    then show ?thesis using ih(1) len by simp
  qed
qed simp_all

section \<open>Reading back\<close>

text \<open>The values that survive: numbers as the language prints them, members in enumeration order.\<close>

fun readable :: "(string \<Rightarrow> js_number) \<Rightarrow> json \<Rightarrow> bool" where
  "readable num (JNum n) = (number_literal n \<and> list_all literal_char n \<and> num n = n)"
| "readable num (JArr xs) = list_all (readable num) xs"
| "readable num (JObj ps) = (object_of ps = ps \<and> list_all (\<lambda>p. readable num (snd p)) ps)"
| "readable num _ = True"

text \<open>With some fuel, the text is read as the value, and this is what is left.\<close>

definition reads :: "(string \<Rightarrow> js_number) \<Rightarrow> string \<Rightarrow> json \<Rightarrow> string \<Rightarrow> bool" where
  "reads num s v r \<longleftrightarrow> (\<exists>n. read_value num n s = Some (v, r))"

definition reads_elements :: "(string \<Rightarrow> js_number) \<Rightarrow> string \<Rightarrow> json list \<Rightarrow> string \<Rightarrow> bool" where
  "reads_elements num s xs r \<longleftrightarrow> (\<exists>n. read_elements num n s = Some (xs, r))"

definition reads_members :: "(string \<Rightarrow> js_number) \<Rightarrow> string \<Rightarrow> (string \<times> json) list \<Rightarrow> string \<Rightarrow> bool" where
  "reads_members num s ps r \<longleftrightarrow> (\<exists>n. read_members num n s = Some (ps, r))"

lemma reads_enough:
  "reads num s v r \<Longrightarrow> m \<ge> 2 * length s + 1 \<Longrightarrow> read_value num m s = Some (v, r)"
  "reads_elements num s xs r \<Longrightarrow> m \<ge> 2 * length s + 2 \<Longrightarrow> read_elements num m s = Some (xs, r)"
  "reads_members num s ps r \<Longrightarrow> m \<ge> 2 * length s + 2 \<Longrightarrow> read_members num m s = Some (ps, r)"
  unfolding reads_def reads_elements_def reads_members_def
  by (blast dest: read_fuel(1)) (blast dest: read_fuel(2), blast dest: read_fuel(3))

lemma skip_space_spaces [simp]: "list_all json_space w \<Longrightarrow> skip_space (w @ s) = skip_space s"
  by (simp add: skip_space_def list_all_iff)

lemma skip_space_stop [simp]: "\<not> json_space c \<Longrightarrow> skip_space (c # s) = c # s"
  by (simp add: skip_space_def)

lemma json_punctuation [simp]:
  "\<not> json_space CHR '',''" "\<not> json_space CHR '']''" "\<not> json_space CHR ''}''" "\<not> json_space CHR '':''"
  "\<not> json_space CHR 0x22" "\<not> json_space CHR ''[''" "\<not> json_space CHR ''{''" "json_space CHR '' ''" "json_space CHR 0x0A"
  by (simp_all add: json_space_def)

lemma read_skip: "read_value num n (skip_space s) = read_value num n s" "read_members num n (skip_space s) = read_members num n s"
proof -
  have "skip_space (skip_space s) = skip_space s" by (simp add: skip_space_def)
  then show "read_value num n (skip_space s) = read_value num n s" "read_members num n (skip_space s) = read_members num n s"
    by (cases n; simp add: read_value.simps(2) read_members.simps(2))+
qed

lemma reads_spaces: "list_all json_space w \<Longrightarrow> reads num s v r \<Longrightarrow> reads num (w @ s) v r"
  unfolding reads_def by (metis read_skip(1) skip_space_spaces)

lemma reads_text: "reads num (json_quote t @ r) (JStr t) r"
  unfolding reads_def by (rule exI [of _ 1]) (simp add: read_value.simps(2) json_quote_def read_text_quote)

lemma reads_array:
  assumes "reads_elements num cs xs r"
  shows "reads num (CHR ''['' # cs) (JArr xs) r"
proof -
  obtain n where n: "read_elements num (Suc n) cs = Some (xs, r)"
    using reads_enough(2) [OF assms, of "Suc (2 * length cs + 2)"] by auto
  have "take 1 (skip_space cs) \<noteq> '']''"
  proof
    assume "take 1 (skip_space cs) = '']''"
    then obtain r' where "skip_space cs = CHR '']'' # r'" by (cases "skip_space cs") auto
    then have "read_value num n cs = None"
      by (cases n) (simp_all add: read_value.simps(2) read_number_def number_literal_def literal_char_def is_number_char_def
          is_digit_def char_in_def)
    with n show False by (simp add: read_elements.simps(2))
  qed
  then have "read_value num (Suc (Suc n)) (CHR ''['' # cs) = Some (JArr xs, r)" using n by (simp add: read_value.simps(2))
  then show ?thesis unfolding reads_def by blast
qed

lemma reads_object:
  assumes "reads_members num cs ps r"
  shows "reads num (CHR ''{'' # cs) (JObj (object_of ps)) r"
proof -
  obtain n where n: "read_members num (Suc n) cs = Some (ps, r)"
    using reads_enough(3) [OF assms, of "Suc (2 * length cs + 2)"] by auto
  then have "take 1 (skip_space cs) \<noteq> ''}''"
    by (cases "skip_space cs") (auto simp: read_members.simps(2))
  then have "read_value num (Suc (Suc n)) (CHR ''{'' # cs) = Some (JObj (object_of ps), r)"
    using n by (simp add: read_value.simps(2))
  then show ?thesis unfolding reads_def by blast
qed

lemma reads_last_element:
  assumes "reads num s v q" and "skip_space q = CHR '']'' # r"
  shows "reads_elements num s [v] r"
proof -
  from assms(1) obtain n where "read_value num n s = Some (v, q)" unfolding reads_def by blast
  then have "read_elements num (Suc n) s = Some ([v], r)" using assms(2) by (simp add: read_elements.simps(2))
  then show ?thesis unfolding reads_elements_def by blast
qed

lemma reads_next_element:
  assumes "reads num s v (CHR '','' # q)" and "reads_elements num q xs r"
  shows "reads_elements num s (v # xs) r"
proof -
  let ?n = "2 * length s + 2 * length q + 2"
  have "read_value num ?n s = Some (v, CHR '','' # q)" "read_elements num ?n q = Some (xs, r)"
    using reads_enough(1) [OF assms(1), of ?n] reads_enough(2) [OF assms(2), of ?n] by simp_all
  then have "read_elements num (Suc ?n) s = Some (v # xs, r)" by (simp add: read_elements.simps(2))
  then show ?thesis unfolding reads_elements_def by blast
qed

lemma reads_last_member:
  assumes "reads num s v q" and "skip_space q = CHR ''}'' # r"
  shows "reads_members num (json_quote k @ CHR '':'' # s) [(k, v)] r"
proof -
  from assms(1) obtain n where "read_value num n s = Some (v, q)" unfolding reads_def by blast
  then have "read_members num (Suc n) (json_quote k @ CHR '':'' # s) = Some ([(k, v)], r)"
    using assms(2) by (simp add: read_members.simps(2) json_quote_def read_text_quote)
  then show ?thesis unfolding reads_members_def by blast
qed

lemma reads_next_member:
  assumes "reads num s v (CHR '','' # q)" and "reads_members num q ps r"
  shows "reads_members num (json_quote k @ CHR '':'' # s) ((k, v) # ps) r"
proof -
  let ?n = "2 * length s + 2 * length q + 2"
  have "read_value num ?n s = Some (v, CHR '','' # q)" "read_members num ?n q = Some (ps, r)"
    using reads_enough(1) [OF assms(1), of ?n] reads_enough(3) [OF assms(2), of ?n] by simp_all
  then have "read_members num (Suc ?n) (json_quote k @ CHR '':'' # s) = Some ((k, v) # ps, r)"
    by (simp add: read_members.simps(2) json_quote_def read_text_quote)
  then show ?thesis unfolding reads_members_def by blast
qed

lemma reads_members_spaces: "list_all json_space w \<Longrightarrow> reads_members num s ps r \<Longrightarrow> reads_members num (w @ s) ps r"
  unfolding reads_members_def by (metis read_skip(2) skip_space_spaces)

text \<open>What may follow a value: no character a number could go on with.\<close>

definition value_end :: "string \<Rightarrow> bool" where
  "value_end s \<longleftrightarrow> s = [] \<or> \<not> literal_char (hd s)"

lemma reads_number:
  assumes "readable num (JNum n)" and "value_end r"
  shows "reads num (n @ r) (JNum n) r"
proof -
  have n: "number_literal n" "list_all literal_char n" "num n = n" using assms(1) by simp_all
  then obtain c cs where c: "n = c # cs" by (cases n) (auto simp: number_literal_def)
  have lc: "literal_char c" using n(2) c by simp
  have stop: "takeWhile literal_char (n @ r) = n" "dropWhile literal_char (n @ r) = r"
    using n(2) assms(2) by (cases r; simp add: list_all_iff value_end_def)+
  have "c \<notin> {CHR 0x22, CHR ''['', CHR ''{'', CHR ''n'', CHR ''t'', CHR ''f''}" "\<not> json_space c"
    using lc by (auto simp: literal_char_def is_number_char_def is_digit_def char_in_def json_space_def)
  then have "read_value num 1 (n @ r) = read_number num (n @ r)" by (simp add: c read_value.simps(2))
  also have "\<dots> = Some (JNum n, r)" using stop n by (simp add: read_number_def)
  finally show ?thesis unfolding reads_def by blast
qed

lemma new_line_spaces [simp]: "list_all json_space (new_line gap level)"
  by (simp add: new_line_def list_all_iff)

lemma value_end_simps [simp]:
  "value_end (CHR '','' # s)" "value_end (CHR '']'' # s)" "value_end (CHR ''}'' # s)"
  "value_end (new_line gap level @ CHR '']'' # s)" "value_end (new_line gap level @ CHR ''}'' # s)"
  by (auto simp: value_end_def new_line_def literal_char_def is_number_char_def is_digit_def char_in_def)

lemma js_join_Cons_append:
  "js_join sep (x # xs) @ e = x @ (if xs = [] then e else sep @ js_join sep xs @ e)"
  by (cases xs) simp_all

lemma reads_elements_join:
  assumes "xs \<noteq> []" and "list_all json_space w"
    and "\<And>x r. x \<in> set xs \<Longrightarrow> value_end r \<Longrightarrow> reads num (f x @ r) x r"
  shows "reads_elements num (w @ js_join (CHR '','' # w) (map f xs) @ new_line gap level @ CHR '']'' # r) xs r"
  using assms
proof (induction xs)
  case (Cons x xs)
  let ?tail = "new_line gap level @ CHR '']'' # r"
  show ?case
  proof (cases "xs = []")
    case True
    have "reads num (w @ f x @ ?tail) x ?tail" by (rule reads_spaces [OF Cons.prems(2) Cons.prems(3)]) simp_all
    then show ?thesis using True by (auto intro: reads_last_element)
  next
    case False
    let ?rest = "w @ js_join (CHR '','' # w) (map f xs) @ ?tail"
    have "reads num (w @ f x @ CHR '','' # ?rest) x (CHR '','' # ?rest)"
      by (rule reads_spaces [OF Cons.prems(2) Cons.prems(3)]) simp_all
    moreover have "reads_elements num ?rest xs r" using Cons False by simp
    ultimately show ?thesis using False by (simp add: js_join_Cons_append reads_next_element)
  qed
qed simp

lemma reads_members_join:
  assumes "ps \<noteq> []" and "list_all json_space w" and "list_all json_space b"
    and "\<And>p r. p \<in> set ps \<Longrightarrow> value_end r \<Longrightarrow> reads num (f (snd p) @ r) (snd p) r"
  shows "reads_members num (w @ js_join (CHR '','' # w) (map (\<lambda>p. json_quote (fst p) @ CHR '':'' # b @ f (snd p)) ps) @
    new_line gap level @ CHR ''}'' # r) ps r"
  using assms
proof (induction ps)
  case (Cons p ps)
  let ?tail = "new_line gap level @ CHR ''}'' # r" and ?f = "\<lambda>p. json_quote (fst p) @ CHR '':'' # b @ f (snd p)"
  obtain k v where p: "p = (k, v)" by (cases p)
  show ?case
  proof (cases "ps = []")
    case True
    have "reads num (b @ f v @ ?tail) v ?tail" using reads_spaces [OF Cons.prems(3) Cons.prems(4) [of p ?tail]] p by simp
    then have "reads_members num (json_quote k @ CHR '':'' # b @ f v @ ?tail) [(k, v)] r" by (rule reads_last_member) simp
    then show ?thesis using True Cons.prems(2) by (simp add: p reads_members_spaces)
  next
    case False
    let ?rest = "w @ js_join (CHR '','' # w) (map ?f ps) @ ?tail"
    have "reads num (b @ f v @ CHR '','' # ?rest) v (CHR '','' # ?rest)"
      using reads_spaces [OF Cons.prems(3) Cons.prems(4) [of p "CHR '','' # ?rest"]] p by simp
    moreover have "reads_members num ?rest ps r" using Cons False by simp
    ultimately have "reads_members num (json_quote k @ CHR '':'' # b @ f v @ CHR '','' # ?rest) ((k, v) # ps) r"
      by (rule reads_next_member)
    then show ?thesis using False Cons.prems(2) by (simp add: p js_join_Cons_append reads_members_spaces)
  qed
qed simp

lemma reads_word:
  "reads num (''null'' @ r) JNull r" "reads num (''true'' @ r) (JBool True) r" "reads num (''false'' @ r) (JBool False) r"
  unfolding reads_def by (rule exI [of _ 1], simp add: read_value.simps(2) skip_space_def json_space_def read_word_def)+

lemma reads_indented: "readable num v \<Longrightarrow> value_end r \<Longrightarrow> reads num (indented gap level v @ r) v r"
proof (induction v arbitrary: level r)
  case (JArr xs)
  show ?case
  proof (cases "xs = []")
    case True
    have "read_value num 1 (''[]'' @ r) = Some (JArr [], r)" by (simp add: read_value.simps(2))
    then show ?thesis using True unfolding reads_def by auto
  next
    case False
    have "reads_elements num (new_line gap (level + 1) @ js_join (CHR '','' # new_line gap (level + 1))
        (map (indented gap (level + 1)) xs) @ new_line gap level @ CHR '']'' # r) xs r"
    proof (rule reads_elements_join [OF False new_line_spaces])
      fix x r assume "x \<in> set xs" "value_end r"
      then show "reads num (indented gap (level + 1) x @ r) x r" using JArr by (simp add: list_all_iff)
    qed
    then show ?thesis using False reads_array by simp
  qed
next
  case (JObj ps)
  show ?case
  proof (cases "ps = []")
    case True
    have "read_value num 1 (''{}'' @ r) = Some (JObj [], r)" by (simp add: read_value.simps(2))
    then show ?thesis using True unfolding reads_def by auto
  next
    case False
    let ?b = "if gap = 0 then [] else '' ''"
    have "reads_members num (new_line gap (level + 1) @ js_join (CHR '','' # new_line gap (level + 1))
        (map (\<lambda>p. json_quote (fst p) @ CHR '':'' # ?b @ indented gap (level + 1) (snd p)) ps) @ new_line gap level @ CHR ''}'' # r) ps r"
    proof (rule reads_members_join [OF False new_line_spaces])
      show "list_all json_space ?b" by simp
      fix p r assume p: "p \<in> set ps" "value_end (r :: string)"
      have "snd p \<in> Basic_BNFs.snds p" by (simp add: snds.simps)
      then show "reads num (indented gap (level + 1) (snd p) @ r) (snd p) r" using JObj p by (simp add: list_all_iff)
    qed
    then have "reads num (CHR ''{'' # new_line gap (level + 1) @ js_join (CHR '','' # new_line gap (level + 1))
        (map (\<lambda>p. json_quote (fst p) @ CHR '':'' # ?b @ indented gap (level + 1) (snd p)) ps) @ new_line gap level @ CHR ''}'' # r)
        (JObj (object_of ps)) r" by (rule reads_object)
    moreover have "object_of ps = ps" using JObj.prems(1) by simp
    ultimately show ?thesis using False by simp
  qed
next
  case (JNum n)
  then show ?case using reads_number [of num n r] by simp
next
  case (JBool b)
  then show ?case using reads_word by (cases b) simp_all
qed (use reads_word reads_text in simp_all)

lemma indented_0: "indented 0 level v = stringify v"
proof (induction v arbitrary: level)
  case (JArr xs)
  have "map (indented 0 (level + 1)) xs = map stringify xs" using JArr by (intro map_cong) simp_all
  then show ?case by (simp only: indented.simps stringify.simps new_line_def) simp
next
  case (JObj ps)
  have "indented 0 (Suc level) (snd p) = stringify (snd p)" if "p \<in> set ps" for p
    using JObj [OF that, of "snd p"] by (simp add: snds.simps)
  then have "map (\<lambda>p. json_quote (fst p) @ CHR '':'' # indented 0 (Suc level) (snd p)) ps =
      map (\<lambda>p. json_quote (fst p) @ CHR '':'' # stringify (snd p)) ps"
    by (intro map_cong) simp_all
  from arg_cong [OF this, of "js_join '',''"] show ?case by (simp add: new_line_def del: map_eq_conv)
qed simp_all

section \<open>Properties\<close>

text \<open>
  Reading is the inverse of printing. A value whose numbers are as the language prints them and
  whose members are in the order in which the language enumerates them is read back from its text,
  whether it was printed with indentation or without, and white space around the text changes nothing.
\<close>

theorem parse_json_reads_back:
  assumes "readable num v" and "list_all json_space w" and "list_all json_space w'"
  shows "parse_json num (w @ indented gap 0 v @ w') = Some v \<and> parse_json num (stringify v) = Some v"
proof -
  have stop: "value_end w'"
    using assms(3) by (cases w') (auto simp: value_end_def json_space_def literal_char_def is_number_char_def is_digit_def char_in_def)
  have "skip_space w' = []" using assms(3) by (simp add: skip_space_def list_all_iff)
  moreover have "reads num (w @ indented gap 0 v @ w') v w'"
    using reads_spaces [OF assms(2) reads_indented [OF assms(1) stop]] .
  moreover have "reads num (stringify v @ []) v []"
    using reads_indented [OF assms(1), of "[]" 0 0] by (simp only: indented_0) (simp add: value_end_def)
  ultimately show ?thesis
    using reads_enough(1) by (force simp: parse_json_def skip_space_def)
qed

definition demo_nested :: json where
  "demo_nested = JObj [(''7'', JArr [JNum ''-0.5'', JNull, JObj []]), ([CHR 0x22, CHR 0x0A], JStr [CHR 0x01, CHR 0xE9]), (''b'', JBool True)]"

theorem parse_json_reads_back_witness:
  "parse_json id (CHR 0x0A # indented 2 0 demo_nested @ '' '') = Some demo_nested \<and>
   parse_json id (stringify demo_nested) = Some demo_nested \<and> parse_json id ''{}x'' = None"
proof -
  have "object_of [(''7'', JArr [JNum ''-0.5'', JNull, JObj []]), ([CHR 0x22, CHR 0x0A], JStr [CHR 0x01, CHR 0xE9]), (''b'', JBool True)] =
      [(''7'', JArr [JNum ''-0.5'', JNull, JObj []]), ([CHR 0x22, CHR 0x0A], JStr [CHR 0x01, CHR 0xE9]), (''b'', JBool True)]"
    by (simp add: object_of_def own_set_def is_array_index_def is_digit_def char_in_def)
  moreover have "number_literal ''-0.5''" by code_simp
  moreover have "list_all literal_char ''-0.5''" by code_simp
  moreover have "object_of [] = []" by (simp add: object_of_def)
  ultimately have "readable id demo_nested" by (simp add: demo_nested_def)
  moreover have "list_all json_space [CHR 0x0A]" "list_all json_space '' ''" by simp_all
  moreover have "parse_json id ''{}x'' = None"
    by (simp add: parse_json_def read_value.simps(2) skip_space_def json_space_def eval_nat_numeral)
  ultimately show ?thesis using parse_json_reads_back [of id demo_nested "[CHR 0x0A]" "'' ''" 2] by simp
qed

end
