(* ===== verification/Deploy.thy ===== *)
theory Deploy
  imports Json_Parse Config
begin

text \<open>
  The deploy script (\<open>scripts/deploy-contracts.ts\<close>), the file it leaves for the address registry
  (\<open>src/src/blockchain/address-registry.ts\<close>), and the data source of the migration command line
  (\<open>src/src/config/data-source.ts\<close>). Files are texts by path; the clock's text and the text of a number
  are parameters. The properties say what a service that starts after a deployment reads from the file,
  and that the command line and the service work on the same database.
\<close>

section \<open>The script\<close>

record file_system =
  directories :: "string set"
  file_text :: "string \<Rightarrow> string option"

definition zero_address :: string where
  "zero_address = ''0x'' @ replicate 40 CHR ''0''"

definition deployment_path :: "network_profile \<Rightarrow> string" where
  "deployment_path net = ''deployments/'' @ network_name net @ ''.json''"

text \<open>A number that is not finite is printed as null.\<close>

definition number_json :: "(rat \<Rightarrow> js_number) \<Rightarrow> rat option \<Rightarrow> json" where
  "number_json number_text n = (case n of None \<Rightarrow> JNull | Some x \<Rightarrow> JNum (number_text x))"

definition deployed_record :: "(rat \<Rightarrow> js_number) \<Rightarrow> env \<Rightarrow> string \<Rightarrow> network_profile \<Rightarrow> json" where
  "deployed_record number_text env now net =
     JObj [(''network'', JStr (network_name net)),
       (''chainId'', number_json number_text (chain_id net)),
       (''AgentRegistry'', JStr (or_default (env ''AGENT_REGISTRY_ADDRESS'') zero_address)),
       (''ServiceCatalog'', JStr (or_default (env ''SERVICE_CATALOG_ADDRESS'') zero_address)),
       (''TariffManager'', JStr (or_default (env ''TARIFF_MANAGER_ADDRESS'') zero_address)),
       (''deployedAt'', JStr now)]"

text \<open>The text of the chain id in the last line is \<open>NaN\<close> for a number that is none.\<close>

definition deploy_main :: "(rat \<Rightarrow> js_number) \<Rightarrow> env \<Rightarrow> string \<Rightarrow> (file_system, string) io" where
  "deploy_main number_text env now fs =
     (case active_network env of
        Inl e \<Rightarrow> (Inl e, fs)
      | Inr net \<Rightarrow>
          (Inr (''Deployed to '' @ network_name net @ '' ('' @
              (case chain_id net of None \<Rightarrow> ''NaN'' | Some x \<Rightarrow> number_text x) @ '')''),
           fs\<lparr>directories := insert ''deployments'' (directories fs),
              file_text := (file_text fs)(deployment_path net \<mapsto> indented 2 0 (deployed_record number_text env now net))\<rparr>))"

text \<open>The script's exit: a failure is printed and makes the exit code 1.\<close>

definition deploy_exit :: "exn + string \<Rightarrow> nat" where
  "deploy_exit r = (case r of Inl e \<Rightarrow> 1 | Inr line \<Rightarrow> 0)"

text \<open>\<open>existsSync\<close> and \<open>JSON.parse(readFileSync(\<dots>))\<close> of the registry.\<close>

definition parsed_file :: "(string \<Rightarrow> js_number) \<Rightarrow> file_system \<Rightarrow> string \<Rightarrow> (exn + json) option" where
  "parsed_file num fs path =
     (case file_text fs path of
        None \<Rightarrow> None
      | Some t \<Rightarrow> Some (case parse_json num t of Some v \<Rightarrow> Inr v | None \<Rightarrow> Inl (Js_Error ''SyntaxError'' ''Unexpected token in JSON'')))"

section \<open>The migration command line\<close>

datatype port = Port_Number int | Port_NaN

record data_source =
  ds_host :: string
  ds_port :: port
  ds_user :: string
  ds_password :: string
  ds_database :: string
  ds_entities :: "string list"
  ds_migrations :: "string list"
  ds_migrations_table :: string

definition migration_data_source :: "env \<Rightarrow> data_source" where
  "migration_data_source env =
     \<lparr>ds_host = or_default (env ''DATABASE_HOST'') ''localhost'',
      ds_port = (case js_parse_int (or_default (env ''DATABASE_PORT'') ''5432'') of Some p \<Rightarrow> Port_Number p | None \<Rightarrow> Port_NaN),
      ds_user = or_default (env ''DATABASE_USER'') ''postgres'',
      ds_password = or_default (env ''DATABASE_PASSWORD'') ''postgres'',
      ds_database = or_default (env ''DATABASE_NAME'') ''agent_db'',
      ds_entities = [''dist/**/*.entity.js''],
      ds_migrations = [''dist/migrations/*.js''],
      ds_migrations_table = ''typeorm_migrations''\<rparr>"

text \<open>The text a setting of the service stands for.\<close>

fun setting_text :: "setting \<Rightarrow> string option" where
  "setting_text (From_Env t) = Some t"
| "setting_text (Default_Text t) = Some t"
| "setting_text (Default_Number n) = None"

section \<open>Properties\<close>

lemma deployed_record_readable:
  assumes "\<And>c. chain_id net = Some c \<Longrightarrow> readable num (JNum (number_text c))"
  shows "readable num (deployed_record number_text env now net)"
proof -
  have "readable num (number_json number_text (chain_id net))"
    using assms by (simp add: number_json_def split: option.split)
  then show ?thesis
    by (simp add: deployed_record_def object_of_def own_set_def is_array_index_def is_digit_def char_in_def)
qed


definition empty_files :: file_system where
  "empty_files = \<lparr>directories = {}, file_text = (\<lambda>_. None)\<rparr>"


text \<open>
  The migrations run where the service will look: the host, the user, the password and the database of
  the command line are the texts of the service's settings, its migrations are recorded in the same table,
  and the ports agree whenever the variable is unset or a plain number.
\<close>

lemma migrations_reach_service_database:
  "setting_text (db_host (database_config env)) = Some (ds_host (migration_data_source env)) \<and>
   setting_text (db_user (database_config env)) = Some (ds_user (migration_data_source env)) \<and>
   setting_text (db_password (database_config env)) = Some (ds_password (migration_data_source env)) \<and>
   setting_text (db_name (database_config env)) = Some (ds_database (migration_data_source env)) \<and>
   (case db_port (database_config env) of
      Default_Number n \<Rightarrow> ds_port (migration_data_source env) = Port_Number n
    | From_Env t \<Rightarrow> (\<forall>p. js_parse_int t = Some p \<longrightarrow> ds_port (migration_data_source env) = Port_Number p)
    | Default_Text t \<Rightarrow> False)"
proof -
  have "js_parse_int ''5432'' = Some 5432" by code_simp
  then show ?thesis
    by (simp add: database_config_def get_setting_def migration_data_source_def or_default_def Let_def split: option.split)
qed

end
