(* ===== verification/App_Modules.thy ===== *)
theory App_Modules
  imports Guards Schema
begin

text \<open>
  How the application is put together: the modules (\<open>src/src/app.module.ts\<close>, the \<open>*.module.ts\<close> files,
  \<open>app.middleware.module.ts\<close>) with their imports, providers and exports, and what the constructors ask
  for. The framework's rule is that a class can be given what its own module provides, what an imported
  module exports, and what a global module exports. What the libraries' modules provide is a parameter
  with a documented minimum. The properties say that the application can be constructed, that the
  services with state exist once, and that its entities have tables and its controllers are the route
  table's.
\<close>

section \<open>Modules\<close>

datatype import = Program_Module string | Entities "string list" | Library_Module string

record nest_module =
  unit_name :: string
  global_module :: bool
  module_imports :: "import list"
  module_controllers :: "string list"
  module_providers :: "(string \<times> string) list"
  module_middlewares :: "string list"
  module_exports :: "string list"

text \<open>A class that is its own token.\<close>

definition classes :: "string list \<Rightarrow> (string \<times> string) list" where
  "classes cs = map (\<lambda>c. (c, c)) cs"

definition app_module :: nest_module where
  "app_module =
     \<lparr>unit_name = ''AppModule'', global_module = False,
      module_imports =
        [Program_Module ''AppMiddlewareModule'', Library_Module ''ConfigModule'', Library_Module ''TypeOrmModule'',
         Library_Module ''ThrottlerModule'', Program_Module ''LoggingModule'', Program_Module ''MetricsModule'',
         Program_Module ''TracingModule'', Program_Module ''AuthModule'', Program_Module ''BlockchainModule'',
         Program_Module ''IdentityModule'', Program_Module ''CatalogModule'', Program_Module ''PricingModule'',
         Program_Module ''MeteringModule'', Program_Module ''ProtocolModule'', Program_Module ''PolicyModule'',
         Program_Module ''HealthModule''],
      module_controllers = [],
      module_providers =
        [(''APP_GUARD'', ''ThrottlerGuard''), (''APP_GUARD'', ''ApiKeyGuard''), (''APP_GUARD'', ''JwtAuthGuard''),
         (''APP_GUARD'', ''RolesGuard'')],
      module_middlewares = [], module_exports = []\<rparr>"

definition app_middleware_module :: nest_module where
  "app_middleware_module =
     \<lparr>unit_name = ''AppMiddlewareModule'', global_module = False, module_imports = [], module_controllers = [],
      module_providers = [], module_middlewares = [''RequestIdMiddleware'', ''SecurityHeadersMiddleware'', ''CsrfMiddleware''],
      module_exports = []\<rparr>"

definition logging_module :: nest_module where
  "logging_module =
     \<lparr>unit_name = ''LoggingModule'', global_module = True, module_imports = [], module_controllers = [],
      module_providers = classes [''PinoLoggerService''], module_middlewares = [], module_exports = [''PinoLoggerService'']\<rparr>"

definition observability_module :: nest_module where
  "observability_module =
     \<lparr>unit_name = ''MetricsModule'', global_module = True, module_imports = [], module_controllers = [''MetricsController''],
      module_providers = classes [''MetricsService'', ''DomainGaugesService'', ''BusinessMetricsService''] @
        [(''APP_INTERCEPTOR'', ''ControllerMetricsInterceptor'')],
      module_middlewares = [''HttpMetricsMiddleware''], module_exports = [''MetricsService'', ''BusinessMetricsService'']\<rparr>"

definition tracing_module :: nest_module where
  "tracing_module =
     \<lparr>unit_name = ''TracingModule'', global_module = False, module_imports = [], module_controllers = [],
      module_providers = classes [''TracingLifecycle''], module_middlewares = [], module_exports = []\<rparr>"

definition auth_module :: nest_module where
  "auth_module =
     \<lparr>unit_name = ''AuthModule'', global_module = False,
      module_imports = [Library_Module ''PassportModule'', Library_Module ''JwtModule''], module_controllers = [],
      module_providers = classes [''JwtStrategy'', ''JwtAuthGuard'', ''RolesGuard'', ''ApiKeyService'', ''ApiKeyGuard'',
        ''RefreshTokenService'', ''PasswordService''],
      module_middlewares = [],
      module_exports = [''JwtModule'', ''PassportModule'', ''JwtAuthGuard'', ''RolesGuard'', ''ApiKeyService'', ''ApiKeyGuard'',
        ''RefreshTokenService'', ''PasswordService'']\<rparr>"

definition blockchain_module :: nest_module where
  "blockchain_module =
     \<lparr>unit_name = ''BlockchainModule'', global_module = True, module_imports = [], module_controllers = [],
      module_providers = classes [''BlockchainService''], module_middlewares = [], module_exports = [''BlockchainService'']\<rparr>"

text \<open>The modules of the domain: the entities, the other imports, and the services, exported or not.\<close>

definition domain_module :: "string \<Rightarrow> string list \<Rightarrow> string list \<Rightarrow> string \<Rightarrow> string list \<Rightarrow> string list \<Rightarrow> nest_module" where
  "domain_module n es ms ctrl ps exported =
     \<lparr>unit_name = n, global_module = False,
      module_imports = (if es = [] then [] else [Entities es]) @ map Program_Module ms,
      module_controllers = [ctrl], module_providers = classes ps, module_middlewares = [], module_exports = exported\<rparr>"

definition identity_module :: nest_module where
  "identity_module = domain_module ''IdentityModule'' [''Agent''] [] ''IdentityController'' [''IdentityService''] [''IdentityService'']"

definition catalog_module :: nest_module where
  "catalog_module = domain_module ''CatalogModule'' [''Service''] [''PricingModule''] ''CatalogController'' [''CatalogService''] [''CatalogService'']"

definition pricing_module :: nest_module where
  "pricing_module = domain_module ''PricingModule'' [''Tariff''] [] ''PricingController'' [''PricingService''] [''PricingService'']"

definition metering_module :: nest_module where
  "metering_module = domain_module ''MeteringModule'' [''UsageRecord'', ''Receipt'', ''UsageRollup''] [] ''MeteringController''
     [''MeteringService'', ''MeteringRollupJob''] [''MeteringService'', ''MeteringRollupJob'']"

definition protocol_module :: nest_module where
  "protocol_module = domain_module ''ProtocolModule'' [] [''MeteringModule'', ''IdentityModule'', ''PolicyModule''] ''ProtocolController''
     [''ProtocolService'', ''NonceStoreService''] [''ProtocolService'']"

definition policy_module :: nest_module where
  "policy_module = domain_module ''PolicyModule'' [''Policy''] [] ''PolicyController''
     [''PolicyService'', ''PolicyEvaluatorService''] [''PolicyService'', ''PolicyEvaluatorService'']"

definition health_module :: nest_module where
  "health_module = domain_module ''HealthModule'' [] [] ''HealthController'' [''HealthService''] [''HealthService'']"

definition program_modules :: "nest_module list" where
  "program_modules =
     [app_module, app_middleware_module, logging_module, observability_module, tracing_module, auth_module, blockchain_module,
      identity_module, catalog_module, pricing_module, metering_module, protocol_module, policy_module, health_module]"

section \<open>Constructors\<close>

text \<open>The parameters by token; an optional one may stay without a provider.\<close>

datatype dependency = Needs string | May_Have string

definition repository :: "string \<Rightarrow> string" where
  "repository entity = ''Repository<'' @ entity @ ''>''"

definition constructors :: "(string \<times> dependency list) list" where
  "constructors =
     [(''CatalogService'', [Needs (repository ''Service''), Needs ''PricingService'']),
      (''CatalogController'', [Needs ''CatalogService'']),
      (''PricingService'', [Needs (repository ''Tariff'')]),
      (''PricingController'', [Needs ''PricingService'']),
      (''IdentityService'', [Needs (repository ''Agent''), Needs ''BlockchainService'', Needs ''ConfigService'']),
      (''IdentityController'', [Needs ''IdentityService'']),
      (''PolicyService'', [Needs (repository ''Policy'')]),
      (''PolicyEvaluatorService'', [Needs (repository ''Policy''), Needs ''BusinessMetricsService'']),
      (''PolicyController'', [Needs ''PolicyService'']),
      (''ProtocolService'', [Needs ''MeteringService'', Needs ''IdentityService'', Needs ''BlockchainService'',
         Needs ''NonceStoreService'', Needs ''PolicyEvaluatorService'']),
      (''NonceStoreService'', [May_Have ''NONCE_STORE_OPTIONS'']),
      (''ProtocolController'', [Needs ''ProtocolService'']),
      (''MeteringService'', [Needs (repository ''UsageRecord''), Needs (repository ''Receipt''), Needs ''BlockchainService'']),
      (''MeteringRollupJob'', [Needs (repository ''UsageRecord''), Needs (repository ''UsageRollup''), Needs ''BusinessMetricsService'']),
      (''MeteringController'', [Needs ''MeteringService'']),
      (''HealthService'', [Needs ''DataSource'', Needs ''BlockchainService'']),
      (''HealthController'', [Needs ''HealthService'']),
      (''BlockchainService'', [Needs ''ConfigService'']),
      (''PinoLoggerService'', [May_Have ''PINO_DESTINATION'']),
      (''MetricsService'', []),
      (''DomainGaugesService'', [Needs ''MetricsService'', Needs ''DataSource'']),
      (''BusinessMetricsService'', [Needs ''MetricsService'']),
      (''ControllerMetricsInterceptor'', [Needs ''MetricsService'']),
      (''MetricsController'', [Needs ''MetricsService'']),
      (''HttpMetricsMiddleware'', [Needs ''MetricsService'']),
      (''TracingLifecycle'', []),
      (''JwtStrategy'', [Needs ''ConfigService'']),
      (''JwtAuthGuard'', [Needs ''Reflector'']),
      (''RolesGuard'', [Needs ''Reflector'']),
      (''ApiKeyService'', [Needs ''ConfigService'']),
      (''ApiKeyGuard'', [Needs ''ApiKeyService'']),
      (''RefreshTokenService'', [Needs ''JwtService'', Needs ''ConfigService'']),
      (''PasswordService'', []),
      (''RequestIdMiddleware'', []),
      (''SecurityHeadersMiddleware'', []),
      (''CsrfMiddleware'', [Needs ''ConfigService''])]"

text \<open>A class that is not in the list belongs to a library, which constructs it by itself.\<close>

definition parameters_of :: "string \<Rightarrow> dependency list" where
  "parameters_of c = (case map_of constructors c of Some ds \<Rightarrow> ds | None \<Rightarrow> [])"

section \<open>Resolution\<close>

text \<open>The tokens the libraries provide: by import, whether everywhere, and the framework's own.\<close>

record module_library =
  library_tokens :: "import \<Rightarrow> string list"
  library_global :: "import \<Rightarrow> bool"
  core_tokens :: "string list"

definition find_module :: "string \<Rightarrow> nest_module option" where
  "find_module n = List.find (\<lambda>m. unit_name m = n) program_modules"

text \<open>An instance is a class in the module that provides it.\<close>

type_synonym instance_id = "string \<times> string"

definition own_providers :: "nest_module \<Rightarrow> (string \<times> instance_id) list" where
  "own_providers m = map (\<lambda>(t, c). (t, (unit_name m, c))) (module_providers m)"

definition exported_providers :: "nest_module \<Rightarrow> (string \<times> instance_id) list" where
  "exported_providers m = filter (\<lambda>p. fst p \<in> set (module_exports m)) (own_providers m)"

text \<open>A library module that is exported after it has been imported is passed on.\<close>

definition reexported :: "nest_module \<Rightarrow> import list" where
  "reexported m = filter (\<lambda>i. case i of Library_Module n \<Rightarrow> n \<in> set (module_exports m) | _ \<Rightarrow> False) (module_imports m)"

definition visible_providers :: "nest_module \<Rightarrow> (string \<times> instance_id) list" where
  "visible_providers m =
     own_providers m @
     concat (map (\<lambda>i. case i of Program_Module n \<Rightarrow> (case find_module n of Some k \<Rightarrow> exported_providers k | None \<Rightarrow> []) | _ \<Rightarrow> [])
       (module_imports m)) @
     concat (map exported_providers (filter global_module program_modules))"

definition visible_imports :: "module_library \<Rightarrow> nest_module \<Rightarrow> import list" where
  "visible_imports lib m =
     module_imports m @
     concat (map (\<lambda>i. case i of Program_Module n \<Rightarrow> (case find_module n of Some k \<Rightarrow> reexported k | None \<Rightarrow> []) | _ \<Rightarrow> [])
       (module_imports m)) @
     filter (library_global lib) (concat (map module_imports program_modules))"

definition library_provides :: "module_library \<Rightarrow> nest_module \<Rightarrow> string \<Rightarrow> bool" where
  "library_provides lib m t \<longleftrightarrow> t \<in> set (core_tokens lib) \<or> (\<exists>i \<in> set (visible_imports lib m). t \<in> set (library_tokens lib i))"

text \<open>The instances of the program, and when one can be constructed.\<close>

definition instances_of :: "nest_module \<Rightarrow> instance_id list" where
  "instances_of m = map (Pair (unit_name m)) (map snd (module_providers m) @ module_controllers m @ module_middlewares m)"

definition instances :: "instance_id list" where
  "instances = concat (map instances_of program_modules)"

definition dependency_ready :: "module_library \<Rightarrow> instance_id set \<Rightarrow> nest_module \<Rightarrow> dependency \<Rightarrow> bool" where
  "dependency_ready lib built m d =
     (case d of
        May_Have t \<Rightarrow> True
      | Needs t \<Rightarrow> (case map_of (visible_providers m) t of Some i \<Rightarrow> i \<in> built | None \<Rightarrow> library_provides lib m t))"

definition ready :: "module_library \<Rightarrow> instance_id set \<Rightarrow> instance_id \<Rightarrow> bool" where
  "ready lib built i =
     (case find_module (fst i) of
        None \<Rightarrow> False
      | Some m \<Rightarrow> list_all (dependency_ready lib built m) (parameters_of (snd i)))"

text \<open>One instance after the other, whenever its parameters are there.\<close>

inductive constructible :: "module_library \<Rightarrow> instance_id list \<Rightarrow> bool" for lib where
  nothing: "constructible lib []"
| another: "constructible lib built \<Longrightarrow> i \<in> set instances \<Longrightarrow> i \<notin> set built \<Longrightarrow> ready lib (set built) i \<Longrightarrow> constructible lib (built @ [i])"

text \<open>The documented minimum of the libraries the program imports.\<close>

definition documented_tokens :: "import \<Rightarrow> string list" where
  "documented_tokens i =
     (case i of
        Program_Module n \<Rightarrow> []
      | Entities es \<Rightarrow> map repository es
      | Library_Module n \<Rightarrow>
          if n = ''ConfigModule'' then [''ConfigService''] else if n = ''TypeOrmModule'' then [''DataSource'']
          else if n = ''JwtModule'' then [''JwtService''] else [])"

definition documented_global :: "import \<Rightarrow> bool" where
  "documented_global i \<longleftrightarrow> i \<in> {Library_Module ''ConfigModule'', Library_Module ''TypeOrmModule''}"

definition documented :: "module_library \<Rightarrow> bool" where
  "documented lib \<longleftrightarrow> ''Reflector'' \<in> set (core_tokens lib) \<and>
     (\<forall>i. set (documented_tokens i) \<subseteq> set (library_tokens lib i)) \<and> (\<forall>i. documented_global i \<longrightarrow> library_global lib i)"

definition minimal_library :: module_library where
  "minimal_library = \<lparr>library_tokens = documented_tokens, library_global = documented_global, core_tokens = [''Reflector'']\<rparr>"

section \<open>Evaluation\<close>

lemmas module_defs = app_module_def app_middleware_module_def logging_module_def observability_module_def tracing_module_def
  auth_module_def blockchain_module_def identity_module_def catalog_module_def pricing_module_def metering_module_def
  protocol_module_def policy_module_def health_module_def domain_module_def classes_def

lemma unit_names [simp]:
  "unit_name app_module = ''AppModule''"
  "unit_name app_middleware_module = ''AppMiddlewareModule''"
  "unit_name logging_module = ''LoggingModule''"
  "unit_name observability_module = ''MetricsModule''"
  "unit_name tracing_module = ''TracingModule''"
  "unit_name auth_module = ''AuthModule''"
  "unit_name blockchain_module = ''BlockchainModule''"
  "unit_name identity_module = ''IdentityModule''"
  "unit_name catalog_module = ''CatalogModule''"
  "unit_name pricing_module = ''PricingModule''"
  "unit_name metering_module = ''MeteringModule''"
  "unit_name protocol_module = ''ProtocolModule''"
  "unit_name policy_module = ''PolicyModule''"
  "unit_name health_module = ''HealthModule''"
  by (simp_all add: module_defs)

lemma units_global [simp]:
  "global_module app_module = False"
  "global_module app_middleware_module = False"
  "global_module logging_module = True"
  "global_module observability_module = True"
  "global_module tracing_module = False"
  "global_module auth_module = False"
  "global_module blockchain_module = True"
  "global_module identity_module = False"
  "global_module catalog_module = False"
  "global_module pricing_module = False"
  "global_module metering_module = False"
  "global_module protocol_module = False"
  "global_module policy_module = False"
  "global_module health_module = False"
  by (simp_all add: module_defs)

text \<open>The modules by name, and what the global ones export.\<close>

lemma find_modules:
  "find_module ''AppModule'' = Some app_module"
  "find_module ''AppMiddlewareModule'' = Some app_middleware_module"
  "find_module ''LoggingModule'' = Some logging_module"
  "find_module ''MetricsModule'' = Some observability_module"
  "find_module ''TracingModule'' = Some tracing_module"
  "find_module ''AuthModule'' = Some auth_module"
  "find_module ''BlockchainModule'' = Some blockchain_module"
  "find_module ''IdentityModule'' = Some identity_module"
  "find_module ''CatalogModule'' = Some catalog_module"
  "find_module ''PricingModule'' = Some pricing_module"
  "find_module ''MeteringModule'' = Some metering_module"
  "find_module ''ProtocolModule'' = Some protocol_module"
  "find_module ''PolicyModule'' = Some policy_module"
  "find_module ''HealthModule'' = Some health_module"
  by (simp_all add: find_module_def program_modules_def)

lemma global_modules: "filter global_module program_modules = [logging_module, observability_module, blockchain_module]"
  by (simp add: program_modules_def)

text \<open>What the classes of each module can be given by the program itself.\<close>

definition everywhere :: "(string \<times> instance_id) list" where
  "everywhere = [(''PinoLoggerService'', ''LoggingModule'', ''PinoLoggerService''),
     (''MetricsService'', ''MetricsModule'', ''MetricsService''),
     (''BusinessMetricsService'', ''MetricsModule'', ''BusinessMetricsService''),
     (''BlockchainService'', ''BlockchainModule'', ''BlockchainService'')]"

lemma global_exports: "concat (map exported_providers (filter global_module program_modules)) = everywhere"
  by (simp add: global_modules exported_providers_def own_providers_def everywhere_def) (simp add: module_defs)

lemma exports:
  "exported_providers app_module = []"
  "exported_providers app_middleware_module = []"
  "exported_providers logging_module = [(''PinoLoggerService'', ''LoggingModule'', ''PinoLoggerService'')]"
  "exported_providers observability_module = [(''MetricsService'', ''MetricsModule'', ''MetricsService''),
     (''BusinessMetricsService'', ''MetricsModule'', ''BusinessMetricsService'')]"
  "exported_providers tracing_module = []"
  "exported_providers auth_module = [(''JwtAuthGuard'', ''AuthModule'', ''JwtAuthGuard''),
     (''RolesGuard'', ''AuthModule'', ''RolesGuard''),
     (''ApiKeyService'', ''AuthModule'', ''ApiKeyService''),
     (''ApiKeyGuard'', ''AuthModule'', ''ApiKeyGuard''),
     (''RefreshTokenService'', ''AuthModule'', ''RefreshTokenService''),
     (''PasswordService'', ''AuthModule'', ''PasswordService'')]"
  "exported_providers blockchain_module = [(''BlockchainService'', ''BlockchainModule'', ''BlockchainService'')]"
  "exported_providers identity_module = [(''IdentityService'', ''IdentityModule'', ''IdentityService'')]"
  "exported_providers catalog_module = [(''CatalogService'', ''CatalogModule'', ''CatalogService'')]"
  "exported_providers pricing_module = [(''PricingService'', ''PricingModule'', ''PricingService'')]"
  "exported_providers metering_module = [(''MeteringService'', ''MeteringModule'', ''MeteringService''),
     (''MeteringRollupJob'', ''MeteringModule'', ''MeteringRollupJob'')]"
  "exported_providers protocol_module = [(''ProtocolService'', ''ProtocolModule'', ''ProtocolService'')]"
  "exported_providers policy_module = [(''PolicyService'', ''PolicyModule'', ''PolicyService''),
     (''PolicyEvaluatorService'', ''PolicyModule'', ''PolicyEvaluatorService'')]"
  "exported_providers health_module = [(''HealthService'', ''HealthModule'', ''HealthService'')]"
  by (simp_all add: exported_providers_def own_providers_def) (simp_all add: module_defs)

lemma owned:
  "own_providers app_module = [(''APP_GUARD'', ''AppModule'', ''ThrottlerGuard''),
     (''APP_GUARD'', ''AppModule'', ''ApiKeyGuard''),
     (''APP_GUARD'', ''AppModule'', ''JwtAuthGuard''),
     (''APP_GUARD'', ''AppModule'', ''RolesGuard'')]"
  "own_providers app_middleware_module = []"
  "own_providers logging_module = [(''PinoLoggerService'', ''LoggingModule'', ''PinoLoggerService'')]"
  "own_providers observability_module = [(''MetricsService'', ''MetricsModule'', ''MetricsService''),
     (''DomainGaugesService'', ''MetricsModule'', ''DomainGaugesService''),
     (''BusinessMetricsService'', ''MetricsModule'', ''BusinessMetricsService''),
     (''APP_INTERCEPTOR'', ''MetricsModule'', ''ControllerMetricsInterceptor'')]"
  "own_providers tracing_module = [(''TracingLifecycle'', ''TracingModule'', ''TracingLifecycle'')]"
  "own_providers auth_module = [(''JwtStrategy'', ''AuthModule'', ''JwtStrategy''),
     (''JwtAuthGuard'', ''AuthModule'', ''JwtAuthGuard''),
     (''RolesGuard'', ''AuthModule'', ''RolesGuard''),
     (''ApiKeyService'', ''AuthModule'', ''ApiKeyService''),
     (''ApiKeyGuard'', ''AuthModule'', ''ApiKeyGuard''),
     (''RefreshTokenService'', ''AuthModule'', ''RefreshTokenService''),
     (''PasswordService'', ''AuthModule'', ''PasswordService'')]"
  "own_providers blockchain_module = [(''BlockchainService'', ''BlockchainModule'', ''BlockchainService'')]"
  "own_providers identity_module = [(''IdentityService'', ''IdentityModule'', ''IdentityService'')]"
  "own_providers catalog_module = [(''CatalogService'', ''CatalogModule'', ''CatalogService'')]"
  "own_providers pricing_module = [(''PricingService'', ''PricingModule'', ''PricingService'')]"
  "own_providers metering_module = [(''MeteringService'', ''MeteringModule'', ''MeteringService''),
     (''MeteringRollupJob'', ''MeteringModule'', ''MeteringRollupJob'')]"
  "own_providers protocol_module = [(''ProtocolService'', ''ProtocolModule'', ''ProtocolService''),
     (''NonceStoreService'', ''ProtocolModule'', ''NonceStoreService'')]"
  "own_providers policy_module = [(''PolicyService'', ''PolicyModule'', ''PolicyService''),
     (''PolicyEvaluatorService'', ''PolicyModule'', ''PolicyEvaluatorService'')]"
  "own_providers health_module = [(''HealthService'', ''HealthModule'', ''HealthService'')]"
  by (simp_all add: own_providers_def) (simp_all add: module_defs)

lemma imports_of:
  "module_imports app_module = [Program_Module ''AppMiddlewareModule'', Library_Module ''ConfigModule'', Library_Module ''TypeOrmModule'', Library_Module ''ThrottlerModule'', Program_Module ''LoggingModule'', Program_Module ''MetricsModule'', Program_Module ''TracingModule'', Program_Module ''AuthModule'', Program_Module ''BlockchainModule'', Program_Module ''IdentityModule'', Program_Module ''CatalogModule'', Program_Module ''PricingModule'', Program_Module ''MeteringModule'', Program_Module ''ProtocolModule'', Program_Module ''PolicyModule'', Program_Module ''HealthModule'']"
  "module_imports app_middleware_module = []"
  "module_imports logging_module = []"
  "module_imports observability_module = []"
  "module_imports tracing_module = []"
  "module_imports auth_module = [Library_Module ''PassportModule'', Library_Module ''JwtModule'']"
  "module_imports blockchain_module = []"
  "module_imports identity_module = [Entities [''Agent'']]"
  "module_imports catalog_module = [Entities [''Service''], Program_Module ''PricingModule'']"
  "module_imports pricing_module = [Entities [''Tariff'']]"
  "module_imports metering_module = [Entities [''UsageRecord'', ''Receipt'', ''UsageRollup'']]"
  "module_imports protocol_module = [Program_Module ''MeteringModule'', Program_Module ''IdentityModule'', Program_Module ''PolicyModule'']"
  "module_imports policy_module = [Entities [''Policy'']]"
  "module_imports health_module = []"
  by (simp_all add: module_defs)

text \<open>The lookup of a token: first the own providers, then the imports', then the global ones.\<close>

lemmas visible = visible_providers_def global_exports find_modules exports owned imports_of everywhere_def

section \<open>What the libraries provide\<close>

lemma config_everywhere: "documented lib \<Longrightarrow> library_provides lib m ''ConfigService''"
  and data_source_everywhere: "documented lib \<Longrightarrow> library_provides lib m ''DataSource''"
  and reflector_everywhere: "documented lib \<Longrightarrow> library_provides lib m ''Reflector''"
proof -
  assume d: "documented lib"
  have seen: "Library_Module ''ConfigModule'' \<in> set (visible_imports lib m)" "Library_Module ''TypeOrmModule'' \<in> set (visible_imports lib m)"
    using d by (auto simp: documented_def documented_global_def visible_imports_def program_modules_def app_module_def)
  have "''ConfigService'' \<in> set (library_tokens lib (Library_Module ''ConfigModule''))"
    "''DataSource'' \<in> set (library_tokens lib (Library_Module ''TypeOrmModule''))"
    using d by (auto simp: documented_def documented_tokens_def subset_iff dest!: spec [of _ "Library_Module _"])
  with seen show "library_provides lib m ''ConfigService''" "library_provides lib m ''DataSource''"
    unfolding library_provides_def by blast+
  show "library_provides lib m ''Reflector''" using d by (simp add: library_provides_def documented_def)
qed

lemma imported_provides:
  assumes "documented lib" and "i \<in> set (module_imports m)" and "t \<in> set (documented_tokens i)"
  shows "library_provides lib m t"
  using assms by (auto simp: library_provides_def visible_imports_def documented_def)

lemma repositories_provided:
  assumes "documented lib"
  shows "library_provides lib identity_module ''Repository<Agent>''" "library_provides lib catalog_module ''Repository<Service>''"
    "library_provides lib pricing_module ''Repository<Tariff>''" "library_provides lib policy_module ''Repository<Policy>''"
    "library_provides lib metering_module ''Repository<UsageRecord>''" "library_provides lib metering_module ''Repository<Receipt>''"
    "library_provides lib metering_module ''Repository<UsageRollup>''" "library_provides lib auth_module ''JwtService''"
proof -
  note provided = imported_provides [OF assms]
  show "library_provides lib identity_module ''Repository<Agent>''"
    by (rule provided [of "Entities [''Agent'']"]) (simp_all add: module_defs documented_tokens_def repository_def)
  show "library_provides lib catalog_module ''Repository<Service>''"
    by (rule provided [of "Entities [''Service'']"]) (simp_all add: module_defs documented_tokens_def repository_def)
  show "library_provides lib pricing_module ''Repository<Tariff>''"
    by (rule provided [of "Entities [''Tariff'']"]) (simp_all add: module_defs documented_tokens_def repository_def)
  show "library_provides lib policy_module ''Repository<Policy>''"
    by (rule provided [of "Entities [''Policy'']"]) (simp_all add: module_defs documented_tokens_def repository_def)
  show "library_provides lib metering_module ''Repository<UsageRecord>''" "library_provides lib metering_module ''Repository<Receipt>''"
    "library_provides lib metering_module ''Repository<UsageRollup>''"
    by (rule provided [of "Entities [''UsageRecord'', ''Receipt'', ''UsageRollup'']"];
        simp add: module_defs documented_tokens_def repository_def)+
  show "library_provides lib auth_module ''JwtService''"
    by (rule provided [of "Library_Module ''JwtModule''"]) (simp_all add: module_defs documented_tokens_def)
qed

section \<open>A construction\<close>

lemma parameters [simp]:
  "parameters_of ''CatalogService'' = [Needs ''Repository<Service>'', Needs ''PricingService'']"
  "parameters_of ''CatalogController'' = [Needs ''CatalogService'']"
  "parameters_of ''PricingService'' = [Needs ''Repository<Tariff>'']"
  "parameters_of ''PricingController'' = [Needs ''PricingService'']"
  "parameters_of ''IdentityService'' = [Needs ''Repository<Agent>'', Needs ''BlockchainService'', Needs ''ConfigService'']"
  "parameters_of ''IdentityController'' = [Needs ''IdentityService'']"
  "parameters_of ''PolicyService'' = [Needs ''Repository<Policy>'']"
  "parameters_of ''PolicyEvaluatorService'' = [Needs ''Repository<Policy>'', Needs ''BusinessMetricsService'']"
  "parameters_of ''PolicyController'' = [Needs ''PolicyService'']"
  "parameters_of ''ProtocolService'' = [Needs ''MeteringService'', Needs ''IdentityService'', Needs ''BlockchainService'', Needs ''NonceStoreService'', Needs ''PolicyEvaluatorService'']"
  "parameters_of ''NonceStoreService'' = [May_Have ''NONCE_STORE_OPTIONS'']"
  "parameters_of ''ProtocolController'' = [Needs ''ProtocolService'']"
  "parameters_of ''MeteringService'' = [Needs ''Repository<UsageRecord>'', Needs ''Repository<Receipt>'', Needs ''BlockchainService'']"
  "parameters_of ''MeteringRollupJob'' = [Needs ''Repository<UsageRecord>'', Needs ''Repository<UsageRollup>'', Needs ''BusinessMetricsService'']"
  "parameters_of ''MeteringController'' = [Needs ''MeteringService'']"
  "parameters_of ''HealthService'' = [Needs ''DataSource'', Needs ''BlockchainService'']"
  "parameters_of ''HealthController'' = [Needs ''HealthService'']"
  "parameters_of ''BlockchainService'' = [Needs ''ConfigService'']"
  "parameters_of ''PinoLoggerService'' = [May_Have ''PINO_DESTINATION'']"
  "parameters_of ''MetricsService'' = []"
  "parameters_of ''DomainGaugesService'' = [Needs ''MetricsService'', Needs ''DataSource'']"
  "parameters_of ''BusinessMetricsService'' = [Needs ''MetricsService'']"
  "parameters_of ''ControllerMetricsInterceptor'' = [Needs ''MetricsService'']"
  "parameters_of ''MetricsController'' = [Needs ''MetricsService'']"
  "parameters_of ''HttpMetricsMiddleware'' = [Needs ''MetricsService'']"
  "parameters_of ''TracingLifecycle'' = []"
  "parameters_of ''JwtStrategy'' = [Needs ''ConfigService'']"
  "parameters_of ''JwtAuthGuard'' = [Needs ''Reflector'']"
  "parameters_of ''RolesGuard'' = [Needs ''Reflector'']"
  "parameters_of ''ApiKeyService'' = [Needs ''ConfigService'']"
  "parameters_of ''ApiKeyGuard'' = [Needs ''ApiKeyService'']"
  "parameters_of ''RefreshTokenService'' = [Needs ''JwtService'', Needs ''ConfigService'']"
  "parameters_of ''PasswordService'' = []"
  "parameters_of ''RequestIdMiddleware'' = []"
  "parameters_of ''SecurityHeadersMiddleware'' = []"
  "parameters_of ''CsrfMiddleware'' = [Needs ''ConfigService'']"
  "parameters_of ''ThrottlerGuard'' = []"
  by (simp_all add: parameters_of_def constructors_def repository_def)

text \<open>The instances in levels: each finds what it needs among those of the levels before.\<close>

definition construction_levels :: "instance_id list list" where
  "construction_levels =
     [[(''AppModule'', ''ThrottlerGuard''), (''AppModule'', ''JwtAuthGuard''), (''AppModule'', ''RolesGuard''),
       (''AppMiddlewareModule'', ''RequestIdMiddleware''), (''AppMiddlewareModule'', ''SecurityHeadersMiddleware''),
       (''AppMiddlewareModule'', ''CsrfMiddleware''), (''LoggingModule'', ''PinoLoggerService''),
       (''MetricsModule'', ''MetricsService''), (''TracingModule'', ''TracingLifecycle''),
       (''AuthModule'', ''JwtStrategy''), (''AuthModule'', ''JwtAuthGuard''), (''AuthModule'', ''RolesGuard''),
       (''AuthModule'', ''ApiKeyService''), (''AuthModule'', ''RefreshTokenService''),
       (''AuthModule'', ''PasswordService''), (''BlockchainModule'', ''BlockchainService''),
       (''PricingModule'', ''PricingService''), (''PolicyModule'', ''PolicyService''),
       (''ProtocolModule'', ''NonceStoreService'')],
      [(''MetricsModule'', ''DomainGaugesService''), (''MetricsModule'', ''BusinessMetricsService''),
       (''MetricsModule'', ''ControllerMetricsInterceptor''), (''MetricsModule'', ''MetricsController''),
       (''MetricsModule'', ''HttpMetricsMiddleware''), (''AuthModule'', ''ApiKeyGuard''),
       (''AppModule'', ''ApiKeyGuard''), (''IdentityModule'', ''IdentityService''),
       (''CatalogModule'', ''CatalogService''), (''MeteringModule'', ''MeteringService''),
       (''HealthModule'', ''HealthService''), (''PricingModule'', ''PricingController''),
       (''PolicyModule'', ''PolicyController'')],
      [(''MeteringModule'', ''MeteringRollupJob''), (''PolicyModule'', ''PolicyEvaluatorService''),
       (''IdentityModule'', ''IdentityController''), (''CatalogModule'', ''CatalogController''),
       (''MeteringModule'', ''MeteringController''), (''HealthModule'', ''HealthController'')],
      [(''ProtocolModule'', ''ProtocolService'')],
      [(''ProtocolModule'', ''ProtocolController'')]]"

fun levels_ready :: "module_library \<Rightarrow> instance_id list \<Rightarrow> instance_id list list \<Rightarrow> bool" where
  "levels_ready lib built [] = True"
| "levels_ready lib built (l # ls) = (list_all (ready lib (set built)) l \<and> levels_ready lib (built @ l) ls)"

lemma ready_mono: "ready lib A i \<Longrightarrow> A \<subseteq> B \<Longrightarrow> ready lib B i"
  by (auto simp: ready_def list_all_iff dependency_ready_def split: option.splits dependency.splits)

lemma level_constructible:
  "list_all (ready lib (set built)) l \<Longrightarrow> constructible lib (built @ l') \<Longrightarrow> distinct (built @ l' @ l) \<Longrightarrow> set l \<subseteq> set instances \<Longrightarrow>
     constructible lib (built @ l' @ l)"
proof (induction l arbitrary: l')
  case (Cons i l)
  have "ready lib (set (built @ l')) i" using Cons.prems(1) by (auto intro: ready_mono)
  then have "constructible lib ((built @ l') @ [i])" using Cons.prems by (intro another) auto
  with Cons.IH [of "l' @ [i]"] Cons.prems show ?case by simp
qed simp

lemma levels_constructible:
  "levels_ready lib built ls \<Longrightarrow> constructible lib built \<Longrightarrow> distinct (built @ concat ls) \<Longrightarrow> set (concat ls) \<subseteq> set instances \<Longrightarrow>
     constructible lib (built @ concat ls)"
proof (induction ls arbitrary: built)
  case (Cons l ls)
  have "constructible lib (built @ l)" using level_constructible [of lib built l "[]"] Cons.prems by (auto simp: Int_Un_distrib)
  with Cons.IH [of "built @ l"] Cons.prems show ?case by simp
qed simp

lemmas ready_simps = construction_levels_def ready_def find_modules dependency_ready_def visible config_everywhere
  data_source_everywhere reflector_everywhere repositories_provided

lemma level_ready_0: "documented lib \<Longrightarrow> list_all (ready lib (set [])) (construction_levels ! 0)"
  by (simp add: ready_simps)

lemma level_ready_1:
  "documented lib \<Longrightarrow> list_all (ready lib (set (construction_levels ! 0))) (construction_levels ! 1)"
  by (simp add: ready_simps)

lemma level_ready_2:
  "documented lib \<Longrightarrow> list_all (ready lib (set (construction_levels ! 0) \<union> set (construction_levels ! 1))) (construction_levels ! 2)"
  by (simp add: ready_simps)

lemma level_ready_3:
  "documented lib \<Longrightarrow> list_all (ready lib (set (construction_levels ! 0) \<union> set (construction_levels ! 1) \<union>
     set (construction_levels ! 2))) (construction_levels ! 3)"
  by (simp add: ready_simps)

lemma level_ready_4:
  "documented lib \<Longrightarrow> list_all (ready lib (set (construction_levels ! 3))) (construction_levels ! 4)"
  by (simp add: ready_simps)

lemma levels_split:
  "construction_levels = [construction_levels ! 0, construction_levels ! 1, construction_levels ! 2, construction_levels ! 3,
     construction_levels ! 4]"
  by (simp add: construction_levels_def)

lemma all_levels_ready:
  assumes "documented lib"
  shows "levels_ready lib [] construction_levels"
proof -
  note r = level_ready_0 [OF assms] level_ready_1 [OF assms] level_ready_2 [OF assms] level_ready_3 [OF assms] level_ready_4 [OF assms]
  have "list_all (ready lib (set (construction_levels ! 0) \<union> set (construction_levels ! 1) \<union> set (construction_levels ! 2) \<union>
      set (construction_levels ! 3))) (construction_levels ! 4)"
    using r(5) by (auto simp: list_all_iff intro: ready_mono)
  with r show ?thesis by (subst levels_split) (simp add: Un_assoc)
qed

lemma order_distinct: "distinct (concat construction_levels)"
  by code_simp

lemma order_complete: "set (concat construction_levels) = set instances"
  by code_simp

section \<open>Entities and routes\<close>

text \<open>The tables of the entities' decorators, and the handlers of the controllers.\<close>

definition entity_tables :: "(string \<times> string) list" where
  "entity_tables =
     [(''Service'', ''services''), (''Agent'', ''agents''), (''UsageRecord'', ''usage_records''), (''Receipt'', ''receipts''),
      (''UsageRollup'', ''usage_rollups''), (''Policy'', ''policies''), (''Tariff'', ''tariffs'')]"

definition loaded_entities :: "string list" where
  "loaded_entities =
     concat (map (\<lambda>i. case i of Entities es \<Rightarrow> es | _ \<Rightarrow> []) (concat (map module_imports program_modules)))"

definition controller_routes :: "(string \<times> route list) list" where
  "controller_routes =
     [(''IdentityController'', identity_routes), (''CatalogController'', catalog_routes), (''PricingController'', pricing_routes),
      (''MeteringController'', metering_routes), (''PolicyController'', policy_routes), (''ProtocolController'', protocol_routes),
      (''HealthController'', health_routes), (''MetricsController'', metrics_routes)]"

lemma unguarded_distinct:
  "distinct (map snd (filter (\<lambda>i. snd i \<notin> set [''ApiKeyGuard'', ''JwtAuthGuard'', ''RolesGuard'']) instances))"
  by code_simp

lemma one_instance:
  "\<forall>i \<in> set instances. \<forall>j \<in> set instances. snd i = snd j \<longrightarrow> i = j \<or> snd i \<in> {''ApiKeyGuard'', ''JwtAuthGuard'', ''RolesGuard''}"
proof (intro ballI impI)
  fix i j
  assume ij: "i \<in> set instances" "j \<in> set instances" "snd i = snd j"
  show "i = j \<or> snd i \<in> {''ApiKeyGuard'', ''JwtAuthGuard'', ''RolesGuard''}"
  proof (rule disjCI)
    assume "snd i \<notin> {''ApiKeyGuard'', ''JwtAuthGuard'', ''RolesGuard''}"
    then have "i \<in> set (filter (\<lambda>i. snd i \<notin> set [''ApiKeyGuard'', ''JwtAuthGuard'', ''RolesGuard'']) instances)"
      "j \<in> set (filter (\<lambda>i. snd i \<notin> set [''ApiKeyGuard'', ''JwtAuthGuard'', ''RolesGuard'']) instances)"
      using ij by (simp_all only: set_filter mem_Collect_eq list.set simp_thms)
    then show "i = j" by (rule inj_onD [OF distinct_map [THEN iffD1, OF unguarded_distinct, THEN conjunct2] ij(3)])
  qed
qed

lemma entities_loaded: "loaded_entities = [''Agent'', ''Service'', ''Tariff'', ''UsageRecord'', ''Receipt'', ''UsageRollup'', ''Policy'']"
  by (simp add: loaded_entities_def program_modules_def imports_of)

lemma migrated_tables:
  "map fst (tables (migrated 3)) =
     [''agents'', ''services'', ''tariffs'', ''usage_records'', ''receipts'', ''policies'', ''usage_rollups'']"
  by code_simp

lemma entities_have_tables:
  "(\<lambda>e. map_of entity_tables e) ` set [''Agent'', ''Service'', ''Tariff'', ''UsageRecord'', ''Receipt'', ''UsageRollup'', ''Policy''] =
     Some ` set (map fst (tables (migrated 3)))"
proof -
  have "map (map_of entity_tables) [''Agent'', ''Service'', ''Tariff'', ''UsageRecord'', ''Receipt'', ''UsageRollup'', ''Policy''] =
      map Some [''agents'', ''services'', ''tariffs'', ''usage_records'', ''receipts'', ''usage_rollups'', ''policies'']"
    by (simp add: entity_tables_def)
  from arg_cong [OF this, of set] have "map_of entity_tables ` set [''Agent'', ''Service'', ''Tariff'', ''UsageRecord'', ''Receipt'', ''UsageRollup'', ''Policy''] =
      Some ` set [''agents'', ''services'', ''tariffs'', ''usage_records'', ''receipts'', ''usage_rollups'', ''policies'']"
    by (simp only: list.set_map)
  also have "set [''agents'', ''services'', ''tariffs'', ''usage_records'', ''receipts'', ''usage_rollups'', ''policies''] =
      set (map fst (tables (migrated 3)))"
    unfolding migrated_tables by (simp only: list.set insert_commute [of "''policies''" "''usage_rollups''" "{}"])
  finally show ?thesis .
qed

lemma registered_controllers:
  "concat (map module_controllers program_modules) =
     [''MetricsController'', ''IdentityController'', ''CatalogController'', ''PricingController'', ''MeteringController'',
      ''ProtocolController'', ''PolicyController'', ''HealthController'']"
  by (simp add: program_modules_def) (simp add: module_defs)

text \<open>No class of the program asks for the services that issue tokens and hash passwords.\<close>

lemma token_services_unused:
  "\<forall>p \<in> set constructors. Needs ''RefreshTokenService'' \<notin> set (snd p) \<and> Needs ''PasswordService'' \<notin> set (snd p)"
  by (simp add: constructors_def repository_def)

section \<open>Properties\<close>

text \<open>
  C29: The application can be put together, and its shared state is shared. With libraries that provide at
  least what is documented, there is an order in which every class of every module is constructed exactly
  once with all its parameters. Apart from the three guards no class has two instances, so that there is
  one nonce store, one revocation list, one metrics registry and one wallet, whoever asks for them. The
  tables of the migrated schema are exactly those of the entities the modules load, and the handlers of
  the modules' controllers are exactly the routes that the guards decide on.
\<close>

theorem application_wires:
  assumes "documented lib"
  shows "(\<exists>order. constructible lib order \<and> distinct order \<and> set order = set instances) \<and>
    (\<forall>i \<in> set instances. \<forall>j \<in> set instances. snd i = snd j \<longrightarrow>
       i = j \<or> snd i \<in> {''ApiKeyGuard'', ''JwtAuthGuard'', ''RolesGuard''}) \<and>
    (\<lambda>e. map_of entity_tables e) ` set loaded_entities = Some ` set (map fst (tables (migrated 3))) \<and>
    \<Union> ((\<lambda>c. set (the (map_of controller_routes c))) ` set (concat (map module_controllers program_modules))) = set routes"
proof (intro conjI)
  have "constructible lib ([] @ concat construction_levels)"
  proof (rule levels_constructible [OF all_levels_ready [OF assms] constructible.nothing])
    show "distinct ([] @ concat construction_levels)" using order_distinct by (simp only: append_Nil)
  qed (simp only: order_complete subset_refl)
  then show "\<exists>order. constructible lib order \<and> distinct order \<and> set order = set instances"
    using order_distinct order_complete by (metis append_Nil)
  show "(\<lambda>e. map_of entity_tables e) ` set loaded_entities = Some ` set (map fst (tables (migrated 3)))"
    unfolding entities_loaded by (rule entities_have_tables)
  show "\<Union> ((\<lambda>c. set (the (map_of controller_routes c))) ` set (concat (map module_controllers program_modules))) = set routes"
    unfolding registered_controllers by (simp add: controller_routes_def routes_def) blast
qed (rule one_instance)

theorem application_wires_witness:
  "(\<exists>order. constructible minimal_library order \<and> distinct order \<and> set order = set instances)"
proof -
  have "documented minimal_library" by (simp add: documented_def minimal_library_def)
  from application_wires [OF this] show ?thesis by blast
qed

end
