(* ===== verification/Spec2Isabelle.thy ===== *)
theory Spec2Isabelle
  imports Guards Request_Log Health Http_Metrics Tracing Config Passwords Policy_Admin Chain Catalog
    Serving Load_Test Schema_Rows Controller_Metrics Process Deploy App_Modules
begin

text \<open>
  A verification development of the A2A agent layer, the NestJS back end under \<open>src/src/\<close>. Agents
  register with a DID, publish services and tariffs, and call each other through
  \<open>POST /a2a/request\<close>, which meters the call and answers with a signed receipt.

  \<^bold>\<open>How a request travels.\<close> The middlewares (request id, security headers, CSRF) run first, then the
  guards (API key, bearer token, role), the interceptors, the pipes (sanitising, validation) and the
  handler; what the handler throws goes through the exception filters. The protocol handler hashes
  the canonical request, consumes the nonce, asks the policies of the called agent, records usage and
  signs a receipt. Beside this the rollup job aggregates usage every hour, scrapes read the metrics,
  and the identity service mirrors agents to a contract.

  \<^bold>\<open>Theories.\<close> Foundations: \<open>Prelude\<close> (effectful calls that return or throw over an explicit state,
  their laws and simplification rules, insertion-ordered maps), \<open>Js_String\<close> and \<open>Js_Regex\<close> (the
  string functions and regular expressions of the language), \<open>Json\<close> (values, members, \<open>JSON.stringify\<close>)
  and \<open>Json_Parse\<close> (\<open>JSON.parse\<close>, indentation, and their round trip).
  The agent protocol: \<open>Canonical\<close> (\<open>request-canonicalization.ts\<close>), \<open>Expiring_Store\<close> (the law both
  in-memory stores obey, a locale) with \<open>Nonce_Store\<close> (\<open>nonce-store.service.ts\<close>) and
  \<open>Refresh_Tokens\<close> (\<open>refresh-token.service.ts\<close>), \<open>Policy\<close> (\<open>policy-evaluator.ts\<close> and its service),
  \<open>Policy_Admin\<close> (\<open>policy.service.ts\<close>), \<open>Metering\<close> (\<open>metering.service.ts\<close>, \<open>metering-rollup.job.ts\<close>),
  \<open>App_State\<close> (what requests share) and \<open>Protocol\<close> (\<open>protocol.service.ts\<close>). The registry and the
  market: \<open>Identity\<close> (\<open>identity.service.ts\<close>, \<open>did-controller.ts\<close>) and \<open>Catalog\<close>
  (\<open>catalog.service.ts\<close>, \<open>pricing.service.ts\<close>, tied by the locale \<open>batched_lookup\<close>). The edge:
  \<open>Http\<close>, \<open>Api_Keys\<close>, \<open>Guards\<close>, \<open>Csrf\<close>, \<open>Passwords\<close>, \<open>Sanitize\<close>, \<open>Validators\<close>, \<open>Request_Body\<close>
  (bodies to the values the services get), \<open>Filters\<close> (failures to replies) and \<open>Serving\<close> (a protocol
  request on its whole way, composed from the stages). Operation:
  \<open>Business_Metrics\<close>, \<open>Http_Metrics\<close>, \<open>Domain_Gauges\<close>, \<open>Health\<close>, \<open>Request_Log\<close> (middlewares,
  interceptors, logger), \<open>Controller_Metrics\<close> (the metrics registry, the handlers' timing), \<open>Tracing\<close>
  and \<open>Config\<close>. The chain: \<open>Retry\<close>, \<open>Chain\<close> (polling, finality, nonces) and \<open>Blockchain\<close>
  (\<open>blockchain.service.ts\<close>). The database: \<open>Sql\<close> (tables, rows, insertion and data definition as the
  migrations use them), \<open>Sql_Invariant\<close>, \<open>Schema\<close> (\<open>src/src/migrations/\<close>) and \<open>Schema_Rows\<close> (what the
  repositories insert). The process: \<open>App_Modules\<close> (\<open>app.module.ts\<close> and the other modules) and \<open>Process\<close>
  (start and stop). Around it: \<open>Deploy\<close> (\<open>scripts/deploy-contracts.ts\<close>, \<open>data-source.ts\<close>),
  \<open>Load_Profile\<close> and \<open>Load_Test\<close> (\<open>k6/agent-layer-load.js\<close>). This theory holds what spans components. Each theory says at its top which files it
  models; definitions have the names of the functions they model, in the library's spelling.

  \<^bold>\<open>How state and operations correspond.\<close> An operation is a function from its arguments and the state
  to an outcome, \<open>Inl\<close> what it throws or \<open>Inr\<close> what it returns, and the state it leaves, in the order
  of the calls in the code. Fields of services become records (\<open>nonce_store\<close>, \<open>revocations\<close>,
  \<open>domain_gauges\<close>, \<open>nonce_manager\<close>); \<open>app\<close> joins those a request touches. Clock readings, random
  values and identifiers the runtime draws are arguments, one for each reading. Where calls
  interleave the code's callbacks are the steps of an inductive relation: the listeners of open
  requests, the loads of the gauges, the turns of the nonce queue, the construction of the services.
  The order in which the framework runs hooks is a parameter. Texts are lists of 8-bit
  characters read as code units; numbers of a body are their JSON text, measured quantities
  integers or rationals.

  \<^bold>\<open>Parameters and what is assumed of them.\<close> The database (as operations over its own state), the
  chain node and the contract, SHA-256, HMAC, scrypt, Keccak and signature recovery, the JWT and
  passport libraries, \<open>JSON.parse\<close> and \<open>decodeURIComponent\<close>, and the exception classes of the
  framework are arguments; so are the chain library, what the libraries' modules provide
  (\<open>documented\<close>), the validation library's own messages and the runner of the load test. Where a theorem needs their documented behaviour it is a named
  hypothesis (\<open>rollup_db\<close>, \<open>tariff_query_ok\<close>, \<open>nest_classes\<close>, \<open>hmac_hex\<close>, \<open>digest_hex\<close>), and a witness
  gives an instance. Absence of hash collisions is assumed only where stated, for the keys compared.

  \<^bold>\<open>What the lemmas show.\<close> Authorisation: a completed request passed nonce and policies, refused ones
  leave no record; guards, API keys, CSRF, refresh tokens and registration admit exactly whom they
  should, and a receipt is only issued past all of them. Policies: decision, wildcards, order, monotonicity. Data: canonical form, receipts and
  registration messages determine what they cover; DIDs, keys, tokens and passwords round-trip.
  Equivalence with references: batched listing, rollup sums, gauges. Bounds and termination: retry,
  polling, store size, spacing of loads, labels. Error behaviour: replies, recorded statuses, log
  lines, health. The schema: its constraints hold of every database reached by insertions, the last
  migration undoes exactly, and what the repositories insert is stored or refused as the services
  expect. The process: its modules can be constructed, services with state exist once, it starts
  exactly on acceptable settings and releases what it holds. The load profile offers only traffic the
  service accepts, and the deploy script's file is what the registry reads. Some theorems pin down behaviour that differs from what comments or documents say:
  a claimed hash and signature that nobody checks, callers that are not bound to the agent they name, wildcards that cross segments, access tokens that
  rotate, escaped markup that is restored, usage the schedule misses, reverted transactions that are
  waited for for ever.

  \<^bold>\<open>Fuel and bounds.\<close> Two loops of the code have no bound of their own. \<open>poll_loop\<close> takes fuel, and
  \<open>poll_receipt_ends\<close> shows that the timeout in milliseconds plus two rounds suffices whenever the
  clock moves on by at least what is slept. \<open>await_final\<close> takes fuel and need not end; that is a
  theorem. The reader of \<open>Json_Parse\<close> recurses with fuel of twice the text's length plus one, and
  \<open>read_fuel\<close> shows that more changes nothing. Every other loop is structural or, as \<open>retry_loop\<close> and
  \<open>hash_loop\<close>, has a measure.

  \<^bold>\<open>Not modelled.\<close> The throttling guard, the scheduling of timers and the framework's dispatch
  (libraries), the exporter, sampler and instrumentations of the trace library and the provider of the
  chain library as objects, redaction and rendering of log lines and metrics, the attributes of the
  CSRF cookie, decorators and set-up that only produce documentation, declarations no operation uses,
  and the contracts in Solidity. Of SQL only what the migrations and insertions use: deletion, updates
  and the queries of the services are operations of the parameters. Members every JavaScript object
  inherits, code units above 255, exponents beyond the range of doubles and rounding of doubles are
  outside the model, and each definition that meets them says so.
\<close>

section \<open>The pipes and the canonical hash\<close>

text \<open>Cleaning a document that is clean keeps its canonical form.\<close>

lemma sort_keys_sanitize: "json_wf v \<Longrightarrow> clean_json v \<Longrightarrow> sort_keys_deep (sanitize v) = sort_keys_deep v"
proof (induction v)
  case (JStr s)
  then show ?case by (simp add: strip_html_clean)
next
  case (JArr xs)
  then show ?case by (auto simp: list_all_iff)
next
  case (JObj ps)
  then have d: "distinct (map fst ps)" by simp
  obtain qs where qs: "sanitize (JObj ps) = JObj qs" "distinct (map fst qs)"
    and get: "\<And>k. map_of qs k = (if k = proto_key then None else map_option sanitize (map_of ps k))"
    using sanitize_members [OF d] by auto
  have member: "sort_keys_deep (sanitize v) = sort_keys_deep v" if "map_of ps k = Some v" for k v
  proof -
    have "(k, v) \<in> set ps" using that by (rule map_of_SomeD)
    moreover from this have "json_wf v" "clean_json v" using JObj.prems by (auto simp: list_all_iff)
    ultimately show ?thesis by (intro JObj.IH) (auto simp: snds.simps)
  qed
  have "assign_sorted (map (\<lambda>p. (fst p, sort_keys_deep (snd p))) qs) = assign_sorted (map (\<lambda>p. (fst p, sort_keys_deep (snd p))) ps)"
  proof (rule assign_sorted_cong)
    fix k
    assume "k \<noteq> proto_key"
    then show "map_of (map (\<lambda>p. (fst p, sort_keys_deep (snd p))) qs) k = map_of (map (\<lambda>p. (fst p, sort_keys_deep (snd p))) ps) k"
      by (cases "map_of ps k") (simp_all add: map_of_snd_map get member)
  qed (use d qs in simp_all)
  then show ?case by (simp only: qs sort_keys_deep.simps)
qed simp_all

lemma clean_member: "clean_json (JObj ps) \<Longrightarrow> map_of ps k = Some v \<Longrightarrow> clean_json v"
  by (auto simp: list_all_iff dest!: map_of_SomeD)

text \<open>What cleaning leaves of a clean member: a text is itself, null and numbers are themselves.\<close>

lemma sanitize_shape:
  "clean_json v \<Longrightarrow> sanitize v = JStr s \<longleftrightarrow> v = JStr s"
  "sanitize v = JNull \<longleftrightarrow> v = JNull"
  "sanitize v = JNum n \<longleftrightarrow> v = JNum n"
  by (cases v; auto simp: strip_html_clean)+

lemma sanitized_text:
  assumes "clean_json (JObj ps)" and "map_of qs k = map_option sanitize (map_of ps k)"
  shows "text_of qs k = text_of ps k"
proof (cases "map_of ps k")
  case None
  then show ?thesis using assms(2) by (simp add: text_of_def)
next
  case (Some v)
  then have "clean_json v" using clean_member [OF assms(1)] by blast
  then show ?thesis using assms(2) Some by (cases v) (auto simp: text_of_def strip_html_clean)
qed

lemma sanitized_validator:
  assumes "clean_json (JObj ps)" and "map_of qs k = map_option sanitize (map_of ps k)"
    and "\<And>v. clean_json v \<Longrightarrow> P v \<Longrightarrow> P (sanitize v)"
  shows "required_member ps k P \<Longrightarrow> required_member qs k P"
    and "skippable_member ps k P \<Longrightarrow> skippable_member qs k P"
  using assms clean_member [OF assms(1)] by (auto simp: required_member_def skippable_member_def split: option.splits)

lemma string_matching_sanitize: "clean_json v \<Longrightarrow> string_matching r v \<Longrightarrow> string_matching r (sanitize v)"
  by (cases v) (auto simp: string_matching_def strip_html_clean)

lemma validators_sanitize:
  "clean_json v \<Longrightarrow> is_did v \<Longrightarrow> is_did (sanitize v)"
  "clean_json v \<Longrightarrow> is_keccak256_hash v \<Longrightarrow> is_keccak256_hash (sanitize v)"
  "clean_json v \<Longrightarrow> is_string v \<Longrightarrow> is_string (sanitize v)"
  "clean_json v \<Longrightarrow> is_not_empty v \<Longrightarrow> is_not_empty (sanitize v)"
  "clean_json v \<Longrightarrow> is_number_at_least_zero v \<Longrightarrow> is_number_at_least_zero (sanitize v)"
  using string_matching_sanitize [of v did_pattern] string_matching_sanitize [of v keccak256_pattern]
  by (simp_all add: is_did_def is_keccak256_hash_def)
    (cases v; auto simp: is_string_def is_not_empty_def is_number_at_least_zero_def strip_html_clean)+

lemma sanitized_body_valid:
  assumes clean: "clean_json (JObj ps)" and valid: "a2a_body_valid ps"
    and keys: "fst ` set qs \<subseteq> fst ` set ps"
    and get: "\<And>k. k \<in> set a2a_members \<Longrightarrow> map_of qs k = map_option sanitize (map_of ps k)"
  shows "a2a_body_valid qs"
proof -
  note v = valid [unfolded a2a_body_valid_def]
  have req: "required_member qs k P"
    if "required_member ps k P" "k \<in> set a2a_members" "\<And>v. clean_json v \<Longrightarrow> P v \<Longrightarrow> P (sanitize v)" for k P
    by (rule sanitized_validator(1) [OF clean get]) (use that in auto)
  have skip: "skippable_member qs k P"
    if "skippable_member ps k P" "k \<in> set a2a_members" "\<And>v. clean_json v \<Longrightarrow> P v \<Longrightarrow> P (sanitize v)" for k P
    by (rule sanitized_validator(2) [OF clean get]) (use that in auto)
  have "fst ` set ps \<subseteq> set a2a_members" using v by (auto simp: list_all_iff)
  with keys have "list_all (\<lambda>p. fst p \<in> set a2a_members) qs" by (auto simp: list_all_iff)
  moreover have "k \<in> set a2a_members" if "k \<in> {''agentFromId'', ''agentToId'', ''sessionId'', ''requestPayload'',
      ''requestHash'', ''maxBudget'', ''policyDigest'', ''nonce'', ''signature''}" for k
    using that by (simp add: a2a_members_def)
  ultimately show ?thesis
    unfolding a2a_body_valid_def using v
    by (intro conjI req skip) (simp_all add: validators_sanitize)
qed

section \<open>Properties\<close>

text \<open>
  The cleaning of bodies does not break hashes, as long as there is nothing to clean. If no
  text of a request's body holds markup, an ampersand, a script scheme, an event handler or outer
  white space, then what the pipe passes on is valid if the body was, it reads as a request again,
  and the hash the handler computes from it is the hash of the request as it was sent.
\<close>

theorem clean_request_keeps_hash:
  assumes "json_wf (JObj ps)" and clean: "clean_json (JObj ps)" and valid: "a2a_body_valid ps"
    and dto: "read_a2a ps = Some dto"
  shows "\<exists>qs dto'. sanitize_transform ''body'' (JObj ps) = JObj qs \<and> a2a_body_valid qs \<and> read_a2a qs = Some dto' \<and>
    request_hash env dto' = request_hash env dto"
proof -
  have "distinct (map fst ps)" using assms(1) by simp
  then obtain qs where qs: "sanitize (JObj ps) = JObj qs"
    and get: "\<And>k. map_of qs k = (if k = proto_key then None else map_option sanitize (map_of ps k))"
    using sanitize_members by blast
  have g: "map_of qs k = map_option sanitize (map_of ps k)" if "k \<noteq> proto_key" for k using get that by simp
  have members: "k \<noteq> proto_key" if "k \<in> set a2a_members" for k using that by (auto simp: a2a_members_def proto_key_def)
  have "fst ` set qs \<subseteq> fst ` set ps" using get by (auto simp: keys_conv_map_of split: if_splits)
  then have "a2a_body_valid qs" by (rule sanitized_body_valid [OF clean valid]) (simp add: g members)
  moreover have texts: "text_of qs k = text_of ps k" if "k \<in> set a2a_members" for k
    using that by (intro sanitized_text [OF clean g]) (rule members)
  have names: "''agentFromId'' \<in> set a2a_members" "''agentToId'' \<in> set a2a_members" "''sessionId'' \<in> set a2a_members"
    "''requestPayload'' \<in> set a2a_members" "''maxBudget'' \<in> set a2a_members" "''requestHash'' \<in> set a2a_members"
    "''signature'' \<in> set a2a_members" "''policyDigest'' \<in> set a2a_members" "''nonce'' \<in> set a2a_members"
    by (simp_all add: a2a_members_def)
  obtain p n where p: "map_of ps ''requestPayload'' = Some p" and n: "map_of ps ''maxBudget'' = Some (JNum n)"
    and payload: "request_payload dto = p" and nulls: "map_of ps ''policyDigest'' \<noteq> Some JNull" "map_of ps ''nonce'' \<noteq> Some JNull"
    using dto by (auto simp: read_a2a_def split: if_splits option.splits json.splits)
  have "read_a2a qs = Some (dto\<lparr>request_payload := sanitize p\<rparr>)"
    using dto nulls p n by (auto simp: read_a2a_def texts names g members sanitize_shape split: option.splits)
  moreover have "json_wf p" "clean_json p" using member_wf [OF assms(1) p] clean_member [OF clean p] by simp_all
  then have "request_hash env (dto\<lparr>request_payload := sanitize p\<rparr>) = request_hash env dto"
    using sort_keys_sanitize [of p] payload
    by (simp add: request_hash_def hash_canonical_request_def canonicalize_signed_request_def normalized_request_def
        envelope.truncate_def)
  ultimately show ?thesis using qs by (auto simp: sanitize_transform_def)
qed

theorem clean_request_keeps_hash_witness:
  "clean_json (JObj demo_body) \<and> (\<exists>qs. sanitize_transform ''body'' (JObj demo_body) = JObj qs \<and> a2a_body_valid qs)"
proof
  show clean: "clean_json (JObj demo_body)" by (rule demo_body_clean)
  obtain dto where dto: "read_a2a demo_body = Some dto" by (simp add: read_a2a_def demo_body_def text_of_def)
  have "json_wf (JObj demo_body)" by code_simp
  from clean_request_keeps_hash [OF this clean demo_valid dto]
  show "\<exists>qs. sanitize_transform ''body'' (JObj demo_body) = JObj qs \<and> a2a_body_valid qs" by blast
qed

text \<open>
  C21: A DID is registered once, and a client that loses the race is told the same. If an agent with
  the DID exists already, or none is found but the insertion hits the unique constraint because
  another request got there first, then a registration that proves control of its owner fails, the
  chain is not called, and the client gets status 409 in both cases.
\<close>

theorem duplicate_registration_conflict:
  assumes nest: "nest_classes n"
    and control: "verify_did_controller recover (claim_of dto) (reg_owner_signature dto)"
    and taken: "(\<exists>a. find_by_did repo (reg_agent_did dto) d = (Inr (Some a), d')) \<or>
      (\<exists>d1 m k. find_by_did repo (reg_agent_did dto) d = (Inr None, d1) \<and>
         insert_agent repo (draft_of dto) d1 = (Inl (Query_Failed (Some ''23505'') m k), d'))"
  shows "\<exists>e r. register_agent recover repo reg rnd dto d = (Inl e, d') \<and>
    reply_to n production now req e = Some r \<and> reply_status r = 409"
  using taken
proof (elim disjE exE conjE)
  fix a
  assume "find_by_did repo (reg_agent_did dto) d = (Inr (Some a), d')"
  then have "register_agent recover repo reg rnd dto d =
      (Inl (Conflict (''Agent '' @ reg_agent_did dto @ '' is already registered'')), d')"
    using control by (simp add: register_agent_def io_bind_def)
  then show ?thesis using nest
    by (simp add: reply_to_eq general_status described_def nest_classes_def http_class_def)
next
  fix d1 m k
  assume "find_by_did repo (reg_agent_did dto) d = (Inr None, d1)"
    and "insert_agent repo (draft_of dto) d1 = (Inl (Query_Failed (Some ''23505'') m k), d')"
  then have "register_agent recover repo reg rnd dto d = (Inl (Query_Failed (Some ''23505'') m k), d')"
    using control by (simp add: register_agent_def io_bind_def)
  then show ?thesis by (simp add: reply_to_eq pg_error_map_def)
qed

definition racing_repo :: "unit agent_repo" where
  "racing_repo = \<lparr>find_by_did = (\<lambda>i d. (Inr None, d)), find_by_id = (\<lambda>i d. (Inr None, d)), find_agents = (\<lambda>d. (Inr [], d)),
     insert_agent = (\<lambda>x d. (Inl (Query_Failed (Some ''23505'') ''duplicate key'' (Some ''UQ_agents_did'')), d)),
     save_agent = (\<lambda>a d. (Inr a, d))\<rparr>"

definition demo_registration :: register_dto where
  "demo_registration = \<lparr>reg_agent_did = ''did:prom:a'', reg_owner = ''0xAB'', reg_public_key = ''k'', reg_endpoint = ''http://a'',
     reg_owner_signature = ''s'', reg_status = None\<rparr>"

definition idle_registry :: "unit registry" where
  "idle_registry = \<lparr>registry_address = [], get_contract = io_return (), register_on_chain = (\<lambda>a b c. io_return []),
     update_on_chain = (\<lambda>a b c. io_return []), deactivate_on_chain = (\<lambda>a. io_return [])\<rparr>"

theorem duplicate_registration_conflict_witness:
  "\<exists>e r. register_agent (\<lambda>m s. Inr ''0xab'') racing_repo idle_registry (\<lambda>_. 0) demo_registration () = (Inl e, ()) \<and>
    reply_to demo_nest True ''now'' demo_failed e = Some r \<and> reply_status r = 409"
proof (rule duplicate_registration_conflict [OF demo_nest_classes])
  show "verify_did_controller (\<lambda>m s. Inr ''0xab'') (claim_of demo_registration) (reg_owner_signature demo_registration)"
    by code_simp
qed (simp add: racing_repo_def)

end
